theory Spec2Isabelle
  imports Main
begin

section \<open>The modal editing engine of prompt-line (VimModeManager)\<close>

text \<open>
  A shallow embedding of the class \<^verbatim>\<open>VimModeManager\<close> (in
  \<^verbatim>\<open>src/renderer/renderer.ts\<close>, after the renderer class) together with the part of
  its host it talks to:
  the textarea (text, selection range, selection direction), the timer queue of
  \<^verbatim>\<open>setTimeout\<close>/\<^verbatim>\<open>clearTimeout\<close> and the clipboard reads that are in flight.
  JavaScript numbers are \<open>int\<close>, strings are \<open>string\<close> (one \<open>char\<close> per code
  unit), \<^verbatim>\<open>null\<close> is \<open>None\<close>. Every method mutates \<^verbatim>\<open>this\<close> and the
  textarea; here it takes the state and returns the new one.
\<close>

subsection \<open>Data model\<close>

datatype VimMode = Normal | Insert | Visual | VisualLine

datatype direction = Forward | Backward | NoDirection

text \<open>
  The host textarea. \<open>tvalue\<close> is the DOM property \<^verbatim>\<open>value\<close>. The field
  \<open>calls\<close> is a ghost log: every call of \<^verbatim>\<open>setSelectionRange\<close> appends its two
  arguments, as passed, and the length of the text at the time of the call.
\<close>

record textarea =
  tvalue :: string
  selectionStart :: int
  selectionEnd :: int
  selectionDirection :: direction
  calls :: "(int \<times> int \<times> int) list"

text \<open>An entry of the undo and redo stacks, \<^verbatim>\<open>{ text: string; cursor: number }\<close>.\<close>

record snapshot =
  snap_text :: string
  snap_cursor :: int

text \<open>The three fire-and-forget asynchronous functions that await a clipboard read.\<close>

datatype paste_kind = PasteAfter | PasteBefore | ReplaceSelection

text \<open>
  The fields of \<^verbatim>\<open>VimModeManager\<close> (\<open>mode\<close>, \<open>yankBuffer\<close> and \<open>visualStart\<close>
  are its \<^verbatim>\<open>state: VimState\<close>), followed by the host side: \<open>textarea\<close> is
  \<^verbatim>\<open>domManager.textarea\<close> (nullable), \<open>timers\<close> the handles of the timeouts that
  are armed, \<open>nextTimer\<close> the next handle \<^verbatim>\<open>setTimeout\<close> returns, and
  \<open>clipboardReads\<close> the clipboard reads that have not resolved yet, oldest first.
\<close>

record manager =
  enabled :: bool
  mode :: VimMode
  yankBuffer :: string
  visualStart :: "int option"
  undoStack :: "snapshot list"
  redoStack :: "snapshot list"
  pendingKey :: "string option"
  pendingKeyTimeout :: "nat option"
  textarea :: "textarea option"
  timers :: "nat list"
  nextTimer :: nat
  clipboardReads :: "paste_kind list"

record KeyboardEvent =
  key :: string
  ctrlKey :: bool
  shiftKey :: bool
  metaKey :: bool

definition maxUndoStack :: nat where
  "maxUndoStack = 100"

definition newline :: char where
  "newline = CHR 0x0A"

text \<open>The field initialisers of the class; the textarea is what the DOM manager found.\<close>

definition initial :: "textarea option \<Rightarrow> manager" where
  "initial ta =
     \<lparr>enabled = False, mode = Normal, yankBuffer = [], visualStart = None,
      undoStack = [], redoStack = [], pendingKey = None, pendingKeyTimeout = None,
      textarea = ta, timers = [], nextTimer = 1, clipboardReads = []\<rparr>"

subsection \<open>JavaScript strings\<close>

text \<open>\<^verbatim>\<open>s.slice(a, b)\<close>: a negative index counts from the end, both are clamped.\<close>

definition slice :: "string \<Rightarrow> int \<Rightarrow> int \<Rightarrow> string" where
  "slice s a b =
     (let n = int (length s);
          lo = (if a < 0 then max (n + a) 0 else min a n);
          hi = (if b < 0 then max (n + b) 0 else min b n)
      in take (nat (hi - lo)) (drop (nat lo) s))"

text \<open>\<^verbatim>\<open>s.slice(a)\<close>.\<close>

definition sliceFrom :: "string \<Rightarrow> int \<Rightarrow> string" where
  "sliceFrom s a = slice s a (int (length s))"

text \<open>\<^verbatim>\<open>s[i]\<close>: \<^verbatim>\<open>undefined\<close> (here \<open>None\<close>) outside the string.\<close>

definition charAt :: "string \<Rightarrow> int \<Rightarrow> char option" where
  "charAt s i = (if 0 \<le> i \<and> i < int (length s) then Some (s ! nat i) else None)"

text \<open>Truthiness of a \<^verbatim>\<open>string | null\<close>: \<^verbatim>\<open>null\<close> and the empty string are falsy.\<close>

definition truthy :: "string option \<Rightarrow> bool" where
  "truthy x = (case x of None \<Rightarrow> False | Some t \<Rightarrow> t \<noteq> [])"

subsection \<open>The textarea\<close>

text \<open>
  An argument of \<^verbatim>\<open>setSelectionRange\<close> beyond the text points at its end. The
  arguments are unsigned in the DOM interface, so a negative number wraps to a huge one
  and points at the end as well.
\<close>

definition clampPos :: "int \<Rightarrow> int \<Rightarrow> int" where
  "clampPos n x = (if x < 0 \<or> n < x then n else x)"

text \<open>
  \<^verbatim>\<open>textarea.setSelectionRange(start, end, direction)\<close>: if the end is not after the
  start, both are placed at the end. A missing direction is \<open>NoDirection\<close>.
\<close>

definition setSelectionRange :: "int \<Rightarrow> int \<Rightarrow> direction \<Rightarrow> textarea \<Rightarrow> textarea" where
  "setSelectionRange a b dir ta =
     (let n = int (length (tvalue ta));
          s = clampPos n a;
          e = clampPos n b
      in ta\<lparr>selectionStart := (if e \<le> s then e else s),
            selectionEnd := e,
            selectionDirection := dir,
            calls := calls ta @ [(a, b, n)]\<rparr>)"

text \<open>
  \<^verbatim>\<open>textarea.value = v\<close>: when the text changes, the widget moves the caret to the
  end of the new text and forgets the direction.
\<close>

definition setValue :: "string \<Rightarrow> textarea \<Rightarrow> textarea" where
  "setValue v ta =
     (if v = tvalue ta then ta
      else ta\<lparr>tvalue := v,
              selectionStart := int (length v),
              selectionEnd := int (length v),
              selectionDirection := NoDirection\<rparr>)"

text \<open>
  The widget's own action for typed text (the default action of a key-down that nobody
  prevented): the selection is replaced by the text and the caret placed after it.
\<close>

definition nativeInsert :: "string \<Rightarrow> textarea \<Rightarrow> textarea" where
  "nativeInsert t ta =
     ta\<lparr>tvalue := slice (tvalue ta) 0 (selectionStart ta) @ t @ sliceFrom (tvalue ta) (selectionEnd ta),
        selectionStart := selectionStart ta + int (length t),
        selectionEnd := selectionStart ta + int (length t),
        selectionDirection := NoDirection\<rparr>"

subsection \<open>Line boundaries\<close>

text \<open>
  \<^verbatim>\<open>while (start > 0 && text[start - 1] !== '\n') start--;\<close> and
  \<^verbatim>\<open>while (end < text.length && text[end] !== '\n') end++;\<close>
\<close>

function lineStartFrom :: "string \<Rightarrow> int \<Rightarrow> int" where
  "lineStartFrom txt start =
     (if start > 0 \<and> charAt txt (start - 1) \<noteq> Some newline
      then lineStartFrom txt (start - 1) else start)"
  by pat_completeness auto
termination
  by (relation "measure (\<lambda>(txt, start). nat start)") auto

function lineEndFrom :: "string \<Rightarrow> int \<Rightarrow> int" where
  "lineEndFrom txt e =
     (if e < int (length txt) \<and> charAt txt e \<noteq> Some newline
      then lineEndFrom txt (e + 1) else e)"
  by pat_completeness auto
termination
  by (relation "measure (\<lambda>(txt, e). nat (int (length txt) - e))") auto

declare lineStartFrom.simps [simp del]
declare lineEndFrom.simps [simp del]

definition getLineStart :: "manager \<Rightarrow> int \<Rightarrow> int" where
  "getLineStart s pos =
     (case textarea s of None \<Rightarrow> 0 | Some ta \<Rightarrow> lineStartFrom (tvalue ta) pos)"

definition getLineEnd :: "manager \<Rightarrow> int \<Rightarrow> int" where
  "getLineEnd s pos =
     (case textarea s of None \<Rightarrow> 0 | Some ta \<Rightarrow> lineEndFrom (tvalue ta) pos)"

subsection \<open>Mode and cursor appearance\<close>

text \<open>
  The callbacks \<^verbatim>\<open>onModeChange\<close>, \<^verbatim>\<open>onYank\<close>, \<^verbatim>\<open>onWindowClose\<close>, the
  attribute \<^verbatim>\<open>data-vim-mode\<close> and \<^verbatim>\<open>domManager.updateCharCount()\<close> only write to
  the user interface; the engine reads none of them back, and they are left out.
\<close>

definition updateCursorAppearance :: "VimMode \<Rightarrow> manager \<Rightarrow> manager" where
  "updateCursorAppearance m s =
     (case textarea s of
        None \<Rightarrow> s
      | Some ta \<Rightarrow>
          if m = Normal then
            (let pos = selectionStart ta in
             if pos < int (length (tvalue ta)) then
               s\<lparr>textarea := Some (setSelectionRange pos (pos + 1) NoDirection ta)\<rparr>
             else if int (length (tvalue ta)) > 0 then
               s\<lparr>textarea := Some (setSelectionRange (pos - 1) pos NoDirection ta)\<rparr>
             else s)
          else if m = Insert then
            (let pos = selectionStart ta in
             s\<lparr>textarea := Some (setSelectionRange pos pos NoDirection ta)\<rparr>)
          else s)"

definition setMode :: "VimMode \<Rightarrow> manager \<Rightarrow> manager" where
  "setMode m s = updateCursorAppearance m (s\<lparr>mode := m\<rparr>)"

subsection \<open>Pending key and its timer\<close>

definition clearTimeout :: "nat \<Rightarrow> manager \<Rightarrow> manager" where
  "clearTimeout h s = s\<lparr>timers := removeAll h (timers s)\<rparr>"

text \<open>\<^verbatim>\<open>setTimeout(callback, PENDING_KEY_TIMEOUT)\<close> arms a timer and returns its handle.\<close>

definition setTimeout :: "manager \<Rightarrow> nat \<times> manager" where
  "setTimeout s = (nextTimer s, s\<lparr>timers := timers s @ [nextTimer s], nextTimer := Suc (nextTimer s)\<rparr>)"

definition setPendingKey :: "string \<Rightarrow> manager \<Rightarrow> manager" where
  "setPendingKey k s =
     (let s1 = s\<lparr>pendingKey := Some k\<rparr>;
          s2 = (case pendingKeyTimeout s1 of None \<Rightarrow> s1 | Some h \<Rightarrow> clearTimeout h s1);
          (h, s3) = setTimeout s2
      in s3\<lparr>pendingKeyTimeout := Some h\<rparr>)"

definition clearPendingKey :: "manager \<Rightarrow> manager" where
  "clearPendingKey s =
     (let s1 = (case pendingKeyTimeout s of
                  None \<Rightarrow> s
                | Some h \<Rightarrow> (clearTimeout h s)\<lparr>pendingKeyTimeout := None\<rparr>)
      in s1\<lparr>pendingKey := None\<rparr>)"

text \<open>
  The timer with handle \<open>h\<close> expires. If it is still armed its callback runs:
  \<^verbatim>\<open>this.pendingKey = null; this.pendingKeyTimeout = null;\<close>
\<close>

definition timerFired :: "nat \<Rightarrow> manager \<Rightarrow> manager" where
  "timerFired h s =
     (if h \<in> set (timers s)
      then s\<lparr>timers := removeAll h (timers s), pendingKey := None, pendingKeyTimeout := None\<rparr>
      else s)"

definition cleanup :: "manager \<Rightarrow> manager" where
  "cleanup s =
     (case pendingKeyTimeout s of
        None \<Rightarrow> s
      | Some h \<Rightarrow> (clearTimeout h s)\<lparr>pendingKeyTimeout := None\<rparr>)"

subsection \<open>Undo and redo\<close>

definition saveState :: "manager \<Rightarrow> manager" where
  "saveState s =
     (case textarea s of
        None \<Rightarrow> s
      | Some ta \<Rightarrow>
          (let state = \<lparr>snap_text = tvalue ta, snap_cursor = selectionStart ta\<rparr>;
               pushed = undoStack s @ [state];
               limited = (if length pushed > maxUndoStack then tl pushed else pushed)
           in s\<lparr>undoStack := limited, redoStack := []\<rparr>))"

definition undo :: "manager \<Rightarrow> manager" where
  "undo s =
     (if undoStack s = [] then s
      else case textarea s of
        None \<Rightarrow> s
      | Some ta \<Rightarrow>
          (let redo' = redoStack s @ [\<lparr>snap_text = tvalue ta, snap_cursor = selectionStart ta\<rparr>];
               state = last (undoStack s);
               ta1 = setValue (snap_text state) ta;
               ta2 = setSelectionRange (snap_cursor state) (snap_cursor state) NoDirection ta1
           in s\<lparr>redoStack := redo', undoStack := butlast (undoStack s), textarea := Some ta2\<rparr>))"

definition redo :: "manager \<Rightarrow> manager" where
  "redo s =
     (if redoStack s = [] then s
      else case textarea s of
        None \<Rightarrow> s
      | Some ta \<Rightarrow>
          (let undo' = undoStack s @ [\<lparr>snap_text = tvalue ta, snap_cursor = selectionStart ta\<rparr>];
               state = last (redoStack s);
               ta1 = setValue (snap_text state) ta;
               ta2 = setSelectionRange (snap_cursor state) (snap_cursor state) NoDirection ta1
           in s\<lparr>undoStack := undo', redoStack := butlast (redoStack s), textarea := Some ta2\<rparr>))"

subsection \<open>Cursor movement\<close>

definition moveCursorLeft :: "manager \<Rightarrow> manager" where
  "moveCursorLeft s =
     (case textarea s of
        None \<Rightarrow> s
      | Some ta \<Rightarrow>
          (let newPos = max 0 (selectionStart ta - 1) in
           updateCursorAppearance (mode s)
             (s\<lparr>textarea := Some (setSelectionRange newPos newPos NoDirection ta)\<rparr>)))"

definition moveCursorRight :: "manager \<Rightarrow> manager" where
  "moveCursorRight s =
     (case textarea s of
        None \<Rightarrow> s
      | Some ta \<Rightarrow>
          (let newPos = min (int (length (tvalue ta))) (selectionStart ta + 1) in
           updateCursorAppearance (mode s)
             (s\<lparr>textarea := Some (setSelectionRange newPos newPos NoDirection ta)\<rparr>)))"

definition moveCursorUp :: "manager \<Rightarrow> manager" where
  "moveCursorUp s =
     (case textarea s of
        None \<Rightarrow> s
      | Some ta \<Rightarrow>
          (let pos = selectionStart ta;
               lineStart = getLineStart s pos
           in if lineStart = 0 then s
              else
                (let prevLineEnd = lineStart - 1;
                     prevLineStart = getLineStart s prevLineEnd;
                     prevLineLen = prevLineEnd - prevLineStart;
                     col = pos - lineStart;
                     targetCol = max 0 (min col (max 0 (prevLineLen - 1)));
                     newPos = prevLineStart + targetCol
                 in updateCursorAppearance (mode s)
                      (s\<lparr>textarea := Some (setSelectionRange newPos newPos NoDirection ta)\<rparr>))))"

definition moveCursorDown :: "manager \<Rightarrow> manager" where
  "moveCursorDown s =
     (case textarea s of
        None \<Rightarrow> s
      | Some ta \<Rightarrow>
          (let txt = tvalue ta;
               pos = selectionStart ta;
               lineStart = getLineStart s pos;
               lineEnd = getLineEnd s pos
           in if lineEnd \<ge> int (length txt) then s
              else
                (let nextLineStart = lineEnd + 1;
                     nextLineEnd = getLineEnd s nextLineStart;
                     nextLen = nextLineEnd - nextLineStart;
                     col = pos - lineStart;
                     targetCol = max 0 (min col (max 0 (nextLen - 1)));
                     newPos = nextLineStart + targetCol
                 in updateCursorAppearance (mode s)
                      (s\<lparr>textarea := Some (setSelectionRange newPos newPos NoDirection ta)\<rparr>))))"

definition moveCursorToStart :: "manager \<Rightarrow> manager" where
  "moveCursorToStart s =
     (case textarea s of
        None \<Rightarrow> s
      | Some ta \<Rightarrow>
          updateCursorAppearance (mode s)
            (s\<lparr>textarea := Some (setSelectionRange 0 0 NoDirection ta)\<rparr>))"

definition moveCursorToEnd :: "manager \<Rightarrow> manager" where
  "moveCursorToEnd s =
     (case textarea s of
        None \<Rightarrow> s
      | Some ta \<Rightarrow>
          (let len = int (length (tvalue ta)) in
           updateCursorAppearance (mode s)
             (s\<lparr>textarea := Some (setSelectionRange len len NoDirection ta)\<rparr>)))"

definition moveCursorToLineStart :: "manager \<Rightarrow> manager" where
  "moveCursorToLineStart s =
     (case textarea s of
        None \<Rightarrow> s
      | Some ta \<Rightarrow>
          (let lineStart = getLineStart s (selectionStart ta) in
           updateCursorAppearance (mode s)
             (s\<lparr>textarea := Some (setSelectionRange lineStart lineStart NoDirection ta)\<rparr>)))"

definition moveCursorToLineEnd :: "manager \<Rightarrow> manager" where
  "moveCursorToLineEnd s =
     (case textarea s of
        None \<Rightarrow> s
      | Some ta \<Rightarrow>
          (let lineEnd = getLineEnd s (selectionStart ta) in
           updateCursorAppearance (mode s)
             (s\<lparr>textarea := Some (setSelectionRange lineEnd lineEnd NoDirection ta)\<rparr>)))"

subsection \<open>Text manipulation\<close>

definition deleteCharAtCursor :: "manager \<Rightarrow> manager" where
  "deleteCharAtCursor s0 =
     (let s = saveState s0 in
      case textarea s of
        None \<Rightarrow> s
      | Some ta \<Rightarrow>
          (let pos = selectionStart ta in
           if pos < int (length (tvalue ta)) then
             (let newText = slice (tvalue ta) 0 pos @ sliceFrom (tvalue ta) (pos + 1);
                  ta1 = setValue newText ta
              in s\<lparr>textarea := Some (setSelectionRange pos pos NoDirection ta1)\<rparr>)
           else s))"

definition deleteCurrentLine :: "manager \<Rightarrow> manager" where
  "deleteCurrentLine s0 =
     (let s = saveState s0 in
      case textarea s of
        None \<Rightarrow> s
      | Some ta \<Rightarrow>
          (let lineStart = getLineStart s (selectionStart ta);
               lineEnd = getLineEnd s (selectionStart ta);
               nextLineEnd = (if lineEnd < int (length (tvalue ta)) then lineEnd + 1 else lineEnd);
               s1 = s\<lparr>yankBuffer := slice (tvalue ta) lineStart nextLineEnd\<rparr>;
               newText = slice (tvalue ta) 0 lineStart @ sliceFrom (tvalue ta) nextLineEnd;
               ta1 = setValue newText ta
           in s1\<lparr>textarea := Some (setSelectionRange lineStart lineStart NoDirection ta1)\<rparr>))"

definition yankCurrentLine :: "manager \<Rightarrow> manager" where
  "yankCurrentLine s =
     (case textarea s of
        None \<Rightarrow> s
      | Some ta \<Rightarrow>
          (let lineStart = getLineStart s (selectionStart ta);
               lineEnd = getLineEnd s (selectionStart ta);
               nextLineEnd = (if lineEnd < int (length (tvalue ta)) then lineEnd + 1 else lineEnd)
           in s\<lparr>yankBuffer := slice (tvalue ta) lineStart nextLineEnd\<rparr>))"

definition yankSelection :: "manager \<Rightarrow> manager" where
  "yankSelection s =
     (case textarea s of
        None \<Rightarrow> s
      | Some ta \<Rightarrow>
          s\<lparr>yankBuffer := slice (tvalue ta)
                             (min (selectionStart ta) (selectionEnd ta))
                             (max (selectionStart ta) (selectionEnd ta))\<rparr>)"

definition deleteSelection :: "manager \<Rightarrow> manager" where
  "deleteSelection s0 =
     (let s = saveState s0 in
      case textarea s of
        None \<Rightarrow> s
      | Some ta \<Rightarrow>
          (let start = min (selectionStart ta) (selectionEnd ta);
               e = max (selectionStart ta) (selectionEnd ta);
               s1 = s\<lparr>yankBuffer := slice (tvalue ta) start e\<rparr>;
               ta1 = setValue (slice (tvalue ta) 0 start @ sliceFrom (tvalue ta) e) ta
           in s1\<lparr>textarea := Some (setSelectionRange start start NoDirection ta1)\<rparr>))"

subsection \<open>Paste: the clipboard read is asynchronous\<close>

text \<open>
  \<^verbatim>\<open>pasteAfterCursor\<close>, \<^verbatim>\<open>pasteBeforeCursor\<close> and \<^verbatim>\<open>replaceSelectionWithYank\<close>
  start an asynchronous function whose first step awaits \<^verbatim>\<open>readClipboardText()\<close>,
  and return. Nothing happens before the read resolves; the rest of the function body
  runs when it does (\<open>clipboardResolved\<close> below), on the state of that moment. The result
  of the read is the clipboard text, or \<^verbatim>\<open>null\<close> when the clipboard is missing or the
  read is rejected.
\<close>

definition pasteAfterCursor :: "manager \<Rightarrow> manager" where
  "pasteAfterCursor s = s\<lparr>clipboardReads := clipboardReads s @ [PasteAfter]\<rparr>"

definition pasteBeforeCursor :: "manager \<Rightarrow> manager" where
  "pasteBeforeCursor s = s\<lparr>clipboardReads := clipboardReads s @ [PasteBefore]\<rparr>"

definition replaceSelectionWithYank :: "manager \<Rightarrow> manager" where
  "replaceSelectionWithYank s = s\<lparr>clipboardReads := clipboardReads s @ [ReplaceSelection]\<rparr>"

text \<open>\<^verbatim>\<open>(clip && clip.length > 0) ? clip : this.state.yankBuffer\<close>\<close>

definition pasteText :: "string option \<Rightarrow> manager \<Rightarrow> string" where
  "pasteText clip s =
     (case clip of
        None \<Rightarrow> yankBuffer s
      | Some c \<Rightarrow> if truthy clip \<and> length c > 0 then c else yankBuffer s)"

definition pasteAfterCursorResume :: "string option \<Rightarrow> manager \<Rightarrow> manager" where
  "pasteAfterCursorResume clip s0 =
     (let t = pasteText clip s0 in
      if t = [] then s0
      else
        (let s = saveState s0 in
         case textarea s of
           None \<Rightarrow> s
         | Some ta \<Rightarrow>
             (let pos = min (int (length (tvalue ta))) (selectionStart ta + 1);
                  ta1 = setValue (slice (tvalue ta) 0 pos @ t @ sliceFrom (tvalue ta) pos) ta
              in s\<lparr>textarea := Some (setSelectionRange pos pos NoDirection ta1)\<rparr>)))"

definition pasteBeforeCursorResume :: "string option \<Rightarrow> manager \<Rightarrow> manager" where
  "pasteBeforeCursorResume clip s0 =
     (let t = pasteText clip s0 in
      if t = [] then s0
      else
        (let s = saveState s0 in
         case textarea s of
           None \<Rightarrow> s
         | Some ta \<Rightarrow>
             (let pos = selectionStart ta;
                  ta1 = setValue (slice (tvalue ta) 0 pos @ t @ sliceFrom (tvalue ta) pos) ta
              in s\<lparr>textarea := Some (setSelectionRange pos pos NoDirection ta1)\<rparr>)))"

definition replaceSelectionWithYankResume :: "string option \<Rightarrow> manager \<Rightarrow> manager" where
  "replaceSelectionWithYankResume clip s0 =
     (let t = pasteText clip s0 in
      if t = [] then s0
      else
        (let s = saveState s0 in
         case textarea s of
           None \<Rightarrow> s
         | Some ta \<Rightarrow>
             (let start = min (selectionStart ta) (selectionEnd ta);
                  e = max (selectionStart ta) (selectionEnd ta);
                  ta1 = setValue (slice (tvalue ta) 0 start @ t @ sliceFrom (tvalue ta) e) ta
              in s\<lparr>textarea := Some (setSelectionRange start start NoDirection ta1)\<rparr>)))"

text \<open>The oldest clipboard read in flight resolves with \<open>clip\<close>.\<close>

definition clipboardResolved :: "string option \<Rightarrow> manager \<Rightarrow> manager" where
  "clipboardResolved clip s =
     (case clipboardReads s of
        [] \<Rightarrow> s
      | k # rest \<Rightarrow>
          (let s1 = s\<lparr>clipboardReads := rest\<rparr> in
           case k of
             PasteAfter \<Rightarrow> pasteAfterCursorResume clip s1
           | PasteBefore \<Rightarrow> pasteBeforeCursorResume clip s1
           | ReplaceSelection \<Rightarrow> replaceSelectionWithYankResume clip s1))"

subsection \<open>Opening a line\<close>

definition insertLineBelow :: "manager \<Rightarrow> manager" where
  "insertLineBelow s0 =
     (let s = saveState s0 in
      case textarea s of
        None \<Rightarrow> s
      | Some ta \<Rightarrow>
          (let lineEnd = getLineEnd s (selectionStart ta);
               newPos = lineEnd + 1;
               ta1 = setValue (slice (tvalue ta) 0 lineEnd @ [newline] @ sliceFrom (tvalue ta) lineEnd) ta
           in setMode Insert (s\<lparr>textarea := Some (setSelectionRange newPos newPos NoDirection ta1)\<rparr>)))"

definition insertLineAbove :: "manager \<Rightarrow> manager" where
  "insertLineAbove s0 =
     (let s = saveState s0 in
      case textarea s of
        None \<Rightarrow> s
      | Some ta \<Rightarrow>
          (let lineStart = getLineStart s (selectionStart ta);
               ta1 = setValue (slice (tvalue ta) 0 lineStart @ [newline] @ sliceFrom (tvalue ta) lineStart) ta
           in setMode Insert (s\<lparr>textarea := Some (setSelectionRange lineStart lineStart NoDirection ta1)\<rparr>)))"

subsection \<open>Visual selection\<close>

definition setSelectionWithDirection :: "int \<Rightarrow> int \<Rightarrow> manager \<Rightarrow> manager" where
  "setSelectionWithDirection anchor active s =
     (case textarea s of
        None \<Rightarrow> s
      | Some ta \<Rightarrow>
          if active < anchor
          then s\<lparr>textarea := Some (setSelectionRange active anchor Backward ta)\<rparr>
          else s\<lparr>textarea := Some (setSelectionRange anchor active Forward ta)\<rparr>)"

text \<open>\<^verbatim>\<open>this.state.visualStart ?? textarea.selectionStart\<close>\<close>

definition anchorOr :: "manager \<Rightarrow> textarea \<Rightarrow> int" where
  "anchorOr s ta = (case visualStart s of None \<Rightarrow> selectionStart ta | Some a \<Rightarrow> a)"

definition getVisualAnchorAndActive :: "manager \<Rightarrow> int \<times> int" where
  "getVisualAnchorAndActive s =
     (case textarea s of
        None \<Rightarrow> (0, 0)
      | Some ta \<Rightarrow>
          (let anchor = anchorOr s ta;
               start = min (selectionStart ta) (selectionEnd ta);
               e = max (selectionStart ta) (selectionEnd ta);
               active0 = e;
               active1 = (if anchor = e then start else active0);
               active2 = (if anchor \<noteq> start \<and> anchor \<noteq> e then e else active1)
           in (anchor, active2)))"

definition extendSelectionLeft :: "manager \<Rightarrow> manager" where
  "extendSelectionLeft s =
     (case textarea s of
        None \<Rightarrow> s
      | Some ta \<Rightarrow>
          if visualStart s = None then s
          else
            (let (anchor, active) = getVisualAnchorAndActive s;
                 newActive = max 0 (active - 1)
             in setSelectionWithDirection anchor newActive s))"

definition extendSelectionRight :: "manager \<Rightarrow> manager" where
  "extendSelectionRight s =
     (case textarea s of
        None \<Rightarrow> s
      | Some ta \<Rightarrow>
          if visualStart s = None then s
          else
            (let (anchor, active) = getVisualAnchorAndActive s;
                 newActive = min (int (length (tvalue ta))) (active + 1)
             in setSelectionWithDirection anchor newActive s))"

definition extendSelectionUp :: "manager \<Rightarrow> manager" where
  "extendSelectionUp s =
     (case textarea s of
        None \<Rightarrow> s
      | Some ta \<Rightarrow>
          if visualStart s = None then s
          else
            (let (anchor, active) = getVisualAnchorAndActive s;
                 currentPos = active;
                 currentLineStart = getLineStart s currentPos
             in if currentLineStart = 0 then s
                else
                  (let prevLineEnd = currentLineStart - 1;
                       prevLineStart = getLineStart s prevLineEnd;
                       prevLen = prevLineEnd - prevLineStart;
                       col = currentPos - currentLineStart;
                       targetCol = max 0 (min col prevLen);
                       newActive = prevLineStart + targetCol
                   in setSelectionWithDirection anchor newActive s)))"

definition extendSelectionDown :: "manager \<Rightarrow> manager" where
  "extendSelectionDown s =
     (case textarea s of
        None \<Rightarrow> s
      | Some ta \<Rightarrow>
          if visualStart s = None then s
          else
            (let (anchor, active) = getVisualAnchorAndActive s;
                 currentPos = active;
                 currentLineStart = getLineStart s currentPos;
                 currentLineEnd = getLineEnd s currentPos
             in if currentLineEnd \<ge> int (length (tvalue ta)) then s
                else
                  (let nextLineStart = currentLineEnd + 1;
                       nextLineEnd = getLineEnd s nextLineStart;
                       nextLen = nextLineEnd - nextLineStart;
                       col = currentPos - currentLineStart;
                       targetCol = max 0 (min col nextLen);
                       newActive = nextLineStart + targetCol
                   in setSelectionWithDirection anchor newActive s)))"

definition extendSelectionUpLine :: "manager \<Rightarrow> manager" where
  "extendSelectionUpLine s =
     (case textarea s of
        None \<Rightarrow> s
      | Some ta \<Rightarrow>
          if visualStart s = None then s
          else
            (let (anchor, active) = getVisualAnchorAndActive s;
                 currentLineStart = getLineStart s active
             in if currentLineStart > 0
                then setSelectionWithDirection anchor (currentLineStart - 1) s
                else s))"

definition extendSelectionDownLine :: "manager \<Rightarrow> manager" where
  "extendSelectionDownLine s =
     (case textarea s of
        None \<Rightarrow> s
      | Some ta \<Rightarrow>
          if visualStart s = None then s
          else
            (let (anchor, active) = getVisualAnchorAndActive s;
                 currentLineEnd = getLineEnd s active
             in if currentLineEnd < int (length (tvalue ta))
                then setSelectionWithDirection anchor (getLineEnd s (currentLineEnd + 1)) s
                else s))"

subsection \<open>Key handling\<close>

text \<open>The \<^verbatim>\<open>switch (key)\<close> of \<^verbatim>\<open>handleNormalMode\<close>, reached when no key is pending.\<close>

definition normalKey :: "string \<Rightarrow> bool \<Rightarrow> bool \<Rightarrow> textarea \<Rightarrow> manager \<Rightarrow> bool \<times> manager" where
  "normalKey k ctrl shift ta s =
     (if k = ''i'' then (True, setMode Insert s)
      else if k = ''I'' then (True, setMode Insert (moveCursorToLineStart s))
      else if k = ''a'' then (True, setMode Insert (moveCursorRight s))
      else if k = ''A'' then (True, setMode Insert (moveCursorToLineEnd s))
      else if k = ''o'' then (True, insertLineBelow s)
      else if k = ''O'' \<and> shift then (True, insertLineAbove s)
      else if k = ''v'' then
        (let s1 = s\<lparr>visualStart := Some (selectionStart ta)\<rparr>;
             pos = selectionStart ta;
             ta1 = (if pos < int (length (tvalue ta)) then setSelectionRange pos (pos + 1) Forward ta
                    else if pos > 0 then setSelectionRange (pos - 1) pos Backward ta
                    else setSelectionRange pos pos NoDirection ta)
         in (True, setMode Visual (s1\<lparr>textarea := Some ta1\<rparr>)))
      else if k = ''V'' then
        (let s1 = s\<lparr>visualStart := Some (getLineStart s (selectionStart ta))\<rparr>;
             ta1 = setSelectionRange (getLineStart s (selectionStart ta))
                     (getLineEnd s1 (selectionStart ta)) NoDirection ta
         in (True, setMode VisualLine (s1\<lparr>textarea := Some ta1\<rparr>)))
      else if k = ''h'' then (True, moveCursorLeft s)
      else if k = ''j'' then (True, moveCursorDown s)
      else if k = ''k'' then (True, moveCursorUp s)
      else if k = ''l'' then (True, moveCursorRight s)
      else if k = ''Backspace'' then (True, moveCursorLeft s)
      else if k = ''G'' \<and> shift then (True, moveCursorToEnd s)
      else if k = ''x'' then (True, deleteCharAtCursor s)
      else if k = ''u'' then (True, undo s)
      else if k = ''U'' \<and> shift then (True, redo s)
      else if k = ''p'' then (True, pasteAfterCursor s)
      else if k = ''P'' \<and> shift then (True, pasteBeforeCursor s)
      else if k = ''q'' then (True, s)
      else if k = ''g'' \<or> k = ''d'' \<or> k = ''y'' then (True, setPendingKey k s)
      else if length k = 1 \<and> \<not> ctrl then (True, s)
      else (False, s))"

definition handleNormalMode :: "string \<Rightarrow> bool \<Rightarrow> bool \<Rightarrow> manager \<Rightarrow> bool \<times> manager" where
  "handleNormalMode k ctrl shift s =
     (case textarea s of
        None \<Rightarrow> (False, s)
      | Some ta \<Rightarrow>
          (case pendingKey s of
             None \<Rightarrow> normalKey k ctrl shift ta s
           | Some pk \<Rightarrow>
               if truthy (pendingKey s) then
                 (let compound = pk @ k;
                      s1 = clearPendingKey s
                  in if compound = ''gg'' then (True, moveCursorToStart s1)
                     else if compound = ''dd'' then (True, deleteCurrentLine s1)
                     else if compound = ''yy'' then (True, yankCurrentLine s1)
                     else (False, s1))
               else normalKey k ctrl shift ta s))"

definition handleInsertMode :: "string \<Rightarrow> bool \<Rightarrow> bool \<Rightarrow> manager \<Rightarrow> bool \<times> manager" where
  "handleInsertMode k ctrl shift s =
     (if k = ''Escape'' \<or> (ctrl \<and> k = ''['')
      then (True, moveCursorLeft (setMode Normal (saveState s)))
      else (False, s))"

text \<open>The \<^verbatim>\<open>switch (key)\<close> of \<^verbatim>\<open>handleVisualMode\<close>.\<close>

definition visualKey :: "string \<Rightarrow> textarea \<Rightarrow> manager \<Rightarrow> bool \<times> manager" where
  "visualKey k ta s =
     (if k = ''g'' then (True, setPendingKey ''g'' s)
      else if k = ''G'' then
        (let anchor = anchorOr s ta;
             endPos = int (length (tvalue ta))
         in if mode s = VisualLine
            then (True, setSelectionWithDirection anchor (getLineEnd s endPos) s)
            else (True, setSelectionWithDirection anchor endPos s))
      else if k = ''y'' then
        (let s1 = yankSelection s;
             s2 = (case textarea s1 of
                     None \<Rightarrow> s1
                   | Some t \<Rightarrow> s1\<lparr>textarea := Some (setSelectionRange (selectionStart t) (selectionStart t) NoDirection t)\<rparr>)
         in (True, setMode Normal (s2\<lparr>visualStart := None\<rparr>)))
      else if k = ''d'' then (True, setMode Normal ((deleteSelection s)\<lparr>visualStart := None\<rparr>))
      else if k = ''p'' then (True, setMode Normal ((replaceSelectionWithYank s)\<lparr>visualStart := None\<rparr>))
      else if k = ''h'' then (True, extendSelectionLeft s)
      else if k = ''l'' then (True, extendSelectionRight s)
      else if k = ''j'' then
        (if mode s = VisualLine then (True, extendSelectionDownLine s) else (True, extendSelectionDown s))
      else if k = ''k'' then
        (if mode s = VisualLine then (True, extendSelectionUpLine s) else (True, extendSelectionUp s))
      else (False, s))"

definition handleVisualMode :: "string \<Rightarrow> bool \<Rightarrow> bool \<Rightarrow> manager \<Rightarrow> bool \<times> manager" where
  "handleVisualMode k ctrl shift s =
     (case textarea s of
        None \<Rightarrow> (False, s)
      | Some ta \<Rightarrow>
          if k = ''Escape'' \<or> (ctrl \<and> k = ''['') then
            (let ta1 = setSelectionRange (selectionStart ta) (selectionStart ta) NoDirection ta
             in (True, setMode Normal (s\<lparr>textarea := Some ta1, visualStart := None\<rparr>)))
          else
            (case pendingKey s of
               None \<Rightarrow> visualKey k ta s
             | Some pk \<Rightarrow>
                 if truthy (pendingKey s) then
                   (let compound = pk @ k;
                        s1 = clearPendingKey s
                    in if compound = ''gg''
                       then (True, setSelectionWithDirection (anchorOr s1 ta) 0 s1)
                       else visualKey k ta s1)
                 else visualKey k ta s))"

definition handleKeyDown :: "KeyboardEvent \<Rightarrow> manager \<Rightarrow> bool \<times> manager" where
  "handleKeyDown ev s =
     (if \<not> enabled s then (False, s)
      else case mode s of
        Normal \<Rightarrow> handleNormalMode (key ev) (ctrlKey ev) (shiftKey ev) s
      | Insert \<Rightarrow> handleInsertMode (key ev) (ctrlKey ev) (shiftKey ev) s
      | Visual \<Rightarrow> handleVisualMode (key ev) (ctrlKey ev) (shiftKey ev) s
      | VisualLine \<Rightarrow> handleVisualMode (key ev) (ctrlKey ev) (shiftKey ev) s)"

definition setEnabled :: "bool \<Rightarrow> manager \<Rightarrow> manager" where
  "setEnabled b s =
     (let s1 = s\<lparr>enabled := b\<rparr> in
      if b then saveState (setMode Normal s1) else setMode Insert s1)"

subsection \<open>The host's key-down listener and the events of a session\<close>

text \<open>
  \<^verbatim>\<open>PromptLineRenderer.handleKeyDown\<close>: without a textarea nothing happens; the key
  goes to the engine when it is enabled, and \<^verbatim>\<open>preventDefault()\<close> is called when the
  engine reports it handled. Otherwise the default action of the key takes place: a
  printable key (a one-character key without Ctrl or Meta) is typed into the textarea.
  The default actions of the other keys are covered by \<open>HostEdit\<close> below.
\<close>

definition keyDown :: "KeyboardEvent \<Rightarrow> manager \<Rightarrow> manager" where
  "keyDown ev s =
     (case textarea s of
        None \<Rightarrow> s
      | Some ta0 \<Rightarrow>
          (let (handled, s1) = (if enabled s then handleKeyDown ev s else (False, s)) in
           if handled then s1
           else if length (key ev) = 1 \<and> \<not> ctrlKey ev \<and> \<not> metaKey ev then
             (case textarea s1 of
                None \<Rightarrow> s1
              | Some ta \<Rightarrow> s1\<lparr>textarea := Some (nativeInsert (key ev) ta)\<rparr>)
           else s1))"

text \<open>
  Any other modification of the widget by its host (a draft being loaded, a history
  entry being chosen, a mouse click, Backspace in Insert mode): new text and a new
  selection, which the widget clamps as it does for \<^verbatim>\<open>setSelectionRange\<close>. It is
  not a call of the engine and is not logged.
\<close>

definition hostEdit :: "string \<Rightarrow> int \<Rightarrow> int \<Rightarrow> manager \<Rightarrow> manager" where
  "hostEdit v a b s =
     (case textarea s of
        None \<Rightarrow> s
      | Some ta \<Rightarrow>
          (let n = int (length v);
               lo = clampPos n a;
               hi = clampPos n b
           in s\<lparr>textarea := Some (ta\<lparr>tvalue := v,
                                       selectionStart := (if hi \<le> lo then hi else lo),
                                       selectionEnd := hi,
                                       selectionDirection := NoDirection\<rparr>)\<rparr>))"

datatype event =
    KeyDown KeyboardEvent
  | ClipboardRead "string option"
  | TimerFired nat
  | SetEnabled bool
  | HostEdit string int int

fun step :: "event \<Rightarrow> manager \<Rightarrow> manager" where
  "step (KeyDown ev) s = keyDown ev s"
| "step (ClipboardRead clip) s = clipboardResolved clip s"
| "step (TimerFired h) s = timerFired h s"
| "step (SetEnabled b) s = setEnabled b s"
| "step (HostEdit v a b) s = hostEdit v a b s"

fun run :: "event list \<Rightarrow> manager \<Rightarrow> manager" where
  "run [] s = s"
| "run (e # es) s = run es (step e s)"

text \<open>A key without modifiers.\<close>

definition plain :: "string \<Rightarrow> KeyboardEvent" where
  "plain k = \<lparr>key = k, ctrlKey = False, shiftKey = False, metaKey = False\<rparr>"

definition shifted :: "string \<Rightarrow> KeyboardEvent" where
  "shifted k = \<lparr>key = k, ctrlKey = False, shiftKey = True, metaKey = False\<rparr>"

text \<open>A textarea holding \<open>v\<close> with the selection \<open>[a, b)\<close>, no call logged yet.\<close>

definition mkTextarea :: "string \<Rightarrow> int \<Rightarrow> int \<Rightarrow> textarea" where
  "mkTextarea v a b =
     \<lparr>tvalue = v, selectionStart = a, selectionEnd = b, selectionDirection = NoDirection, calls = []\<rparr>"

subsection \<open>Vocabulary of the properties\<close>

text \<open>The widget's own guarantee on its selection.\<close>

definition ta_ok :: "textarea \<Rightarrow> bool" where
  "ta_ok ta = (0 \<le> selectionStart ta \<and> selectionStart ta \<le> selectionEnd ta
               \<and> selectionEnd ta \<le> int (length (tvalue ta)))"

definition selection :: "manager \<Rightarrow> (int \<times> int) option" where
  "selection s = (case textarea s of None \<Rightarrow> None | Some ta \<Rightarrow> Some (selectionStart ta, selectionEnd ta))"

definition buffer :: "manager \<Rightarrow> string option" where
  "buffer s = (case textarea s of None \<Rightarrow> None | Some ta \<Rightarrow> Some (tvalue ta))"

definition selectedDirection :: "manager \<Rightarrow> direction option" where
  "selectedDirection s = (case textarea s of None \<Rightarrow> None | Some ta \<Rightarrow> Some (selectionDirection ta))"

text \<open>A fresh engine on a textarea holding \<open>v\<close> with the caret at \<open>p\<close>, then enabled.\<close>

definition started :: "string \<Rightarrow> int \<Rightarrow> manager" where
  "started v p = setEnabled True (initial (Some (mkTextarea v p p)))"

text \<open>States used as examples: Visual mode on \<open>abc\<close> with the forward selection \<open>[0, 2)\<close>
  anchored at 0; Normal mode with \<open>g\<close> pending and its timer armed; an empty buffer
  after an undo, so that the redo stack is not empty.\<close>

definition visualExample :: manager where
  "visualExample = run [KeyDown (plain ''v''), KeyDown (plain ''l'')] (started ''abc'' 0)"

definition pendingExample :: manager where
  "pendingExample = keyDown (plain ''g'') (started ''abc'' 0)"

definition emptyExample :: manager where
  "emptyExample = keyDown (plain ''u'') (started [] 0)"

text \<open>The same empty buffer, its redo stack not empty, with \<open>g\<close> pending.\<close>

definition pendingEmptyExample :: manager where
  "pendingEmptyExample = keyDown (plain ''g'') emptyExample"

text \<open>
  Insert mode after \<open>abc\<close> was typed into an empty buffer, the caret at the end; and
  Insert mode after \<open>X\<close> was typed into \<open>abc\<close> at offset 1, the caret before the end.
\<close>

definition typedExample :: manager where
  "typedExample = run (map KeyDown [plain ''i'', plain ''a'', plain ''b'', plain ''c'']) (started [] 0)"

definition insertedExample :: manager where
  "insertedExample = run (map KeyDown [plain ''i'', plain ''X'']) (started ''abc'' 1)"

text \<open>\<^verbatim>\<open>undoStack.push(state)\<close> followed by the \<^verbatim>\<open>shift()\<close> of \<^verbatim>\<open>saveState\<close>.\<close>

definition pushLimited :: "snapshot \<Rightarrow> snapshot list \<Rightarrow> snapshot list" where
  "pushLimited x st = (if length (st @ [x]) > maxUndoStack then tl (st @ [x]) else st @ [x])"

text \<open>The two lines \<open>a\<close> and \<open>bcd\<close>.\<close>

definition twoLines :: string where
  "twoLines = ''a'' @ [newline] @ ''bcd''"

text \<open>
  Normal mode with the caret at the end of a non-empty buffer: the last of the two lines
  was deleted with \<open>dd\<close>, which leaves the zero-width caret behind the newline of \<open>a\<close>.
\<close>

definition endOfBufferExample :: manager where
  "endOfBufferExample = run [KeyDown (plain ''d''), KeyDown (plain ''d'')] (started twoLines 3)"

text \<open>The three lines \<open>a\<close>, \<open>b\<close> and \<open>c\<close>.\<close>

definition threeLines :: string where
  "threeLines = ''a'' @ [newline] @ ''b'' @ [newline] @ ''c''"

text \<open>\<open>dd\<close>, then \<open>p\<close>, then the clipboard read of that \<open>p\<close> resolving with \<open>clip\<close>.\<close>

definition dd_p :: "string option \<Rightarrow> event list" where
  "dd_p clip = [KeyDown (plain ''d''), KeyDown (plain ''d''), KeyDown (plain ''p''), ClipboardRead clip]"

text \<open>
  A logged call of \<^verbatim>\<open>setSelectionRange(a, b)\<close> on a text of length \<open>n\<close> is in bounds
  when \<open>0 \<le> a \<le> b \<le> n\<close>.
\<close>

definition inBounds :: "int \<times> int \<times> int \<Rightarrow> bool" where
  "inBounds c = (case c of (a, b, n) \<Rightarrow> 0 \<le> a \<and> a \<le> b \<and> b \<le> n)"

definition selectionCalls :: "manager \<Rightarrow> (int \<times> int \<times> int) list" where
  "selectionCalls s = (case textarea s of None \<Rightarrow> [] | Some ta \<Rightarrow> calls ta)"

text \<open>The selection of the widget is within the text.\<close>

definition selection_ok :: "manager \<Rightarrow> bool" where
  "selection_ok s = (case textarea s of None \<Rightarrow> True | Some ta \<Rightarrow> ta_ok ta)"

text \<open>
  What the engine relies on between two events: the selection is within the text, every
  logged call was in bounds, the cursor of every snapshot lies within its text, and in
  the Visual modes the anchor lies within the text.
\<close>

definition ta_inv :: "textarea \<Rightarrow> bool" where
  "ta_inv ta = (ta_ok ta \<and> list_all inBounds (calls ta))"

definition snap_ok :: "snapshot \<Rightarrow> bool" where
  "snap_ok x = (0 \<le> snap_cursor x \<and> snap_cursor x \<le> int (length (snap_text x)))"

definition wellformed :: "manager \<Rightarrow> bool" where
  "wellformed s = ((case textarea s of None \<Rightarrow> True | Some ta \<Rightarrow> ta_inv ta)
             \<and> list_all snap_ok (undoStack s) \<and> list_all snap_ok (redoStack s))"

definition inVisual :: "manager \<Rightarrow> bool" where
  "inVisual s = (mode s = Visual \<or> mode s = VisualLine)"

definition anchor_bounded :: "manager \<Rightarrow> bool" where
  "anchor_bounded s =
     (case visualStart s of
        None \<Rightarrow> True
      | Some a \<Rightarrow> (case textarea s of
                     None \<Rightarrow> True
                   | Some ta \<Rightarrow> 0 \<le> a \<and> a \<le> int (length (tvalue ta))))"

definition engine_inv :: "manager \<Rightarrow> bool" where
  "engine_inv s = (wellformed s \<and> (inVisual s \<longrightarrow> anchor_bounded s))"

text \<open>
  A sequence of events during which the text of the buffer is not changed while the
  engine stays in Visual or Visual-Line mode.
\<close>

fun guarded :: "event list \<Rightarrow> manager \<Rightarrow> bool" where
  "guarded [] s = True"
| "guarded (e # es) s =
     ((inVisual s \<and> inVisual (step e s) \<longrightarrow> buffer (step e s) = buffer s)
      \<and> guarded es (step e s))"

text \<open>The two stacks together hold at most \<open>maxUndoStack\<close> snapshots.\<close>

definition stack_inv :: "manager \<Rightarrow> bool" where
  "stack_inv s = (length (undoStack s) + length (redoStack s) \<le> maxUndoStack)"

text \<open>The block cursor: one selected character, or the caret of an empty buffer.\<close>

definition blockShaped :: "manager \<Rightarrow> bool" where
  "blockShaped s =
     (case textarea s of
        None \<Rightarrow> True
      | Some ta \<Rightarrow>
          if tvalue ta = [] then selectionStart ta = 0 \<and> selectionEnd ta = 0
          else 0 \<le> selectionStart ta \<and> selectionEnd ta = selectionStart ta + 1
               \<and> selectionEnd ta \<le> int (length (tvalue ta)))"

text \<open>
  Event sequences used as examples, all starting by enabling the engine: a Visual
  selection extended to the left and then typed over with \<open>x\<close>, followed by \<open>h\<close>; the
  same selection left with Escape, followed by \<open>x\<close>; and a hundred times \<open>x\<close>.
\<close>

definition visualEditTrace :: "event list" where
  "visualEditTrace =
     SetEnabled True #
     map KeyDown [plain ''v'', plain ''h'', plain ''h'', plain ''h'', plain ''h'', plain ''x'', plain ''h'']"

definition visualTrace :: "event list" where
  "visualTrace =
     SetEnabled True #
     map KeyDown [plain ''v'', plain ''h'', plain ''h'', plain ''h'', plain ''h'', plain ''Escape'', plain ''x'']"

text \<open>
  A Visual \<open>p\<close> whose clipboard read resolves late: in the meantime Visual mode was
  entered again and the selection extended to the left over five characters, which the
  paste then replaces by one.
\<close>

definition latePasteTrace :: "event list" where
  "latePasteTrace =
     SetEnabled True #
     map KeyDown [plain ''v'', plain ''p'', plain ''v'', plain ''h'', plain ''h'', plain ''h'',
       plain ''h'', plain ''h'', plain ''h'']
     @ [ClipboardRead (Some ''X''), KeyDown (plain ''l'')]"

definition fullTrace :: "event list" where
  "fullTrace = SetEnabled True # replicate 100 (KeyDown (plain ''x''))"


section \<open>Properties\<close>

subsection \<open>Strings, line boundaries and the widget\<close>

lemma slice_in_range:
  "0 \<le> a \<Longrightarrow> a \<le> b \<Longrightarrow> b \<le> int (length s) \<Longrightarrow> slice s a b = take (nat (b - a)) (drop (nat a) s)"
  by (simp add: slice_def Let_def min_def)

lemma slice_prefix: "0 \<le> a \<Longrightarrow> slice s 0 a = take (nat a) s"
  by (simp add: slice_def Let_def min_def)

lemma sliceFrom_drop: "0 \<le> a \<Longrightarrow> sliceFrom s a = drop (nat a) s"
  by (simp add: sliceFrom_def slice_def Let_def min_def)



lemma lineStartFrom_step:
  "p > 0 \<Longrightarrow> charAt t (p - 1) \<noteq> Some newline \<Longrightarrow> lineStartFrom t p = lineStartFrom t (p - 1)"
  by (subst lineStartFrom.simps) simp

lemma lineStartFrom_stop:
  "p \<le> 0 \<or> charAt t (p - 1) = Some newline \<Longrightarrow> lineStartFrom t p = p"
  by (subst lineStartFrom.simps) auto

lemma lineEndFrom_step:
  "p < int (length t) \<Longrightarrow> charAt t p \<noteq> Some newline \<Longrightarrow> lineEndFrom t p = lineEndFrom t (p + 1)"
  by (subst lineEndFrom.simps) simp

lemma lineEndFrom_stop:
  "int (length t) \<le> p \<or> charAt t p = Some newline \<Longrightarrow> lineEndFrom t p = p"
  by (subst lineEndFrom.simps) auto

lemma lineStartFrom_le: "lineStartFrom t p \<le> p"
proof (induction t p rule: lineStartFrom.induct)
  case (1 t p)
  show ?case
  proof (cases "p > 0 \<and> charAt t (p - 1) \<noteq> Some newline")
    case True
    with 1 show ?thesis by (simp add: lineStartFrom_step)
  next
    case False
    then have "lineStartFrom t p = p" by (intro lineStartFrom_stop) auto
    then show ?thesis by simp
  qed
qed

lemma lineStartFrom_ge0: "0 \<le> p \<Longrightarrow> 0 \<le> lineStartFrom t p"
proof (induction t p rule: lineStartFrom.induct)
  case (1 t p)
  show ?case
  proof (cases "p > 0 \<and> charAt t (p - 1) \<noteq> Some newline")
    case True
    with 1 show ?thesis by (simp add: lineStartFrom_step)
  next
    case False
    then have "lineStartFrom t p = p" by (intro lineStartFrom_stop) auto
    with 1 show ?thesis by simp
  qed
qed

lemma lineEndFrom_ge: "p \<le> lineEndFrom t p"
proof (induction t p rule: lineEndFrom.induct)
  case (1 t p)
  show ?case
  proof (cases "p < int (length t) \<and> charAt t p \<noteq> Some newline")
    case True
    with 1 show ?thesis by (simp add: lineEndFrom_step)
  next
    case False
    then have "lineEndFrom t p = p" by (intro lineEndFrom_stop) auto
    then show ?thesis by simp
  qed
qed

lemma lineEndFrom_le: "p \<le> int (length t) \<Longrightarrow> lineEndFrom t p \<le> int (length t)"
proof (induction t p rule: lineEndFrom.induct)
  case (1 t p)
  show ?case
  proof (cases "p < int (length t) \<and> charAt t p \<noteq> Some newline")
    case True
    with 1 show ?thesis by (simp add: lineEndFrom_step)
  next
    case False
    then have "lineEndFrom t p = p" by (intro lineEndFrom_stop) auto
    with 1 show ?thesis by simp
  qed
qed

lemma lineStartFrom_stops:
  "lineStartFrom t p \<le> 0 \<or> charAt t (lineStartFrom t p - 1) = Some newline"
proof (induction t p rule: lineStartFrom.induct)
  case (1 t p)
  show ?case
  proof (cases "p > 0 \<and> charAt t (p - 1) \<noteq> Some newline")
    case True
    with 1 show ?thesis by (simp add: lineStartFrom_step)
  next
    case False
    then have "lineStartFrom t p = p" by (intro lineStartFrom_stop) auto
    with False show ?thesis by auto
  qed
qed

lemma lineStartFrom_idem: "lineStartFrom t (lineStartFrom t p) = lineStartFrom t p"
  by (rule lineStartFrom_stop) (rule lineStartFrom_stops)



lemma setSelectionRange_in:
  "0 \<le> a \<Longrightarrow> a \<le> b \<Longrightarrow> b \<le> int (length (tvalue ta)) \<Longrightarrow>
   setSelectionRange a b d ta =
     ta\<lparr>selectionStart := a, selectionEnd := b, selectionDirection := d,
        calls := calls ta @ [(a, b, int (length (tvalue ta)))]\<rparr>"
  by (simp add: setSelectionRange_def clampPos_def Let_def)

lemma tvalue_setSelectionRange [simp]: "tvalue (setSelectionRange a b d ta) = tvalue ta"
  by (simp add: setSelectionRange_def Let_def)

lemma ta_ok_setSelectionRange [simp]: "ta_ok (setSelectionRange a b d ta)"
  by (simp add: setSelectionRange_def ta_ok_def clampPos_def Let_def)

lemma ta_ok_setValue: "ta_ok ta \<Longrightarrow> ta_ok (setValue v ta)"
  by (simp add: setValue_def ta_ok_def)

lemma updateCursorAppearance_Normal:
  assumes "textarea s = Some ta" and "ta_ok ta"
  shows "updateCursorAppearance Normal s =
           (let pos = selectionStart ta; n = int (length (tvalue ta)) in
            if pos < n then s\<lparr>textarea := Some (ta\<lparr>selectionStart := pos, selectionEnd := pos + 1,
                       selectionDirection := NoDirection, calls := calls ta @ [(pos, pos + 1, n)]\<rparr>)\<rparr>
            else if n > 0 then s\<lparr>textarea := Some (ta\<lparr>selectionStart := pos - 1, selectionEnd := pos,
                       selectionDirection := NoDirection, calls := calls ta @ [(pos - 1, pos, n)]\<rparr>)\<rparr>
            else s)"
proof -
  let ?pos = "selectionStart ta" and ?n = "int (length (tvalue ta))"
  consider (a) "?pos < ?n" | (b) "\<not> ?pos < ?n" "?n > 0" | (c) "\<not> ?pos < ?n" "\<not> ?n > 0"
    by blast
  then show ?thesis
  proof cases
    case a
    then have "setSelectionRange ?pos (?pos + 1) NoDirection ta =
        ta\<lparr>selectionStart := ?pos, selectionEnd := ?pos + 1, selectionDirection := NoDirection,
           calls := calls ta @ [(?pos, ?pos + 1, ?n)]\<rparr>"
      using assms(2) by (intro setSelectionRange_in) (auto simp: ta_ok_def)
    with a assms(1) show ?thesis
      by (simp add: updateCursorAppearance_def Let_def)
  next
    case b
    have "setSelectionRange (?pos - 1) ?pos NoDirection ta =
        ta\<lparr>selectionStart := ?pos - 1, selectionEnd := ?pos, selectionDirection := NoDirection,
           calls := calls ta @ [(?pos - 1, ?pos, ?n)]\<rparr>"
    proof (rule setSelectionRange_in)
      show "0 \<le> ?pos - 1" using b assms(2) unfolding ta_ok_def by linarith
      show "?pos - 1 \<le> ?pos" by simp
      show "?pos \<le> ?n" using assms(2) unfolding ta_ok_def by linarith
    qed
    with b assms(1) show ?thesis
      by (simp add: updateCursorAppearance_def Let_def)
  next
    case c
    with assms(1) show ?thesis
      by (simp add: updateCursorAppearance_def Let_def)
  qed
qed

lemma setMode_Normal_selection:
  assumes "textarea s = Some ta" and "ta_ok ta"
  shows "mode (setMode Normal s) = Normal
       \<and> buffer (setMode Normal s) = Some (tvalue ta)
       \<and> selection (setMode Normal s) =
           Some (let pos = selectionStart ta; n = int (length (tvalue ta)) in
                 if pos < n then (pos, pos + 1)
                 else if n > 0 then (pos - 1, pos)
                 else (0, 0))"
proof -
  let ?s = "s\<lparr>mode := Normal\<rparr>"
  have t: "textarea ?s = Some ta" using assms by simp
  show ?thesis
    unfolding setMode_def updateCursorAppearance_Normal [OF t assms(2)]
    using assms by (auto simp: Let_def buffer_def selection_def ta_ok_def)
qed

subsection \<open>C9: \<open>v\<close> in Normal mode\<close>

lemma setMode_Visual [simp]: "setMode Visual s = s\<lparr>mode := Visual\<rparr>"
  by (simp add: setMode_def updateCursorAppearance_def split: option.split)

lemma setMode_VisualLine [simp]: "setMode VisualLine s = s\<lparr>mode := VisualLine\<rparr>"
  by (simp add: setMode_def updateCursorAppearance_def split: option.split)

lemma handleNormalMode_no_pending:
  "\<not> truthy (pendingKey s) \<Longrightarrow> textarea s = Some ta \<Longrightarrow>
   handleNormalMode k c sh s = normalKey k c sh ta s"
  by (cases "pendingKey s") (simp_all add: handleNormalMode_def)

text \<open>
  Claim C9, as amended. With the engine enabled and no key pending, \<open>v\<close> in Normal
  mode is handled, enters Visual mode, leaves the text alone, sets the anchor to the
  caret and selects the character at the caret with the direction forward, or, when the
  caret is at the end of a non-empty buffer, the character before it with the direction
  backward. On a non-empty buffer the selection is never zero-width; on an empty buffer
  it is the zero-width caret \<open>[0, 0)\<close>, without a direction.
\<close>

theorem v_enters_Visual:
  assumes "enabled s" and "mode s = Normal" and "\<not> truthy (pendingKey s)"
    and "textarea s = Some ta" and "ta_ok ta" and "key ev = ''v''"
  shows "fst (handleKeyDown ev s)
       \<and> mode (snd (handleKeyDown ev s)) = Visual
       \<and> visualStart (snd (handleKeyDown ev s)) = Some (selectionStart ta)
       \<and> buffer (snd (handleKeyDown ev s)) = Some (tvalue ta)
       \<and> selection (snd (handleKeyDown ev s)) =
           Some (if selectionStart ta < int (length (tvalue ta))
                 then (selectionStart ta, selectionStart ta + 1)
                 else if selectionStart ta > 0
                 then (selectionStart ta - 1, selectionStart ta)
                 else (0, 0))
       \<and> selectedDirection (snd (handleKeyDown ev s)) =
           Some (if selectionStart ta < int (length (tvalue ta)) then Forward
                 else if selectionStart ta > 0 then Backward
                 else NoDirection)
       \<and> (tvalue ta = [] \<or>
            (\<exists>a b. selection (snd (handleKeyDown ev s)) = Some (a, b) \<and> a < b))"
proof -
  let ?pos = "selectionStart ta" and ?n = "int (length (tvalue ta))"
  have hk: "handleKeyDown ev s = normalKey ''v'' (ctrlKey ev) (shiftKey ev) ta s"
    using assms by (simp add: handleKeyDown_def handleNormalMode_no_pending)
  have bnd: "0 \<le> ?pos" "?pos \<le> ?n" using assms(5) unfolding ta_ok_def by linarith+
  consider (a) "?pos < ?n" | (b) "\<not> ?pos < ?n" "?pos > 0" | (c) "\<not> ?pos < ?n" "\<not> ?pos > 0"
    by blast
  then show ?thesis
  proof cases
    case a
    have "setSelectionRange ?pos (?pos + 1) Forward ta =
        ta\<lparr>selectionStart := ?pos, selectionEnd := ?pos + 1, selectionDirection := Forward,
           calls := calls ta @ [(?pos, ?pos + 1, ?n)]\<rparr>"
      using a bnd by (intro setSelectionRange_in) linarith+
    with a show ?thesis
      unfolding hk
      by (auto simp: normalKey_def Let_def buffer_def selection_def selectedDirection_def)
  next
    case b
    have "setSelectionRange (?pos - 1) ?pos Backward ta =
        ta\<lparr>selectionStart := ?pos - 1, selectionEnd := ?pos, selectionDirection := Backward,
           calls := calls ta @ [(?pos - 1, ?pos, ?n)]\<rparr>"
      using b bnd by (intro setSelectionRange_in) linarith+
    with b show ?thesis
      unfolding hk
      by (auto simp: normalKey_def Let_def buffer_def selection_def selectedDirection_def)
  next
    case c
    with bnd have "?pos = 0" "?n = 0" by linarith+
    then have z: "?pos = 0" "tvalue ta = []" by simp_all
    then have "setSelectionRange ?pos ?pos NoDirection ta =
        ta\<lparr>selectionStart := 0, selectionEnd := 0, selectionDirection := NoDirection,
           calls := calls ta @ [(0, 0, 0)]\<rparr>"
      by (simp add: setSelectionRange_def clampPos_def Let_def)
    with c z show ?thesis
      unfolding hk
      by (auto simp: normalKey_def Let_def buffer_def selection_def selectedDirection_def)
  qed
qed

theorem v_enters_Visual_witness:
  "selection (snd (handleKeyDown (plain ''v'') (started ''abc'' 1))) = Some (1, 2)
   \<and> selectedDirection (snd (handleKeyDown (plain ''v'') (started ''abc'' 1))) = Some Forward
   \<and> visualStart (snd (handleKeyDown (plain ''v'') (started ''abc'' 1))) = Some 1
   \<and> buffer endOfBufferExample = Some (''a'' @ [newline])
   \<and> selection endOfBufferExample = Some (2, 2)
   \<and> selection (snd (handleKeyDown (plain ''v'') endOfBufferExample)) = Some (1, 2)
   \<and> selectedDirection (snd (handleKeyDown (plain ''v'') endOfBufferExample)) = Some Backward
   \<and> visualStart (snd (handleKeyDown (plain ''v'') endOfBufferExample)) = Some 2"
proof -
  let ?s = "started ''abc'' 1"
  let ?ta = "\<lparr>tvalue = ''abc'', selectionStart = 1, selectionEnd = 2,
              selectionDirection = NoDirection, calls = [(1, 2, 3)]\<rparr>"
  let ?tb = "\<lparr>tvalue = ''a'' @ [newline], selectionStart = 2, selectionEnd = 2,
              selectionDirection = NoDirection, calls = [(3, 4, 5), (2, 2, 2)]\<rparr>"
  have 1: "enabled ?s" by code_simp
  have 2: "mode ?s = Normal" by code_simp
  have 3: "\<not> truthy (pendingKey ?s)" by code_simp
  have 4: "textarea ?s = Some ?ta" by code_simp
  have 5: "ta_ok ?ta" by code_simp
  have 6: "key (plain ''v'') = ''v''" by code_simp
  have b1: "enabled endOfBufferExample" by code_simp
  have b2: "mode endOfBufferExample = Normal" by code_simp
  have b3: "\<not> truthy (pendingKey endOfBufferExample)" by code_simp
  have b4: "textarea endOfBufferExample = Some ?tb" by code_simp
  have b5: "ta_ok ?tb" by code_simp
  have b6: "buffer endOfBufferExample = Some (''a'' @ [newline])" by code_simp
  have b7: "selection endOfBufferExample = Some (2, 2)" by code_simp
  show ?thesis
    using v_enters_Visual [OF 1 2 3 4 5 6] v_enters_Visual [OF b1 b2 b3 b4 b5 6] b6 b7
    by simp
qed

text \<open>
  The claim as stated (never zero-width, for every buffer) fails on the empty buffer.
\<close>

theorem v_on_empty_buffer_zero_width:
  "mode (snd (handleKeyDown (plain ''v'') (started [] 0))) = Visual
   \<and> selection (snd (handleKeyDown (plain ''v'') (started [] 0))) = Some (0, 0)"
  by code_simp


subsection \<open>C6: Escape in the Visual modes\<close>

text \<open>
  Claim C6, as amended. In Visual and Visual-Line mode, Escape and Ctrl+[ are handled,
  switch to Normal mode and clear the anchor. The selection is collapsed to its start
  (the lower bound, whatever its orientation; that is the active end of a backward
  selection only), and the block cursor of Normal mode is then applied there: the result
  is \<open>[s, s + 1)\<close> when the start \<open>s\<close> is before the end of the buffer, \<open>[s - 1, s)\<close>
  when it is the end of a non-empty buffer, and the zero-width caret on an empty buffer.
\<close>

theorem Escape_in_Visual:
  assumes "enabled s" and "mode s = Visual \<or> mode s = VisualLine"
    and "textarea s = Some ta" and "ta_ok ta"
    and "key ev = ''Escape'' \<or> (ctrlKey ev \<and> key ev = ''['')"
  shows "fst (handleKeyDown ev s)
       \<and> mode (snd (handleKeyDown ev s)) = Normal
       \<and> visualStart (snd (handleKeyDown ev s)) = None
       \<and> buffer (snd (handleKeyDown ev s)) = Some (tvalue ta)
       \<and> selection (snd (handleKeyDown ev s)) =
           Some (if selectionStart ta < int (length (tvalue ta))
                 then (selectionStart ta, selectionStart ta + 1)
                 else if 0 < int (length (tvalue ta))
                 then (selectionStart ta - 1, selectionStart ta)
                 else (0, 0))"
proof -
  let ?pos = "selectionStart ta" and ?n = "int (length (tvalue ta))"
  let ?ta1 = "ta\<lparr>selectionStart := ?pos, selectionEnd := ?pos, selectionDirection := NoDirection,
                  calls := calls ta @ [(?pos, ?pos, ?n)]\<rparr>"
  let ?s1 = "s\<lparr>textarea := Some ?ta1, visualStart := None\<rparr>"
  have bnd: "0 \<le> ?pos" "?pos \<le> ?n" using assms(4) unfolding ta_ok_def by linarith+
  have c: "setSelectionRange ?pos ?pos NoDirection ta = ?ta1"
    using bnd by (intro setSelectionRange_in) linarith+
  have hv: "handleVisualMode (key ev) (ctrlKey ev) (shiftKey ev) s = (True, setMode Normal ?s1)"
    using assms(3,5) c by (simp add: handleVisualMode_def Let_def)
  have hk: "handleKeyDown ev s = (True, setMode Normal ?s1)"
    using assms(1,2) hv by (auto simp: handleKeyDown_def)
  have t1: "textarea ?s1 = Some ?ta1" by simp
  have ok1: "ta_ok ?ta1" using bnd by (simp add: ta_ok_def)
  have v: "visualStart (setMode Normal ?s1) = None"
    by (simp add: setMode_def updateCursorAppearance_def Let_def)
  show ?thesis
    unfolding hk using setMode_Normal_selection [OF t1 ok1] v by (simp add: Let_def)
qed

theorem Escape_in_Visual_witness:
  "selection visualExample = Some (0, 2)
   \<and> mode (snd (handleKeyDown (plain ''Escape'') visualExample)) = Normal
   \<and> selection (snd (handleKeyDown (plain ''Escape'') visualExample)) = Some (0, 1)"
proof -
  let ?ta = "\<lparr>tvalue = ''abc'', selectionStart = 0, selectionEnd = 2,
              selectionDirection = Forward, calls = [(0, 1, 3), (0, 1, 3), (0, 2, 3)]\<rparr>"
  have 1: "enabled visualExample" by code_simp
  have 2: "mode visualExample = Visual \<or> mode visualExample = VisualLine" by code_simp
  have 3: "textarea visualExample = Some ?ta" by code_simp
  have 4: "ta_ok ?ta" by code_simp
  have 5: "key (plain ''Escape'') = ''Escape'' \<or> (ctrlKey (plain ''Escape'') \<and> key (plain ''Escape'') = ''['')"
    by code_simp
  have 6: "selection visualExample = Some (0, 2)" by code_simp
  show ?thesis using Escape_in_Visual [OF 1 2 3 4 5] 6 by simp
qed

text \<open>
  The claim as stated fails on a forward selection: with the anchor at 0 and the active
  end at 2, Escape leaves the selection \<open>[0, 1)\<close>, which is neither zero-width nor at
  the active end.
\<close>

theorem Escape_in_Visual_forward_selection:
  "mode visualExample = Visual
   \<and> visualStart visualExample = Some 0
   \<and> selection visualExample = Some (0, 2)
   \<and> getVisualAnchorAndActive visualExample = (0, 2)
   \<and> selection (snd (handleKeyDown (plain ''Escape'') visualExample)) = Some (0, 1)"
  by code_simp

subsection \<open>C7: disabling the engine and the pending key\<close>

text \<open>
  Claim C7, as amended. \<^verbatim>\<open>setEnabled(false)\<close> clears the enabled flag and switches to
  Insert mode; it leaves the pending key, the handle of its timer and the armed timers
  as they are. The timer is cancelled by \<^verbatim>\<open>cleanup()\<close>, which resets the handle and
  keeps the pending key.
\<close>

theorem setEnabled_False_keeps_pending_key:
  "enabled (setEnabled False s) = False
   \<and> mode (setEnabled False s) = Insert
   \<and> pendingKey (setEnabled False s) = pendingKey s
   \<and> pendingKeyTimeout (setEnabled False s) = pendingKeyTimeout s
   \<and> timers (setEnabled False s) = timers s
   \<and> pendingKey (cleanup s) = pendingKey s
   \<and> pendingKeyTimeout (cleanup s) = None
   \<and> timers (cleanup s) = (case pendingKeyTimeout s of None \<Rightarrow> timers s | Some h \<Rightarrow> removeAll h (timers s))"
  by (simp add: setEnabled_def setMode_def updateCursorAppearance_def cleanup_def clearTimeout_def
        Let_def split: option.split)

theorem setEnabled_False_keeps_pending_key_witness:
  "pendingKey (setEnabled False pendingExample) = Some ''g''
   \<and> timers (setEnabled False pendingExample) = [1]
   \<and> timers (cleanup (setEnabled False pendingExample)) = []"
proof -
  have 1: "pendingKey pendingExample = Some ''g''" by code_simp
  have 2: "timers pendingExample = [1]" by code_simp
  have 3: "timers (cleanup (setEnabled False pendingExample)) = []" by code_simp
  show ?thesis using setEnabled_False_keeps_pending_key [of pendingExample] 1 2 3 by simp
qed

text \<open>
  The claim as stated fails: after \<open>g\<close> in Normal mode, \<^verbatim>\<open>setEnabled(false)\<close> leaves
  the key pending and its timer armed.
\<close>

theorem setEnabled_False_leaves_timer_armed:
  "pendingKey pendingExample = Some ''g''
   \<and> pendingKeyTimeout pendingExample = Some 1
   \<and> timers pendingExample = [1]
   \<and> pendingKey (setEnabled False pendingExample) = Some ''g''
   \<and> pendingKeyTimeout (setEnabled False pendingExample) = Some 1
   \<and> timers (setEnabled False pendingExample) = [1]"
  by code_simp

subsection \<open>C3: a second key that completes no compound\<close>

text \<open>
  With a key pending in Normal mode, a second key that completes none of \<open>gg\<close>,
  \<open>dd\<close>, \<open>yy\<close> clears the pending key, changes nothing else, and is reported as
  not handled.
\<close>

lemma clearPendingKey_frame:
  "pendingKey (clearPendingKey s) = None \<and> pendingKeyTimeout (clearPendingKey s) = None
   \<and> textarea (clearPendingKey s) = textarea s \<and> mode (clearPendingKey s) = mode s
   \<and> yankBuffer (clearPendingKey s) = yankBuffer s \<and> visualStart (clearPendingKey s) = visualStart s
   \<and> undoStack (clearPendingKey s) = undoStack s \<and> redoStack (clearPendingKey s) = redoStack s
   \<and> enabled (clearPendingKey s) = enabled s \<and> clipboardReads (clearPendingKey s) = clipboardReads s"
  by (simp add: clearPendingKey_def clearTimeout_def Let_def split: option.split)

lemma unmatched_compound_not_handled:
  assumes "enabled s" and "mode s = Normal" and "textarea s = Some ta"
    and "pendingKey s = Some pk" and "pk \<noteq> []"
    and "pk @ key ev \<noteq> ''gg''" and "pk @ key ev \<noteq> ''dd''" and "pk @ key ev \<noteq> ''yy''"
  shows "handleKeyDown ev s = (False, clearPendingKey s)
       \<and> pendingKey (clearPendingKey s) = None
       \<and> textarea (clearPendingKey s) = textarea s
       \<and> mode (clearPendingKey s) = mode s"
  using assms
  by (simp add: handleKeyDown_def handleNormalMode_def truthy_def Let_def clearPendingKey_frame)

lemma unmatched_compound_not_handled_witness:
  "handleKeyDown (plain ''z'') pendingExample = (False, clearPendingKey pendingExample)"
proof -
  have 1: "enabled pendingExample" by code_simp
  have 2: "mode pendingExample = Normal" by code_simp
  have 3: "textarea pendingExample = Some \<lparr>tvalue = ''abc'', selectionStart = 0, selectionEnd = 1,
              selectionDirection = NoDirection, calls = [(0, 1, 3)]\<rparr>" by code_simp
  have 4: "pendingKey pendingExample = Some ''g''" by code_simp
  have 5: "''g'' \<noteq> []" by simp
  have 6: "''g'' @ key (plain ''z'') \<noteq> ''gg''" "''g'' @ key (plain ''z'') \<noteq> ''dd''"
     "''g'' @ key (plain ''z'') \<noteq> ''yy''" by (simp_all add: plain_def)
  show ?thesis using unmatched_compound_not_handled [OF 1 2 3 4 5 6] by simp
qed

text \<open>
  Claim C3 says that such a key is reported as handled. It is not: \<open>z\<close> alone is
  consumed in Normal mode, but \<open>z\<close> after a pending \<open>g\<close> is returned as unhandled, so
  the host types it over the block cursor and the buffer \<open>abc\<close> becomes \<open>zbc\<close>.
\<close>

theorem unmatched_compound_leaks_key:
  "fst (handleKeyDown (plain ''z'') (started ''abc'' 0)) = True
   \<and> buffer (keyDown (plain ''z'') (started ''abc'' 0)) = Some ''abc''
   \<and> fst (handleKeyDown (plain ''z'') pendingExample) = False
   \<and> buffer (keyDown (plain ''z'') pendingExample) = Some ''zbc''"
  by code_simp

subsection \<open>C10: \<open>x\<close> with the cursor at the end of the buffer\<close>

lemma saveState_Some:
  "textarea s = Some ta \<Longrightarrow>
   saveState s = s\<lparr>undoStack := pushLimited \<lparr>snap_text = tvalue ta, snap_cursor = selectionStart ta\<rparr> (undoStack s),
                    redoStack := []\<rparr>"
  by (simp add: saveState_def pushLimited_def Let_def)

lemma pushLimited_nonempty: "pushLimited x st \<noteq> []"
  by (cases st) (auto simp: pushLimited_def maxUndoStack_def)

lemma pushLimited_last: "last (pushLimited x st) = x"
  by (cases st) (auto simp: pushLimited_def maxUndoStack_def last_tl)

lemma pushLimited_butlast:
  "butlast (pushLimited x st) = (if length st < maxUndoStack then st else tl st)"
  by (cases st) (auto simp: pushLimited_def maxUndoStack_def butlast_tl butlast_append)

text \<open>
  Claim C10, as amended. With the engine enabled, in Normal mode, no key pending and the
  cursor offset equal to the length of the buffer, \<open>x\<close> is handled and leaves the
  textarea as it is, yet it pushes a snapshot (dropping the oldest one of a full stack)
  and empties the redo stack. A following \<open>u\<close> is handled, leaves text and selection as
  they are, takes that snapshot off the undo stack again, and the redo stack then holds
  the snapshot of the unchanged state only: the redo history from before \<open>x\<close> is gone.
\<close>

theorem x_at_end_of_buffer:
  assumes "enabled s" and "mode s = Normal" and "\<not> truthy (pendingKey s)"
    and "textarea s = Some ta" and "ta_ok ta"
    and "selectionStart ta = int (length (tvalue ta))"
    and "key ev = ''x''" and "key ev' = ''u''"
    and "handleKeyDown ev s = (h, s')" and "handleKeyDown ev' s' = (h', s'')"
  shows "h \<and> textarea s' = Some ta
       \<and> undoStack s' =
           (let pushed = undoStack s @ [\<lparr>snap_text = tvalue ta, snap_cursor = selectionStart ta\<rparr>]
            in if length pushed > maxUndoStack then tl pushed else pushed)
       \<and> redoStack s' = []
       \<and> h' \<and> buffer s'' = Some (tvalue ta)
       \<and> selection s'' = Some (selectionStart ta, selectionEnd ta)
       \<and> undoStack s'' = (if length (undoStack s) < maxUndoStack then undoStack s else tl (undoStack s))
       \<and> redoStack s'' = [\<lparr>snap_text = tvalue ta, snap_cursor = selectionStart ta\<rparr>]"
proof -
  let ?x = "\<lparr>snap_text = tvalue ta, snap_cursor = selectionStart ta\<rparr>"
  let ?n = "int (length (tvalue ta))"
  have e: "selectionEnd ta = ?n" using assms(5,6) unfolding ta_ok_def by linarith
  have ss: "saveState s = s\<lparr>undoStack := pushLimited ?x (undoStack s), redoStack := []\<rparr>"
    using assms(4) by (rule saveState_Some)
  have d: "deleteCharAtCursor s = saveState s"
    using assms(4,6) by (simp add: deleteCharAtCursor_def ss Let_def)
  have 1: "handleKeyDown ev s = (True, saveState s)"
    using assms(1,2,3,4,7) d
    by (simp add: handleKeyDown_def handleNormalMode_no_pending normalKey_def)
  then have s': "s' = saveState s" and h: "h" using assms(9) by simp_all
  have c: "setSelectionRange ?n ?n NoDirection ta =
      ta\<lparr>selectionStart := ?n, selectionEnd := ?n, selectionDirection := NoDirection,
         calls := calls ta @ [(?n, ?n, ?n)]\<rparr>"
    by (intro setSelectionRange_in) simp_all
  have u: "undo s' = s'\<lparr>redoStack := [?x], undoStack := butlast (pushLimited ?x (undoStack s)),
        textarea := Some (setSelectionRange ?n ?n NoDirection ta)\<rparr>"
    using assms(4,6) pushLimited_nonempty [of ?x "undoStack s"]
    by (simp add: undo_def s' ss Let_def pushLimited_last setValue_def)
  have 2: "handleKeyDown ev' s' = (True, undo s')"
    using assms(1,2,3,4,8)
    by (simp add: handleKeyDown_def handleNormalMode_no_pending normalKey_def s' ss)
  then have s'': "s'' = undo s'" and h': "h'" using assms(10) by simp_all
  show ?thesis
    using h h' assms(4,6) e
    by (simp add: s'' u c pushLimited_butlast buffer_def selection_def)
       (simp add: s' ss pushLimited_def Let_def)
qed

theorem x_at_end_of_buffer_witness:
  "redoStack emptyExample = [\<lparr>snap_text = [], snap_cursor = 0\<rparr>]
   \<and> buffer (snd (handleKeyDown (plain ''x'') emptyExample)) = Some []
   \<and> undoStack (snd (handleKeyDown (plain ''x'') emptyExample)) = [\<lparr>snap_text = [], snap_cursor = 0\<rparr>]
   \<and> redoStack (snd (handleKeyDown (plain ''x'') emptyExample)) = []
   \<and> undoStack (snd (handleKeyDown (plain ''u'') (snd (handleKeyDown (plain ''x'') emptyExample)))) = []"
proof -
  let ?ta = "\<lparr>tvalue = [], selectionStart = 0, selectionEnd = 0,
              selectionDirection = NoDirection, calls = [(0, 0, 0)]\<rparr>"
  have 1: "enabled emptyExample" by code_simp
  have 2: "mode emptyExample = Normal" by code_simp
  have 3: "\<not> truthy (pendingKey emptyExample)" by code_simp
  have 4: "textarea emptyExample = Some ?ta" by code_simp
  have 5: "ta_ok ?ta" by code_simp
  have 6: "selectionStart ?ta = int (length (tvalue ?ta))" by code_simp
  have 7: "key (plain ''x'') = ''x''" "key (plain ''u'') = ''u''" by code_simp+
  have 8: "undoStack emptyExample = []" by code_simp
  have 9: "redoStack emptyExample = [\<lparr>snap_text = [], snap_cursor = 0\<rparr>]" by code_simp
  show ?thesis
    using x_at_end_of_buffer [OF 1 2 3 4 5 6 7 surjective_pairing surjective_pairing] 8 9
    by (simp add: maxUndoStack_def buffer_def)
qed

text \<open>
  The claim as stated (every \<open>x\<close> in Normal mode with the cursor at the end of the
  buffer) fails while a key is pending. On the empty buffer with \<open>g\<close> pending, \<open>x\<close>
  only clears the pending key and is reported as not handled: no snapshot is pushed,
  the redo stack keeps its entry, and the host types the \<open>x\<close> into the buffer.
\<close>

theorem x_with_key_pending_is_typed:
  "enabled pendingEmptyExample
   \<and> mode pendingEmptyExample = Normal
   \<and> pendingKey pendingEmptyExample = Some ''g''
   \<and> buffer pendingEmptyExample = Some []
   \<and> selection pendingEmptyExample = Some (0, 0)
   \<and> undoStack pendingEmptyExample = []
   \<and> redoStack pendingEmptyExample = [\<lparr>snap_text = [], snap_cursor = 0\<rparr>]
   \<and> fst (handleKeyDown (plain ''x'') pendingEmptyExample) = False
   \<and> undoStack (snd (handleKeyDown (plain ''x'') pendingEmptyExample)) = []
   \<and> redoStack (snd (handleKeyDown (plain ''x'') pendingEmptyExample))
         = [\<lparr>snap_text = [], snap_cursor = 0\<rparr>]
   \<and> buffer (keyDown (plain ''x'') pendingEmptyExample) = Some ''x''
   \<and> selection (keyDown (plain ''x'') pendingEmptyExample) = Some (1, 1)"
  by code_simp

subsection \<open>C5: \<open>j\<close> and \<open>k\<close> in Normal mode\<close>

lemma placeCaret_Normal:
  assumes "textarea s = Some ta" and "0 \<le> p" and "p \<le> int (length (tvalue ta))"
  shows "buffer (updateCursorAppearance Normal (s\<lparr>textarea := Some (setSelectionRange p p NoDirection ta)\<rparr>))
           = Some (tvalue ta)
       \<and> selection (updateCursorAppearance Normal (s\<lparr>textarea := Some (setSelectionRange p p NoDirection ta)\<rparr>))
           = Some (if p < int (length (tvalue ta)) then (p, p + 1)
                   else if 0 < int (length (tvalue ta)) then (p - 1, p)
                   else (0, 0))"
proof -
  let ?n = "int (length (tvalue ta))"
  define ta1 where "ta1 = setSelectionRange p p NoDirection ta"
  have e: "ta1 = ta\<lparr>selectionStart := p, selectionEnd := p, selectionDirection := NoDirection,
        calls := calls ta @ [(p, p, ?n)]\<rparr>"
    unfolding ta1_def using assms(2,3) by (intro setSelectionRange_in) simp_all
  have f: "selectionStart ta1 = p" "tvalue ta1 = tvalue ta" "ta_ok ta1"
    using assms(2,3) by (simp_all add: e ta_ok_def)
  have t1: "textarea (s\<lparr>textarea := Some ta1\<rparr>) = Some ta1" by simp
  note u = updateCursorAppearance_Normal [OF t1 f(3), unfolded f Let_def]
  consider (a) "p < ?n" | (b) "\<not> p < ?n" "0 < ?n" | (c) "\<not> p < ?n" "\<not> 0 < ?n"
    by blast
  then have "buffer (updateCursorAppearance Normal (s\<lparr>textarea := Some ta1\<rparr>)) = Some (tvalue ta)
       \<and> selection (updateCursorAppearance Normal (s\<lparr>textarea := Some ta1\<rparr>))
           = Some (if p < ?n then (p, p + 1) else if 0 < ?n then (p - 1, p) else (0, 0))"
  proof cases
    case a
    then show ?thesis unfolding u by (simp add: buffer_def selection_def f)
  next
    case b
    then show ?thesis unfolding u by (simp add: buffer_def selection_def f)
  next
    case c
    with assms(2,3) have "p = 0" by linarith
    with c show ?thesis unfolding u by (simp add: buffer_def selection_def e)
  qed
  then show ?thesis unfolding ta1_def .
qed

text \<open>
  Claim C5, as amended. In Normal mode with no key pending, with the cursor at \<open>pos\<close>
  on the line that starts at \<open>ls\<close> and ends at \<open>le\<close>: \<open>k\<close> on the first line and
  \<open>j\<close> on the last line change nothing. Otherwise the caret is placed in the destination
  line at column \<open>min(current column, max(0, length of the destination line - 1))\<close>, an
  offset between the start of that line and its terminal newline, and the block cursor
  of Normal mode is applied there (when the destination is the empty last line of the
  buffer, this selects the newline before it).
\<close>

theorem j_k_motion:
  assumes "enabled s" and "mode s = Normal" and "\<not> truthy (pendingKey s)"
    and "textarea s = Some ta" and "ta_ok ta"
    and "t = tvalue ta" and "pos = selectionStart ta"
    and "ls = lineStartFrom t pos" and "le = lineEndFrom t pos"
  shows "(key ev = ''k'' \<longrightarrow>
            (if ls = 0 then handleKeyDown ev s = (True, s)
             else (let pe = ls - 1;
                       ps = lineStartFrom t pe;
                       target = ps + min (pos - ls) (max 0 (pe - ps - 1))
                   in fst (handleKeyDown ev s)
                    \<and> buffer (snd (handleKeyDown ev s)) = Some t
                    \<and> selection (snd (handleKeyDown ev s)) = Some (target, target + 1)
                    \<and> ps \<le> target \<and> target \<le> pe)))
       \<and> (key ev = ''j'' \<longrightarrow>
            (if le \<ge> int (length t) then handleKeyDown ev s = (True, s)
             else (let ns = le + 1;
                       ne = lineEndFrom t ns;
                       target = ns + min (pos - ls) (max 0 (ne - ns - 1))
                   in fst (handleKeyDown ev s)
                    \<and> buffer (snd (handleKeyDown ev s)) = Some t
                    \<and> selection (snd (handleKeyDown ev s)) =
                        Some (if target < int (length t) then (target, target + 1)
                              else (int (length t) - 1, int (length t)))
                    \<and> ns \<le> target \<and> target \<le> ne)))"
proof (intro conjI impI)
  let ?n = "int (length t)"
  have bnd: "0 \<le> pos" "pos \<le> ?n" using assms(5,6,7) by (simp_all add: ta_ok_def)
  have ls: "0 \<le> ls" "ls \<le> pos"
    using assms(8) lineStartFrom_ge0 [OF bnd(1), of t] lineStartFrom_le [of t pos] by simp_all
  have gl: "\<And>p. getLineStart s p = lineStartFrom t p" "\<And>p. getLineEnd s p = lineEndFrom t p"
    using assms(4,6) by (simp_all add: getLineStart_def getLineEnd_def)
  {
    assume k: "key ev = ''k''"
    have hk: "handleKeyDown ev s = (True, moveCursorUp s)"
      using assms(1-4) k by (simp add: handleKeyDown_def handleNormalMode_no_pending normalKey_def)
    show "if ls = 0 then handleKeyDown ev s = (True, s)
          else (let pe = ls - 1; ps = lineStartFrom t pe;
                    target = ps + min (pos - ls) (max 0 (pe - ps - 1))
                in fst (handleKeyDown ev s)
                 \<and> buffer (snd (handleKeyDown ev s)) = Some t
                 \<and> selection (snd (handleKeyDown ev s)) = Some (target, target + 1)
                 \<and> ps \<le> target \<and> target \<le> pe)"
    proof (cases "ls = 0")
      case True
      then show ?thesis
        using assms(4,7,8) by (simp add: hk moveCursorUp_def gl Let_def)
    next
      case False
      define pe where "pe = ls - 1"
      define ps where "ps = lineStartFrom t pe"
      define target where "target = ps + min (pos - ls) (max 0 (pe - ps - 1))"
      have pe: "0 \<le> pe" using False ls pe_def by linarith
      have ps: "0 \<le> ps" "ps \<le> pe"
        using lineStartFrom_ge0 [OF pe, of t] lineStartFrom_le [of t pe] ps_def by simp_all
      have tg: "ps \<le> target" "target \<le> pe" "target < ?n" "0 \<le> target"
        using ps ls bnd pe_def target_def by (auto simp: min_def max_def)
      have np: "ps + max 0 (min (pos - ls) (max 0 (pe - ps - 1))) = target"
        using ls ps by (simp add: target_def min_def max_def)
      have mv: "moveCursorUp s = updateCursorAppearance Normal
                  (s\<lparr>textarea := Some (setSelectionRange target target NoDirection ta)\<rparr>)"
        using assms(2,4,7,8) False np
        by (simp add: moveCursorUp_def gl Let_def pe_def ps_def)
      have "buffer (moveCursorUp s) = Some t \<and> selection (moveCursorUp s) = Some (target, target + 1)"
        using placeCaret_Normal [OF assms(4), of target] tg assms(6) by (simp add: mv)
      then show ?thesis
        using False tg unfolding hk Let_def pe_def [symmetric] ps_def [symmetric] target_def [symmetric]
        by simp
    qed
  }
  {
    assume j: "key ev = ''j''"
    have hk: "handleKeyDown ev s = (True, moveCursorDown s)"
      using assms(1-4) j by (simp add: handleKeyDown_def handleNormalMode_no_pending normalKey_def)
    have le: "pos \<le> le" "le \<le> ?n"
      using assms(9) lineEndFrom_ge [of pos t] lineEndFrom_le [OF bnd(2)] by simp_all
    show "if le \<ge> ?n then handleKeyDown ev s = (True, s)
          else (let ns = le + 1; ne = lineEndFrom t ns;
                    target = ns + min (pos - ls) (max 0 (ne - ns - 1))
                in fst (handleKeyDown ev s)
                 \<and> buffer (snd (handleKeyDown ev s)) = Some t
                 \<and> selection (snd (handleKeyDown ev s)) =
                     Some (if target < ?n then (target, target + 1) else (?n - 1, ?n))
                 \<and> ns \<le> target \<and> target \<le> ne)"
    proof (cases "le \<ge> ?n")
      case True
      then show ?thesis
        using assms(4,6,7,9) by (simp add: hk moveCursorDown_def gl Let_def)
    next
      case False
      define ns where "ns = le + 1"
      define ne where "ne = lineEndFrom t ns"
      define target where "target = ns + min (pos - ls) (max 0 (ne - ns - 1))"
      have ns: "ns \<le> ?n" "0 \<le> ns" using False le bnd ns_def by linarith+
      have ne: "ns \<le> ne" "ne \<le> ?n"
        using lineEndFrom_ge [of ns t] lineEndFrom_le [OF ns(1)] ne_def by simp_all
      have tg: "ns \<le> target" "target \<le> ne" "target \<le> ?n" "0 \<le> target" "0 < ?n"
        using ns ne ls bnd target_def False le by (auto simp: min_def max_def)
      have np: "ns + max 0 (min (pos - ls) (max 0 (ne - ns - 1))) = target"
        using ls ne by (simp add: target_def min_def max_def)
      have mv: "moveCursorDown s = updateCursorAppearance Normal
                  (s\<lparr>textarea := Some (setSelectionRange target target NoDirection ta)\<rparr>)"
        using assms(2,4,6,7,8,9) False np
        by (simp add: moveCursorDown_def gl Let_def ns_def ne_def)
      have "buffer (moveCursorDown s) = Some t
          \<and> selection (moveCursorDown s) = Some (if target < ?n then (target, target + 1) else (?n - 1, ?n))"
        using placeCaret_Normal [OF assms(4), of target] tg assms(6) by (auto simp add: mv)
      then show ?thesis
        using False tg unfolding hk Let_def ns_def [symmetric] ne_def [symmetric] target_def [symmetric]
        by simp
    qed
  }
qed

theorem j_k_motion_witness:
  "selection (snd (handleKeyDown (plain ''k'') (started twoLines 3))) = Some (0, 1)
   \<and> selection (snd (handleKeyDown (plain ''j'') (started twoLines 0))) = Some (2, 3)"
proof -
  let ?ta3 = "\<lparr>tvalue = twoLines, selectionStart = 3, selectionEnd = 4,
              selectionDirection = NoDirection, calls = [(3, 4, 5)]\<rparr>"
  let ?ta0 = "\<lparr>tvalue = twoLines, selectionStart = 0, selectionEnd = 1,
              selectionDirection = NoDirection, calls = [(0, 1, 5)]\<rparr>"
  have 1: "enabled (started twoLines 3)" "enabled (started twoLines 0)" by code_simp+
  have 2: "mode (started twoLines 3) = Normal" "mode (started twoLines 0) = Normal" by code_simp+
  have 3: "\<not> truthy (pendingKey (started twoLines 3))" "\<not> truthy (pendingKey (started twoLines 0))"
    by code_simp+
  have 4: "textarea (started twoLines 3) = Some ?ta3" "textarea (started twoLines 0) = Some ?ta0"
    by code_simp+
  have 5: "ta_ok ?ta3" "ta_ok ?ta0" by code_simp+
  have l: "lineStartFrom twoLines 3 = 2" "lineStartFrom twoLines 1 = 0"
    "lineStartFrom twoLines 0 = 0" "lineEndFrom twoLines 0 = 1" "lineEndFrom twoLines 2 = 5"
    "int (length twoLines) = 5"
    by code_simp+
  have k: "key (plain ''k'') = ''k''" "key (plain ''j'') = ''j''" by (simp_all add: plain_def)
  show ?thesis
    using j_k_motion [OF 1(1) 2(1) 3(1) 4(1) 5(1) refl refl refl refl, of "plain ''k''"]
      j_k_motion [OF 1(2) 2(2) 3(2) 4(2) 5(2) refl refl refl refl, of "plain ''j''"]
    by (simp add: l k Let_def)
qed


text \<open>
  The claim as stated (column \<open>min(current column, length of the destination line)\<close>)
  fails: in \<open>a\<newline>bcd\<close> with the cursor on \<open>c\<close> (offset 3, line start 2, column 1),
  the line above is \<open>[0, 1)\<close> of length 1, so the claim gives column \<open>min(1, 1) = 1\<close>,
  offset 1; \<open>k\<close> puts the cursor on offset 0.
\<close>

theorem k_clamps_below_line_length:
  "selection (started twoLines 3) = Some (3, 4)
   \<and> lineStartFrom twoLines 3 = 2
   \<and> lineStartFrom twoLines 1 = 0
   \<and> lineEndFrom twoLines 0 = 1
   \<and> lineStartFrom twoLines 1
       + min (3 - lineStartFrom twoLines 3) (lineEndFrom twoLines 0 - lineStartFrom twoLines 1) = 1
   \<and> selection (snd (handleKeyDown (plain ''k'') (started twoLines 3))) = Some (0, 1)"
  by code_simp

subsection \<open>What the small operations leave alone\<close>

lemma setPendingKey_frame [simp]:
  "pendingKey (setPendingKey k s) = Some k"
  "textarea (setPendingKey k s) = textarea s"
  "mode (setPendingKey k s) = mode s"
  "enabled (setPendingKey k s) = enabled s"
  "yankBuffer (setPendingKey k s) = yankBuffer s"
  "visualStart (setPendingKey k s) = visualStart s"
  "undoStack (setPendingKey k s) = undoStack s"
  "redoStack (setPendingKey k s) = redoStack s"
  "clipboardReads (setPendingKey k s) = clipboardReads s"
  by (simp_all add: setPendingKey_def setTimeout_def clearTimeout_def Let_def split: option.split)

lemma clearPendingKey_simps [simp]:
  "pendingKey (clearPendingKey s) = None"
  "pendingKeyTimeout (clearPendingKey s) = None"
  "textarea (clearPendingKey s) = textarea s"
  "mode (clearPendingKey s) = mode s"
  "enabled (clearPendingKey s) = enabled s"
  "yankBuffer (clearPendingKey s) = yankBuffer s"
  "visualStart (clearPendingKey s) = visualStart s"
  "undoStack (clearPendingKey s) = undoStack s"
  "redoStack (clearPendingKey s) = redoStack s"
  "clipboardReads (clearPendingKey s) = clipboardReads s"
  by (simp_all add: clearPendingKey_frame)

lemma saveState_frame [simp]:
  "textarea (saveState s) = textarea s"
  "mode (saveState s) = mode s"
  "enabled (saveState s) = enabled s"
  "yankBuffer (saveState s) = yankBuffer s"
  "visualStart (saveState s) = visualStart s"
  "pendingKey (saveState s) = pendingKey s"
  "pendingKeyTimeout (saveState s) = pendingKeyTimeout s"
  "timers (saveState s) = timers s"
  "clipboardReads (saveState s) = clipboardReads s"
  by (simp_all add: saveState_def Let_def split: option.split)

lemma setSelectionRange_caret:
  "0 \<le> p \<Longrightarrow> p \<le> int (length (tvalue ta)) \<Longrightarrow>
   selectionStart (setSelectionRange p p d ta) = p \<and> selectionEnd (setSelectionRange p p d ta) = p"
  by (simp add: setSelectionRange_def clampPos_def Let_def)

lemma tvalue_setValue [simp]: "tvalue (setValue v ta) = v"
  by (simp add: setValue_def)

lemma keyDown_handled:
  "textarea s = Some ta \<Longrightarrow> enabled s \<Longrightarrow> handleKeyDown ev s = (True, s') \<Longrightarrow> keyDown ev s = s'"
  by (simp add: keyDown_def)

subsection \<open>C1: \<open>dd\<close> followed by \<open>p\<close>\<close>

text \<open>
  Claim C1, as amended. In Normal mode with no key pending and no clipboard read in
  flight, \<open>dd\<close> followed by \<open>p\<close>, whose clipboard read returns nothing or the line just
  yanked, restores the text of the buffer and leaves the cursor on the line it was on,
  provided nothing follows the deleted line and its newline in the buffer: the cursor
  is on the last line (the case without a trailing newline), or on a line whose newline
  ends the buffer.
\<close>

theorem dd_then_p_restores:
  assumes "enabled s" and "mode s = Normal" and "\<not> truthy (pendingKey s)"
    and "textarea s = Some ta" and "ta_ok ta" and "clipboardReads s = []"
    and "int (length (tvalue ta)) \<le> lineEndFrom (tvalue ta) (selectionStart ta) + 1"
    and "clip = None \<or> clip = Some (yankBuffer (run [KeyDown (plain ''d''), KeyDown (plain ''d'')] s))"
  shows "buffer (run (dd_p clip) s) = Some (tvalue ta)
       \<and> (\<exists>ta'. textarea (run (dd_p clip) s) = Some ta'
             \<and> lineStartFrom (tvalue ta) (selectionStart ta')
                 = lineStartFrom (tvalue ta) (selectionStart ta))"
proof -
  define t where "t = tvalue ta"
  define pos where "pos = selectionStart ta"
  define n where "n = int (length t)"
  define ls where "ls = lineStartFrom t pos"
  define le where "le = lineEndFrom t pos"
  have bnd: "0 \<le> pos" "pos \<le> n" using assms(5) by (simp_all add: ta_ok_def pos_def n_def t_def)
  have ls: "0 \<le> ls" "ls \<le> pos" "ls \<le> n"
    using lineStartFrom_ge0 [OF bnd(1), of t] lineStartFrom_le [of t pos] bnd by (simp_all add: ls_def)
  have le: "pos \<le> le" "le \<le> n"
    using lineEndFrom_ge [of pos t] lineEndFrom_le [of pos t] bnd by (simp_all add: le_def n_def)
  have near: "n \<le> le + 1" using assms(7) by (simp add: n_def t_def le_def pos_def)
  have nle: "(if le < n then le + 1 else le) = n" using near le by auto
  \<comment> \<open>the first \<open>d\<close>\<close>
  define s1 where "s1 = setPendingKey ''d'' s"
  have h1: "handleKeyDown (plain ''d'') s = (True, s1)"
    using assms(1-4)
    by (simp add: handleKeyDown_def handleNormalMode_no_pending normalKey_def plain_def s1_def)
  have k1: "keyDown (plain ''d'') s = s1" using keyDown_handled [OF assms(4,1) h1] .
  \<comment> \<open>the second \<open>d\<close>\<close>
  define s2 where "s2 = deleteCurrentLine (clearPendingKey s1)"
  have h2: "handleKeyDown (plain ''d'') s1 = (True, s2)"
    using assms(1,2,4)
    by (simp add: handleKeyDown_def handleNormalMode_def truthy_def plain_def s1_def s2_def Let_def)
  have k2: "keyDown (plain ''d'') s1 = s2"
    by (rule keyDown_handled [OF _ _ h2, of ta]) (simp_all add: s1_def assms)
  define ta2 where "ta2 = setSelectionRange ls ls NoDirection (setValue (take (nat ls) t) ta)"
  have len2: "int (length (take (nat ls) t)) = ls" using ls by (simp add: n_def)
  have ta2: "tvalue ta2 = take (nat ls) t" "selectionStart ta2 = ls" "selectionEnd ta2 = ls"
    using setSelectionRange_caret [of ls "setValue (take (nat ls) t) ta" NoDirection] ls len2
    by (simp_all add: ta2_def)
  have sl: "slice t ls n = drop (nat ls) t" "slice t 0 ls = take (nat ls) t" "sliceFrom t n = []"
    using ls by (simp_all add: slice_in_range slice_prefix sliceFrom_drop n_def)
  have s2: "textarea s2 = Some ta2" "yankBuffer s2 = drop (nat ls) t" "enabled s2" "mode s2 = Normal"
    "pendingKey s2 = None" "clipboardReads s2 = []"
    using assms(1,2,4,6) nle sl
    by (simp_all add: s2_def s1_def deleteCurrentLine_def getLineStart_def getLineEnd_def Let_def
          ta2_def t_def [symmetric] pos_def [symmetric] ls_def [symmetric] le_def [symmetric]
          n_def [symmetric])
  \<comment> \<open>\<open>p\<close> starts a clipboard read\<close>
  define s3 where "s3 = pasteAfterCursor s2"
  have h3: "handleKeyDown (plain ''p'') s2 = (True, s3)"
    using s2 by (simp add: handleKeyDown_def handleNormalMode_def normalKey_def plain_def s3_def)
  have k3: "keyDown (plain ''p'') s2 = s3"
    by (rule keyDown_handled [OF s2(1) s2(3) h3])
  \<comment> \<open>the read resolves\<close>
  define s3' where "s3' = s3\<lparr>clipboardReads := []\<rparr>"
  have r: "clipboardResolved clip s3 = pasteAfterCursorResume clip s3'"
    using s2(6) by (simp add: clipboardResolved_def s3_def s3'_def pasteAfterCursor_def)
  have s3': "textarea s3' = Some ta2" "yankBuffer s3' = drop (nat ls) t"
    using s2 by (simp_all add: s3'_def s3_def pasteAfterCursor_def)
  have run2: "run [KeyDown (plain ''d''), KeyDown (plain ''d'')] s = s2" by (simp add: k1 k2)
  have pt: "pasteText clip s3' = drop (nat ls) t"
  proof -
    have "clip = None \<or> clip = Some (drop (nat ls) t)"
      using assms(8) unfolding run2 s2(2) .
    then show ?thesis using s3'(2) by (auto simp: pasteText_def truthy_def)
  qed
  have run4: "run (dd_p clip) s = pasteAfterCursorResume clip s3'"
    by (simp add: dd_p_def k1 k2 k3 r)
  have idem: "lineStartFrom t ls = ls" unfolding ls_def by (rule lineStartFrom_idem)
  show ?thesis
  proof (cases "drop (nat ls) t = []")
    case True
    then have "take (nat ls) t = t" by simp
    with True show ?thesis
      unfolding run4 using pt s3' ta2 idem
      by (simp add: pasteAfterCursorResume_def buffer_def t_def [symmetric] pos_def [symmetric]
            ls_def [symmetric])
  next
    case False
    let ?pos' = "min (int (length (tvalue ta2))) (selectionStart ta2 + 1)"
    have p': "?pos' = ls" using ta2 len2 by simp
    have v: "slice (tvalue ta2) 0 ls @ drop (nat ls) t @ sliceFrom (tvalue ta2) ls = t"
      using ls len2 by (simp add: ta2 slice_prefix sliceFrom_drop)
    define ta4 where "ta4 = setSelectionRange ls ls NoDirection (setValue t ta2)"
    have ta4: "tvalue ta4 = t" "selectionStart ta4 = ls"
      using setSelectionRange_caret [of ls "setValue t ta2" NoDirection] ls
      by (simp_all add: ta4_def n_def)
    have "textarea (pasteAfterCursorResume clip s3') = Some ta4"
      using False pt s3'(1) p' v
      by (simp add: pasteAfterCursorResume_def Let_def ta4_def)
    then show ?thesis
      unfolding run4 using ta4 idem
      by (simp add: buffer_def t_def [symmetric] pos_def [symmetric] ls_def [symmetric])
  qed
qed

theorem dd_then_p_restores_witness:
  "buffer (run (dd_p None) (started twoLines 3)) = Some twoLines"
proof -
  let ?s = "started twoLines 3"
  let ?ta = "\<lparr>tvalue = twoLines, selectionStart = 3, selectionEnd = 4,
              selectionDirection = NoDirection, calls = [(3, 4, 5)]\<rparr>"
  have 1: "enabled ?s" by code_simp
  have 2: "mode ?s = Normal" by code_simp
  have 3: "\<not> truthy (pendingKey ?s)" by code_simp
  have 4: "textarea ?s = Some ?ta" by code_simp
  have 5: "ta_ok ?ta" by code_simp
  have 6: "clipboardReads ?s = []" by code_simp
  have 7: "int (length (tvalue ?ta)) \<le> lineEndFrom (tvalue ?ta) (selectionStart ?ta) + 1"
    by code_simp
  have 8: "None = None \<or> None = Some (yankBuffer (run [KeyDown (plain ''d''), KeyDown (plain ''d'')] ?s))"
    by simp
  show ?thesis using dd_then_p_restores [OF 1 2 3 4 5 6 7 8] by simp
qed


text \<open>
  The claim as stated (for every buffer and cursor) fails on a line that is followed by
  another: \<open>p\<close> inserts the yanked line one character after the cursor, inside the
  next line. With the cursor on \<open>b\<close> in \<open>a\<newline>b\<newline>c\<close> the result is
  \<open>a\<newline>cb\<newline>\<close>.
\<close>

theorem dd_then_p_scrambles_middle_line:
  "buffer (started threeLines 2) = Some (''a'' @ [newline] @ ''b'' @ [newline] @ ''c'')
   \<and> selection (started threeLines 2) = Some (2, 3)
   \<and> buffer (run (dd_p None) (started threeLines 2)) = Some (''a'' @ [newline] @ ''cb'' @ [newline])"
  by code_simp


section \<open>Invariants of a session\<close>

subsection \<open>Well-formed states\<close>

lemma wellformed_fields [simp]:
  "wellformed (s\<lparr>enabled := x1\<rparr>) = wellformed s"
  "wellformed (s\<lparr>mode := x2\<rparr>) = wellformed s"
  "wellformed (s\<lparr>yankBuffer := x3\<rparr>) = wellformed s"
  "wellformed (s\<lparr>visualStart := x4\<rparr>) = wellformed s"
  "wellformed (s\<lparr>pendingKey := x5\<rparr>) = wellformed s"
  "wellformed (s\<lparr>pendingKeyTimeout := x6\<rparr>) = wellformed s"
  "wellformed (s\<lparr>timers := x7\<rparr>) = wellformed s"
  "wellformed (s\<lparr>nextTimer := x8\<rparr>) = wellformed s"
  "wellformed (s\<lparr>clipboardReads := x9\<rparr>) = wellformed s"
  by (simp_all add: wellformed_def)

lemma wellformed_textarea_update:
  "wellformed s \<Longrightarrow> ta_inv ta' \<Longrightarrow> wellformed (s\<lparr>textarea := Some ta'\<rparr>)"
  by (simp add: wellformed_def)

lemma wellformed_textareaD: "wellformed s \<Longrightarrow> textarea s = Some ta \<Longrightarrow> ta_inv ta"
  by (simp add: wellformed_def)

lemma ta_invD:
  "ta_inv ta \<Longrightarrow> 0 \<le> selectionStart ta"
  "ta_inv ta \<Longrightarrow> selectionStart ta \<le> selectionEnd ta"
  "ta_inv ta \<Longrightarrow> selectionEnd ta \<le> int (length (tvalue ta))"
  "ta_inv ta \<Longrightarrow> selectionStart ta \<le> int (length (tvalue ta))"
  by (simp_all add: ta_inv_def ta_ok_def)

lemma ta_inv_setSelectionRange:
  "ta_inv ta \<Longrightarrow> 0 \<le> a \<Longrightarrow> a \<le> b \<Longrightarrow> b \<le> int (length (tvalue ta)) \<Longrightarrow>
   ta_inv (setSelectionRange a b d ta)"
  by (simp add: ta_inv_def) (simp add: setSelectionRange_def Let_def inBounds_def)

lemma ta_inv_setValue: "ta_inv ta \<Longrightarrow> ta_inv (setValue v ta)"
  by (simp add: ta_inv_def ta_ok_setValue) (simp add: setValue_def)

text \<open>The shape of every write of the engine to the textarea.\<close>

lemma wellformed_select:
  "wellformed s \<Longrightarrow> textarea s = Some ta \<Longrightarrow> 0 \<le> a \<Longrightarrow> a \<le> b \<Longrightarrow> b \<le> int (length (tvalue ta)) \<Longrightarrow>
   wellformed (s\<lparr>textarea := Some (setSelectionRange a b d ta)\<rparr>)"
  by (intro wellformed_textarea_update ta_inv_setSelectionRange) (auto dest: wellformed_textareaD)

lemma wellformed_write:
  "wellformed s \<Longrightarrow> textarea s = Some ta \<Longrightarrow> 0 \<le> a \<Longrightarrow> a \<le> b \<Longrightarrow> b \<le> int (length v) \<Longrightarrow>
   wellformed (s\<lparr>textarea := Some (setSelectionRange a b d (setValue v ta))\<rparr>)"
  by (intro wellformed_textarea_update ta_inv_setSelectionRange ta_inv_setValue) (auto dest: wellformed_textareaD)

lemma wellformed_updateCursorAppearance:
  assumes i: "wellformed s"
  shows "wellformed (updateCursorAppearance m s)"
proof (cases "textarea s")
  case None
  with i show ?thesis by (simp add: updateCursorAppearance_def)
next
  case (Some ta)
  let ?pos = "selectionStart ta" and ?n = "int (length (tvalue ta))"
  note b = ta_invD [OF wellformed_textareaD [OF i Some]]
  have 1: "?pos < ?n \<Longrightarrow> wellformed (s\<lparr>textarea := Some (setSelectionRange ?pos (?pos + 1) NoDirection ta)\<rparr>)"
    using b by (intro wellformed_select [OF i Some]) linarith+
  have 2: "\<not> ?pos < ?n \<Longrightarrow> ?n > 0 \<Longrightarrow>
      wellformed (s\<lparr>textarea := Some (setSelectionRange (?pos - 1) ?pos NoDirection ta)\<rparr>)"
    using b by (intro wellformed_select [OF i Some]) linarith+
  have 3: "wellformed (s\<lparr>textarea := Some (setSelectionRange ?pos ?pos NoDirection ta)\<rparr>)"
    using b by (intro wellformed_select [OF i Some]) linarith+
  show ?thesis
    using Some i 1 2 3 by (simp add: updateCursorAppearance_def Let_def)
qed

lemma wellformed_setMode: "wellformed s \<Longrightarrow> wellformed (setMode m s)"
  by (simp add: setMode_def wellformed_updateCursorAppearance)

lemma wellformed_setPendingKey: "wellformed s \<Longrightarrow> wellformed (setPendingKey k s)"
  by (simp add: setPendingKey_def setTimeout_def clearTimeout_def Let_def split: option.split)

lemma wellformed_clearPendingKey: "wellformed s \<Longrightarrow> wellformed (clearPendingKey s)"
  by (simp add: clearPendingKey_def clearTimeout_def Let_def split: option.split)

lemma wellformed_timerFired: "wellformed s \<Longrightarrow> wellformed (timerFired h s)"
  by (simp add: timerFired_def)

lemma list_all_tl: "list_all P xs \<Longrightarrow> list_all P (tl xs)"
  by (cases xs) simp_all

lemma list_all_butlast: "list_all P xs \<Longrightarrow> list_all P (butlast xs)"
  by (induction xs) simp_all

lemma list_all_last: "list_all P xs \<Longrightarrow> xs \<noteq> [] \<Longrightarrow> P (last xs)"
  by (induction xs) simp_all

lemma wellformed_saveState:
  assumes i: "wellformed s"
  shows "wellformed (saveState s)"
proof (cases "textarea s")
  case None
  with i show ?thesis by (simp add: saveState_def)
next
  case (Some ta)
  note b = ta_invD [OF wellformed_textareaD [OF i Some]]
  have "snap_ok \<lparr>snap_text = tvalue ta, snap_cursor = selectionStart ta\<rparr>"
    using b by (simp add: snap_ok_def)
  then show ?thesis
    using i Some by (simp add: saveState_def Let_def wellformed_def list_all_tl)
qed

lemma wellformed_undo:
  assumes i: "wellformed s"
  shows "wellformed (undo s)"
proof (cases "undoStack s = [] \<or> textarea s = None")
  case True
  with i show ?thesis by (auto simp: undo_def)
next
  case False
  from False obtain ta where Some: "textarea s = Some ta" and ne: "undoStack s \<noteq> []" by auto
  note b = ta_invD [OF wellformed_textareaD [OF i Some]]
  let ?x = "last (undoStack s)"
  let ?s1 = "s\<lparr>redoStack := redoStack s @ [\<lparr>snap_text = tvalue ta, snap_cursor = selectionStart ta\<rparr>],
               undoStack := butlast (undoStack s)\<rparr>"
  have x: "snap_ok ?x" using i ne by (simp add: wellformed_def list_all_last)
  have c: "snap_ok \<lparr>snap_text = tvalue ta, snap_cursor = selectionStart ta\<rparr>"
    using b by (simp add: snap_ok_def)
  have i1: "wellformed ?s1" using i c by (simp add: wellformed_def list_all_butlast)
  have t1: "textarea ?s1 = Some ta" using Some by simp
  have "wellformed (?s1\<lparr>textarea := Some (setSelectionRange (snap_cursor ?x) (snap_cursor ?x) NoDirection
            (setValue (snap_text ?x) ta))\<rparr>)"
    using x by (intro wellformed_write [OF i1 t1]) (simp_all add: snap_ok_def)
  then show ?thesis using Some ne by (simp add: undo_def Let_def)
qed

lemma wellformed_redo:
  assumes i: "wellformed s"
  shows "wellformed (redo s)"
proof (cases "redoStack s = [] \<or> textarea s = None")
  case True
  with i show ?thesis by (auto simp: redo_def)
next
  case False
  from False obtain ta where Some: "textarea s = Some ta" and ne: "redoStack s \<noteq> []" by auto
  note b = ta_invD [OF wellformed_textareaD [OF i Some]]
  let ?x = "last (redoStack s)"
  let ?s1 = "s\<lparr>undoStack := undoStack s @ [\<lparr>snap_text = tvalue ta, snap_cursor = selectionStart ta\<rparr>],
               redoStack := butlast (redoStack s)\<rparr>"
  have x: "snap_ok ?x" using i ne by (simp add: wellformed_def list_all_last)
  have c: "snap_ok \<lparr>snap_text = tvalue ta, snap_cursor = selectionStart ta\<rparr>"
    using b by (simp add: snap_ok_def)
  have i1: "wellformed ?s1" using i c by (simp add: wellformed_def list_all_butlast)
  have t1: "textarea ?s1 = Some ta" using Some by simp
  have "wellformed (?s1\<lparr>textarea := Some (setSelectionRange (snap_cursor ?x) (snap_cursor ?x) NoDirection
            (setValue (snap_text ?x) ta))\<rparr>)"
    using x by (intro wellformed_write [OF i1 t1]) (simp_all add: snap_ok_def)
  then show ?thesis using Some ne by (simp add: redo_def Let_def)
qed

lemma wellformed_placeCaret:
  "wellformed s \<Longrightarrow> textarea s = Some ta \<Longrightarrow> 0 \<le> p \<Longrightarrow> p \<le> int (length (tvalue ta)) \<Longrightarrow>
   wellformed (updateCursorAppearance m (s\<lparr>textarea := Some (setSelectionRange p p d ta)\<rparr>))"
  by (intro wellformed_updateCursorAppearance wellformed_select) simp_all

lemma wellformed_moveCursorLeft:
  assumes i: "wellformed s"
  shows "wellformed (moveCursorLeft s)"
proof (cases "textarea s")
  case None
  with i show ?thesis by (simp add: moveCursorLeft_def)
next
  case (Some ta)
  note b = ta_invD [OF wellformed_textareaD [OF i Some]]
  have "wellformed (updateCursorAppearance (mode s)
          (s\<lparr>textarea := Some (setSelectionRange (max 0 (selectionStart ta - 1))
              (max 0 (selectionStart ta - 1)) NoDirection ta)\<rparr>))"
    using b by (intro wellformed_placeCaret [OF i Some]) (simp_all add: max_def)
  then show ?thesis using Some by (simp add: moveCursorLeft_def Let_def)
qed

lemma wellformed_moveCursorRight:
  assumes i: "wellformed s"
  shows "wellformed (moveCursorRight s)"
proof (cases "textarea s")
  case None
  with i show ?thesis by (simp add: moveCursorRight_def)
next
  case (Some ta)
  note b = ta_invD [OF wellformed_textareaD [OF i Some]]
  have "wellformed (updateCursorAppearance (mode s)
          (s\<lparr>textarea := Some (setSelectionRange (min (int (length (tvalue ta))) (selectionStart ta + 1))
              (min (int (length (tvalue ta))) (selectionStart ta + 1)) NoDirection ta)\<rparr>))"
    using b by (intro wellformed_placeCaret [OF i Some]) (simp_all add: min_def)
  then show ?thesis using Some by (simp add: moveCursorRight_def Let_def)
qed

lemma wellformed_moveCursorUp:
  assumes i: "wellformed s"
  shows "wellformed (moveCursorUp s)"
proof (cases "textarea s")
  case None
  with i show ?thesis by (simp add: moveCursorUp_def)
next
  case (Some ta)
  note b = ta_invD [OF wellformed_textareaD [OF i Some]]
  let ?t = "tvalue ta" and ?pos = "selectionStart ta"
  let ?ls = "lineStartFrom ?t ?pos"
  let ?ps = "lineStartFrom ?t (?ls - 1)"
  let ?np = "?ps + max 0 (min (?pos - ?ls) (max 0 (?ls - 1 - ?ps - 1)))"
  have ls: "0 \<le> ?ls" "?ls \<le> ?pos"
    using lineStartFrom_ge0 [OF b(1), of ?t] lineStartFrom_le [of ?t ?pos] by simp_all
  have np: "0 \<le> ?np \<and> ?np \<le> int (length ?t)" if "?ls \<noteq> 0"
  proof -
    from that ls have pe: "0 \<le> ?ls - 1" by linarith
    have ps: "0 \<le> ?ps" "?ps \<le> ?ls - 1"
      using lineStartFrom_ge0 [OF pe, of ?t] lineStartFrom_le [of ?t "?ls - 1"] by simp_all
    show ?thesis using ps ls b(4) by (simp add: min_def max_def)
  qed
  have "wellformed (updateCursorAppearance (mode s)
          (s\<lparr>textarea := Some (setSelectionRange ?np ?np NoDirection ta)\<rparr>))" if "?ls \<noteq> 0"
    using np [OF that] by (intro wellformed_placeCaret [OF i Some]) simp_all
  then show ?thesis using Some i by (simp add: moveCursorUp_def getLineStart_def Let_def)
qed

lemma wellformed_moveCursorDown:
  assumes i: "wellformed s"
  shows "wellformed (moveCursorDown s)"
proof (cases "textarea s")
  case None
  with i show ?thesis by (simp add: moveCursorDown_def)
next
  case (Some ta)
  note b = ta_invD [OF wellformed_textareaD [OF i Some]]
  let ?t = "tvalue ta" and ?pos = "selectionStart ta"
  let ?n = "int (length ?t)"
  let ?ls = "lineStartFrom ?t ?pos"
  let ?le = "lineEndFrom ?t ?pos"
  let ?ne = "lineEndFrom ?t (?le + 1)"
  let ?np = "?le + 1 + max 0 (min (?pos - ?ls) (max 0 (?ne - (?le + 1) - 1)))"
  have ls: "0 \<le> ?ls" "?ls \<le> ?pos"
    using lineStartFrom_ge0 [OF b(1), of ?t] lineStartFrom_le [of ?t ?pos] by simp_all
  have le: "?pos \<le> ?le" using lineEndFrom_ge [of ?pos ?t] by simp
  have np: "0 \<le> ?np \<and> ?np \<le> ?n" if "\<not> ?n \<le> ?le"
  proof -
    from that have ns: "?le + 1 \<le> ?n" by linarith
    have ne: "?le + 1 \<le> ?ne" "?ne \<le> ?n"
      using lineEndFrom_ge [of "?le + 1" ?t] lineEndFrom_le [OF ns] by simp_all
    show ?thesis using ne ls le b(1) by (simp add: min_def max_def)
  qed
  have "wellformed (updateCursorAppearance (mode s)
          (s\<lparr>textarea := Some (setSelectionRange ?np ?np NoDirection ta)\<rparr>))" if "\<not> ?n \<le> ?le"
    using np [OF that] by (intro wellformed_placeCaret [OF i Some]) simp_all
  then show ?thesis using Some i
    by (simp add: moveCursorDown_def getLineStart_def getLineEnd_def Let_def)
qed

lemma wellformed_moveCursorToStart:
  assumes i: "wellformed s"
  shows "wellformed (moveCursorToStart s)"
proof (cases "textarea s")
  case None
  with i show ?thesis by (simp add: moveCursorToStart_def)
next
  case (Some ta)
  have "wellformed (updateCursorAppearance (mode s) (s\<lparr>textarea := Some (setSelectionRange 0 0 NoDirection ta)\<rparr>))"
    by (intro wellformed_placeCaret [OF i Some]) simp_all
  then show ?thesis using Some by (simp add: moveCursorToStart_def)
qed

lemma wellformed_moveCursorToEnd:
  assumes i: "wellformed s"
  shows "wellformed (moveCursorToEnd s)"
proof (cases "textarea s")
  case None
  with i show ?thesis by (simp add: moveCursorToEnd_def)
next
  case (Some ta)
  have "wellformed (updateCursorAppearance (mode s)
      (s\<lparr>textarea := Some (setSelectionRange (int (length (tvalue ta))) (int (length (tvalue ta))) NoDirection ta)\<rparr>))"
    by (intro wellformed_placeCaret [OF i Some]) simp_all
  then show ?thesis using Some by (simp add: moveCursorToEnd_def Let_def)
qed

lemma wellformed_moveCursorToLineStart:
  assumes i: "wellformed s"
  shows "wellformed (moveCursorToLineStart s)"
proof (cases "textarea s")
  case None
  with i show ?thesis by (simp add: moveCursorToLineStart_def)
next
  case (Some ta)
  note b = ta_invD [OF wellformed_textareaD [OF i Some]]
  let ?ls = "lineStartFrom (tvalue ta) (selectionStart ta)"
  have ls: "0 \<le> ?ls" "?ls \<le> int (length (tvalue ta))"
    using lineStartFrom_ge0 [OF b(1), of "tvalue ta"] lineStartFrom_le [of "tvalue ta" "selectionStart ta"] b(4)
    by simp_all
  have "wellformed (updateCursorAppearance (mode s) (s\<lparr>textarea := Some (setSelectionRange ?ls ?ls NoDirection ta)\<rparr>))"
    using ls by (intro wellformed_placeCaret [OF i Some]) simp_all
  then show ?thesis using Some by (simp add: moveCursorToLineStart_def getLineStart_def Let_def)
qed

lemma wellformed_moveCursorToLineEnd:
  assumes i: "wellformed s"
  shows "wellformed (moveCursorToLineEnd s)"
proof (cases "textarea s")
  case None
  with i show ?thesis by (simp add: moveCursorToLineEnd_def)
next
  case (Some ta)
  note b = ta_invD [OF wellformed_textareaD [OF i Some]]
  let ?le = "lineEndFrom (tvalue ta) (selectionStart ta)"
  have le: "0 \<le> ?le" "?le \<le> int (length (tvalue ta))"
    using lineEndFrom_ge [of "selectionStart ta" "tvalue ta"] lineEndFrom_le [OF b(4)] b(1)
    by simp_all
  have "wellformed (updateCursorAppearance (mode s) (s\<lparr>textarea := Some (setSelectionRange ?le ?le NoDirection ta)\<rparr>))"
    using le by (intro wellformed_placeCaret [OF i Some]) simp_all
  then show ?thesis using Some by (simp add: moveCursorToLineEnd_def getLineEnd_def Let_def)
qed

lemma wellformed_cong:
  "wellformed s \<Longrightarrow> undoStack s' = undoStack s \<Longrightarrow> redoStack s' = redoStack s \<Longrightarrow>
   textarea s' = Some ta' \<Longrightarrow> ta_inv ta' \<Longrightarrow> wellformed s'"
  by (simp add: wellformed_def)

lemma wellformed_same:
  "wellformed s \<Longrightarrow> undoStack s' = undoStack s \<Longrightarrow> redoStack s' = redoStack s \<Longrightarrow>
   textarea s' = textarea s \<Longrightarrow> wellformed s'"
  by (simp add: wellformed_def)

lemma length_slice_prefix:
  "0 \<le> p \<Longrightarrow> p \<le> int (length t) \<Longrightarrow> int (length (slice t 0 p)) = p"
  by (simp add: slice_prefix)

lemma ta_inv_caret_write:
  "ta_inv ta \<Longrightarrow> 0 \<le> p \<Longrightarrow> p \<le> int (length v) \<Longrightarrow>
   ta_inv (setSelectionRange p p d (setValue v ta))"
  by (intro ta_inv_setSelectionRange ta_inv_setValue) simp_all

lemma wellformed_deleteCharAtCursor:
  assumes i: "wellformed s"
  shows "wellformed (deleteCharAtCursor s)"
proof (cases "textarea s")
  case None
  with i show ?thesis by (simp add: deleteCharAtCursor_def wellformed_saveState)
next
  case (Some ta)
  note ti = wellformed_textareaD [OF i Some]
  note b = ta_invD [OF ti]
  note i' = wellformed_saveState [OF i]
  let ?p = "selectionStart ta" and ?t = "tvalue ta"
  have "ta_inv (setSelectionRange ?p ?p NoDirection (setValue (slice ?t 0 ?p @ sliceFrom ?t (?p + 1)) ta))"
    using b length_slice_prefix [OF b(1) b(4)] by (intro ta_inv_caret_write [OF ti]) simp_all
  then show ?thesis
    using Some i' by (auto simp: deleteCharAtCursor_def Let_def intro: wellformed_cong [OF i'])
qed

lemma nextLineEnd_bounds:
  assumes "0 \<le> p" and "p \<le> int (length t)"
  shows "0 \<le> lineStartFrom t p" and "lineStartFrom t p \<le> int (length t)"
    and "lineStartFrom t p \<le> lineEndFrom t p" and "lineEndFrom t p \<le> int (length t)"
    and "0 \<le> lineEndFrom t p"
  using lineStartFrom_ge0 [OF assms(1), of t] lineStartFrom_le [of t p]
    lineEndFrom_ge [of p t] lineEndFrom_le [OF assms(2)] assms
  by linarith+

lemma wellformed_deleteCurrentLine:
  assumes i: "wellformed s"
  shows "wellformed (deleteCurrentLine s)"
proof (cases "textarea s")
  case None
  with i show ?thesis by (simp add: deleteCurrentLine_def wellformed_saveState)
next
  case (Some ta)
  note ti = wellformed_textareaD [OF i Some]
  note b = ta_invD [OF ti]
  note i' = wellformed_saveState [OF i]
  let ?p = "selectionStart ta" and ?t = "tvalue ta"
  let ?ls = "lineStartFrom ?t ?p"
  note l = nextLineEnd_bounds [OF b(1) b(4)]
  have "ta_inv (setSelectionRange ?ls ?ls NoDirection (setValue (slice ?t 0 ?ls @ x) ta))" for x
    using l length_slice_prefix [OF l(1) l(2)] by (intro ta_inv_caret_write [OF ti]) simp_all
  then show ?thesis
    using Some i'
    by (auto simp: deleteCurrentLine_def getLineStart_def getLineEnd_def Let_def intro!: wellformed_cong [OF i'])
qed

lemma wellformed_yankCurrentLine: "wellformed s \<Longrightarrow> wellformed (yankCurrentLine s)"
  by (simp add: yankCurrentLine_def Let_def split: option.split)

lemma wellformed_yankSelection: "wellformed s \<Longrightarrow> wellformed (yankSelection s)"
  by (simp add: yankSelection_def Let_def split: option.split)

lemma wellformed_deleteSelection:
  assumes i: "wellformed s"
  shows "wellformed (deleteSelection s)"
proof (cases "textarea s")
  case None
  with i show ?thesis by (simp add: deleteSelection_def wellformed_saveState)
next
  case (Some ta)
  note ti = wellformed_textareaD [OF i Some]
  note b = ta_invD [OF ti]
  note i' = wellformed_saveState [OF i]
  let ?p = "min (selectionStart ta) (selectionEnd ta)" and ?t = "tvalue ta"
  have p: "?p = selectionStart ta" using b by simp
  have "ta_inv (setSelectionRange ?p ?p NoDirection (setValue (slice ?t 0 ?p @ x) ta))" for x
    unfolding p using b length_slice_prefix [OF b(1) b(4)] by (intro ta_inv_caret_write [OF ti]) simp_all
  then show ?thesis
    using Some i'
    by (auto simp: deleteSelection_def Let_def intro!: wellformed_cong [OF i'])
qed

lemma wellformed_pasteAfterCursorResume:
  assumes i: "wellformed s"
  shows "wellformed (pasteAfterCursorResume clip s)"
proof (cases "textarea s")
  case None
  with i show ?thesis by (simp add: pasteAfterCursorResume_def wellformed_saveState Let_def)
next
  case (Some ta)
  note ti = wellformed_textareaD [OF i Some]
  note b = ta_invD [OF ti]
  note i' = wellformed_saveState [OF i]
  let ?t = "tvalue ta"
  let ?p = "min (int (length ?t)) (selectionStart ta + 1)"
  have pb: "0 \<le> ?p" "?p \<le> int (length ?t)" using b by simp_all
  have "ta_inv (setSelectionRange ?p ?p NoDirection (setValue (slice ?t 0 ?p @ x) ta))" for x
    using pb length_slice_prefix [OF pb] by (intro ta_inv_caret_write [OF ti]) simp_all
  then show ?thesis
    using Some i i'
    by (auto simp: pasteAfterCursorResume_def Let_def intro!: wellformed_cong [OF i'])
qed

lemma wellformed_pasteBeforeCursorResume:
  assumes i: "wellformed s"
  shows "wellformed (pasteBeforeCursorResume clip s)"
proof (cases "textarea s")
  case None
  with i show ?thesis by (simp add: pasteBeforeCursorResume_def wellformed_saveState Let_def)
next
  case (Some ta)
  note ti = wellformed_textareaD [OF i Some]
  note b = ta_invD [OF ti]
  note i' = wellformed_saveState [OF i]
  let ?t = "tvalue ta"
  let ?p = "selectionStart ta"
  have "ta_inv (setSelectionRange ?p ?p NoDirection (setValue (slice ?t 0 ?p @ x) ta))" for x
    using b length_slice_prefix [OF b(1) b(4)] by (intro ta_inv_caret_write [OF ti]) simp_all
  then show ?thesis
    using Some i i'
    by (auto simp: pasteBeforeCursorResume_def Let_def intro!: wellformed_cong [OF i'])
qed

lemma wellformed_replaceSelectionWithYankResume:
  assumes i: "wellformed s"
  shows "wellformed (replaceSelectionWithYankResume clip s)"
proof (cases "textarea s")
  case None
  with i show ?thesis by (simp add: replaceSelectionWithYankResume_def wellformed_saveState Let_def)
next
  case (Some ta)
  note ti = wellformed_textareaD [OF i Some]
  note b = ta_invD [OF ti]
  note i' = wellformed_saveState [OF i]
  let ?p = "min (selectionStart ta) (selectionEnd ta)" and ?t = "tvalue ta"
  have p: "?p = selectionStart ta" using b by simp
  have "ta_inv (setSelectionRange ?p ?p NoDirection (setValue (slice ?t 0 ?p @ x) ta))" for x
    unfolding p using b length_slice_prefix [OF b(1) b(4)] by (intro ta_inv_caret_write [OF ti]) simp_all
  then show ?thesis
    using Some i i'
    by (auto simp: replaceSelectionWithYankResume_def Let_def intro!: wellformed_cong [OF i'])
qed

lemma wellformed_clipboardResolved: "wellformed s \<Longrightarrow> wellformed (clipboardResolved clip s)"
  by (auto simp: clipboardResolved_def Let_def split: list.split paste_kind.split
      intro!: wellformed_pasteAfterCursorResume wellformed_pasteBeforeCursorResume wellformed_replaceSelectionWithYankResume)

lemma wellformed_paste:
  "wellformed s \<Longrightarrow> wellformed (pasteAfterCursor s)"
  "wellformed s \<Longrightarrow> wellformed (pasteBeforeCursor s)"
  "wellformed s \<Longrightarrow> wellformed (replaceSelectionWithYank s)"
  by (simp_all add: pasteAfterCursor_def pasteBeforeCursor_def replaceSelectionWithYank_def)

lemma wellformed_insertLineBelow:
  assumes i: "wellformed s"
  shows "wellformed (insertLineBelow s)"
proof (cases "textarea s")
  case None
  with i show ?thesis by (simp add: insertLineBelow_def wellformed_saveState)
next
  case (Some ta)
  note ti = wellformed_textareaD [OF i Some]
  note b = ta_invD [OF ti]
  note i' = wellformed_saveState [OF i]
  let ?t = "tvalue ta"
  let ?le = "lineEndFrom ?t (selectionStart ta)"
  note l = nextLineEnd_bounds [OF b(1) b(4)]
  let ?ta' = "setSelectionRange (?le + 1) (?le + 1) NoDirection
                (setValue (slice ?t 0 ?le @ [newline] @ sliceFrom ?t ?le) ta)"
  have "ta_inv ?ta'"
    using l length_slice_prefix [OF l(5) l(4)] by (intro ta_inv_caret_write [OF ti]) simp_all
  then have "wellformed (saveState s\<lparr>textarea := Some ?ta'\<rparr>)"
    by (intro wellformed_cong [OF i']) simp_all
  then show ?thesis
    using Some by (simp add: insertLineBelow_def getLineEnd_def Let_def wellformed_setMode)
qed

lemma wellformed_insertLineAbove:
  assumes i: "wellformed s"
  shows "wellformed (insertLineAbove s)"
proof (cases "textarea s")
  case None
  with i show ?thesis by (simp add: insertLineAbove_def wellformed_saveState)
next
  case (Some ta)
  note ti = wellformed_textareaD [OF i Some]
  note b = ta_invD [OF ti]
  note i' = wellformed_saveState [OF i]
  let ?t = "tvalue ta"
  let ?ls = "lineStartFrom ?t (selectionStart ta)"
  note l = nextLineEnd_bounds [OF b(1) b(4)]
  let ?ta' = "setSelectionRange ?ls ?ls NoDirection
                (setValue (slice ?t 0 ?ls @ [newline] @ sliceFrom ?t ?ls) ta)"
  have "ta_inv ?ta'"
    using l length_slice_prefix [OF l(1) l(2)] by (intro ta_inv_caret_write [OF ti]) simp_all
  then have "wellformed (saveState s\<lparr>textarea := Some ?ta'\<rparr>)"
    by (intro wellformed_cong [OF i']) simp_all
  then show ?thesis
    using Some by (simp add: insertLineAbove_def getLineStart_def Let_def wellformed_setMode)
qed

subsection \<open>The anchor of the Visual modes\<close>

lemma wellformed_setSelectionWithDirection:
  assumes i: "wellformed s" and t: "textarea s = Some ta"
    and "0 \<le> anchor" and "anchor \<le> int (length (tvalue ta))"
    and "0 \<le> active" and "active \<le> int (length (tvalue ta))"
  shows "wellformed (setSelectionWithDirection anchor active s)"
proof -
  have 1: "active < anchor \<Longrightarrow> wellformed (s\<lparr>textarea := Some (setSelectionRange active anchor Backward ta)\<rparr>)"
    using assms by (intro wellformed_select [OF i t]) simp_all
  have 2: "\<not> active < anchor \<Longrightarrow> wellformed (s\<lparr>textarea := Some (setSelectionRange anchor active Forward ta)\<rparr>)"
    using assms by (intro wellformed_select [OF i t]) simp_all
  show ?thesis using t 1 2 by (simp add: setSelectionWithDirection_def)
qed

lemma anchor_boundedD:
  "anchor_bounded s \<Longrightarrow> textarea s = Some ta \<Longrightarrow> ta_inv ta \<Longrightarrow>
   0 \<le> anchorOr s ta \<and> anchorOr s ta \<le> int (length (tvalue ta))"
  by (auto simp: anchor_bounded_def anchorOr_def ta_inv_def ta_ok_def split: option.splits)

lemma getVisualAnchorAndActive_bounds:
  assumes "anchor_bounded s" and "textarea s = Some ta" and "ta_inv ta"
    and "getVisualAnchorAndActive s = (anchor, active)"
  shows "0 \<le> anchor" and "anchor \<le> int (length (tvalue ta))"
    and "0 \<le> active" and "active \<le> int (length (tvalue ta))"
proof -
  note b = ta_invD [OF assms(3)]
  have a: "anchor = anchorOr s ta" using assms(2,4) by (simp add: getVisualAnchorAndActive_def Let_def)
  have "active = selectionStart ta \<or> active = selectionEnd ta"
    using assms(2,4) b by (auto simp: getVisualAnchorAndActive_def Let_def min_def max_def split: if_splits)
  then show "0 \<le> active" "active \<le> int (length (tvalue ta))" using b by auto
  show "0 \<le> anchor" "anchor \<le> int (length (tvalue ta))"
    using anchor_boundedD [OF assms(1-3)] a by simp_all
qed

lemma wellformed_extendSelectionLeft:
  assumes i: "wellformed s" and a: "anchor_bounded s"
  shows "wellformed (extendSelectionLeft s)"
proof (cases "textarea s")
  case None
  with i show ?thesis by (simp add: extendSelectionLeft_def)
next
  case (Some ta)
  note ti = wellformed_textareaD [OF i Some]
  obtain anchor active where g: "getVisualAnchorAndActive s = (anchor, active)" by fastforce
  note b = getVisualAnchorAndActive_bounds [OF a Some ti g]
  have "wellformed (setSelectionWithDirection anchor (max 0 (active - 1)) s)"
    using b by (intro wellformed_setSelectionWithDirection [OF i Some]) simp_all
  then show ?thesis using Some i g by (simp add: extendSelectionLeft_def Let_def)
qed

lemma wellformed_extendSelectionRight:
  assumes i: "wellformed s" and a: "anchor_bounded s"
  shows "wellformed (extendSelectionRight s)"
proof (cases "textarea s")
  case None
  with i show ?thesis by (simp add: extendSelectionRight_def)
next
  case (Some ta)
  note ti = wellformed_textareaD [OF i Some]
  obtain anchor active where g: "getVisualAnchorAndActive s = (anchor, active)" by fastforce
  note b = getVisualAnchorAndActive_bounds [OF a Some ti g]
  have "wellformed (setSelectionWithDirection anchor (min (int (length (tvalue ta))) (active + 1)) s)"
    using b by (intro wellformed_setSelectionWithDirection [OF i Some]) simp_all
  then show ?thesis using Some i g by (simp add: extendSelectionRight_def Let_def)
qed

lemma wellformed_extendSelectionUp:
  assumes i: "wellformed s" and a: "anchor_bounded s"
  shows "wellformed (extendSelectionUp s)"
proof (cases "textarea s")
  case None
  with i show ?thesis by (simp add: extendSelectionUp_def)
next
  case (Some ta)
  note ti = wellformed_textareaD [OF i Some]
  obtain anchor active where g: "getVisualAnchorAndActive s = (anchor, active)" by fastforce
  note b = getVisualAnchorAndActive_bounds [OF a Some ti g]
  let ?t = "tvalue ta"
  let ?ls = "lineStartFrom ?t active"
  let ?ps = "lineStartFrom ?t (?ls - 1)"
  let ?na = "?ps + max 0 (min (active - ?ls) (?ls - 1 - ?ps))"
  note l = nextLineEnd_bounds [OF b(3) b(4)]
  have ls: "?ls \<le> active" using lineStartFrom_le [of ?t active] .
  have na: "0 \<le> ?na \<and> ?na \<le> int (length ?t)" if "?ls \<noteq> 0"
  proof -
    from that l have pe: "0 \<le> ?ls - 1" by linarith
    have ps: "0 \<le> ?ps" "?ps \<le> ?ls - 1"
      using lineStartFrom_ge0 [OF pe, of ?t] lineStartFrom_le [of ?t "?ls - 1"] by simp_all
    show ?thesis using ps l ls b by (simp add: min_def max_def)
  qed
  have "wellformed (setSelectionWithDirection anchor ?na s)" if "?ls \<noteq> 0"
    using na [OF that] b by (intro wellformed_setSelectionWithDirection [OF i Some]) simp_all
  then show ?thesis using Some i g by (simp add: extendSelectionUp_def getLineStart_def Let_def)
qed

lemma wellformed_extendSelectionDown:
  assumes i: "wellformed s" and a: "anchor_bounded s"
  shows "wellformed (extendSelectionDown s)"
proof (cases "textarea s")
  case None
  with i show ?thesis by (simp add: extendSelectionDown_def)
next
  case (Some ta)
  note ti = wellformed_textareaD [OF i Some]
  obtain anchor active where g: "getVisualAnchorAndActive s = (anchor, active)" by fastforce
  note b = getVisualAnchorAndActive_bounds [OF a Some ti g]
  let ?t = "tvalue ta"
  let ?n = "int (length ?t)"
  let ?ls = "lineStartFrom ?t active"
  let ?le = "lineEndFrom ?t active"
  let ?ne = "lineEndFrom ?t (?le + 1)"
  let ?na = "?le + 1 + max 0 (min (active - ?ls) (?ne - (?le + 1)))"
  note l = nextLineEnd_bounds [OF b(3) b(4)]
  have ls: "?ls \<le> active" using lineStartFrom_le [of ?t active] .
  have na: "0 \<le> ?na \<and> ?na \<le> ?n" if "\<not> ?n \<le> ?le"
  proof -
    from that have ns: "?le + 1 \<le> ?n" by linarith
    have ne: "?le + 1 \<le> ?ne" "?ne \<le> ?n"
      using lineEndFrom_ge [of "?le + 1" ?t] lineEndFrom_le [OF ns] by simp_all
    show ?thesis using ne l ls b by (simp add: min_def max_def)
  qed
  have "wellformed (setSelectionWithDirection anchor ?na s)" if "\<not> ?n \<le> ?le"
    using na [OF that] b by (intro wellformed_setSelectionWithDirection [OF i Some]) simp_all
  then show ?thesis using Some i g
    by (simp add: extendSelectionDown_def getLineStart_def getLineEnd_def Let_def)
qed

lemma wellformed_extendSelectionUpLine:
  assumes i: "wellformed s" and a: "anchor_bounded s"
  shows "wellformed (extendSelectionUpLine s)"
proof (cases "textarea s")
  case None
  with i show ?thesis by (simp add: extendSelectionUpLine_def)
next
  case (Some ta)
  note ti = wellformed_textareaD [OF i Some]
  obtain anchor active where g: "getVisualAnchorAndActive s = (anchor, active)" by fastforce
  note b = getVisualAnchorAndActive_bounds [OF a Some ti g]
  let ?ls = "lineStartFrom (tvalue ta) active"
  note l = nextLineEnd_bounds [OF b(3) b(4)]
  have "wellformed (setSelectionWithDirection anchor (?ls - 1) s)" if "0 < ?ls"
    using that l b by (intro wellformed_setSelectionWithDirection [OF i Some]) simp_all
  then show ?thesis using Some i g by (simp add: extendSelectionUpLine_def getLineStart_def Let_def)
qed

lemma wellformed_extendSelectionDownLine:
  assumes i: "wellformed s" and a: "anchor_bounded s"
  shows "wellformed (extendSelectionDownLine s)"
proof (cases "textarea s")
  case None
  with i show ?thesis by (simp add: extendSelectionDownLine_def)
next
  case (Some ta)
  note ti = wellformed_textareaD [OF i Some]
  obtain anchor active where g: "getVisualAnchorAndActive s = (anchor, active)" by fastforce
  note b = getVisualAnchorAndActive_bounds [OF a Some ti g]
  let ?t = "tvalue ta"
  let ?n = "int (length ?t)"
  let ?le = "lineEndFrom ?t active"
  let ?ne = "lineEndFrom ?t (?le + 1)"
  note l = nextLineEnd_bounds [OF b(3) b(4)]
  have "wellformed (setSelectionWithDirection anchor ?ne s)" if "?le < ?n"
  proof -
    from that have ns: "?le + 1 \<le> ?n" by linarith
    have ne: "?le + 1 \<le> ?ne" "?ne \<le> ?n"
      using lineEndFrom_ge [of "?le + 1" ?t] lineEndFrom_le [OF ns] by simp_all
    show ?thesis
      using ne l b by (intro wellformed_setSelectionWithDirection [OF i Some]) simp_all
  qed
  then show ?thesis using Some i g by (simp add: extendSelectionDownLine_def getLineEnd_def Let_def)
qed

subsection \<open>Mode and anchor are left alone\<close>

lemma updateCursorAppearance_frame [simp]:
  "mode (updateCursorAppearance m s) = mode s"
  "visualStart (updateCursorAppearance m s) = visualStart s"
  by (simp_all add: updateCursorAppearance_def Let_def split: option.split)

lemma undo_frame [simp]:
  "mode (undo s) = mode s"
  "visualStart (undo s) = visualStart s"
  by (simp_all add: undo_def Let_def split: option.split)

lemma redo_frame [simp]:
  "mode (redo s) = mode s"
  "visualStart (redo s) = visualStart s"
  by (simp_all add: redo_def Let_def split: option.split)

lemma moveCursorLeft_frame [simp]:
  "mode (moveCursorLeft s) = mode s"
  "visualStart (moveCursorLeft s) = visualStart s"
  by (simp_all add: moveCursorLeft_def Let_def split: option.split)

lemma moveCursorRight_frame [simp]:
  "mode (moveCursorRight s) = mode s"
  "visualStart (moveCursorRight s) = visualStart s"
  by (simp_all add: moveCursorRight_def Let_def split: option.split)

lemma moveCursorUp_frame [simp]:
  "mode (moveCursorUp s) = mode s"
  "visualStart (moveCursorUp s) = visualStart s"
  by (simp_all add: moveCursorUp_def Let_def split: option.split)

lemma moveCursorDown_frame [simp]:
  "mode (moveCursorDown s) = mode s"
  "visualStart (moveCursorDown s) = visualStart s"
  by (simp_all add: moveCursorDown_def Let_def split: option.split)

lemma moveCursorToStart_frame [simp]:
  "mode (moveCursorToStart s) = mode s"
  "visualStart (moveCursorToStart s) = visualStart s"
  by (simp_all add: moveCursorToStart_def Let_def split: option.split)

lemma moveCursorToEnd_frame [simp]:
  "mode (moveCursorToEnd s) = mode s"
  "visualStart (moveCursorToEnd s) = visualStart s"
  by (simp_all add: moveCursorToEnd_def Let_def split: option.split)

lemma moveCursorToLineStart_frame [simp]:
  "mode (moveCursorToLineStart s) = mode s"
  "visualStart (moveCursorToLineStart s) = visualStart s"
  by (simp_all add: moveCursorToLineStart_def Let_def split: option.split)

lemma moveCursorToLineEnd_frame [simp]:
  "mode (moveCursorToLineEnd s) = mode s"
  "visualStart (moveCursorToLineEnd s) = visualStart s"
  by (simp_all add: moveCursorToLineEnd_def Let_def split: option.split)

lemma deleteCharAtCursor_frame [simp]:
  "mode (deleteCharAtCursor s) = mode s"
  "visualStart (deleteCharAtCursor s) = visualStart s"
  by (simp_all add: deleteCharAtCursor_def Let_def split: option.split)

lemma deleteCurrentLine_frame [simp]:
  "mode (deleteCurrentLine s) = mode s"
  "visualStart (deleteCurrentLine s) = visualStart s"
  by (simp_all add: deleteCurrentLine_def Let_def split: option.split)

lemma yankCurrentLine_frame [simp]:
  "mode (yankCurrentLine s) = mode s"
  "visualStart (yankCurrentLine s) = visualStart s"
  by (simp_all add: yankCurrentLine_def Let_def split: option.split)

lemma yankSelection_frame [simp]:
  "mode (yankSelection s) = mode s"
  "visualStart (yankSelection s) = visualStart s"
  by (simp_all add: yankSelection_def Let_def split: option.split)

lemma deleteSelection_frame [simp]:
  "mode (deleteSelection s) = mode s"
  "visualStart (deleteSelection s) = visualStart s"
  by (simp_all add: deleteSelection_def Let_def split: option.split)

lemma pasteAfterCursor_frame [simp]:
  "mode (pasteAfterCursor s) = mode s"
  "visualStart (pasteAfterCursor s) = visualStart s"
  by (simp_all add: pasteAfterCursor_def Let_def split: option.split)

lemma pasteBeforeCursor_frame [simp]:
  "mode (pasteBeforeCursor s) = mode s"
  "visualStart (pasteBeforeCursor s) = visualStart s"
  by (simp_all add: pasteBeforeCursor_def Let_def split: option.split)

lemma replaceSelectionWithYank_frame [simp]:
  "mode (replaceSelectionWithYank s) = mode s"
  "visualStart (replaceSelectionWithYank s) = visualStart s"
  by (simp_all add: replaceSelectionWithYank_def Let_def split: option.split)

lemma pasteAfterCursorResume_frame [simp]:
  "mode (pasteAfterCursorResume clip s) = mode s"
  "visualStart (pasteAfterCursorResume clip s) = visualStart s"
  by (simp_all add: pasteAfterCursorResume_def Let_def split: option.split)

lemma pasteBeforeCursorResume_frame [simp]:
  "mode (pasteBeforeCursorResume clip s) = mode s"
  "visualStart (pasteBeforeCursorResume clip s) = visualStart s"
  by (simp_all add: pasteBeforeCursorResume_def Let_def split: option.split)

lemma replaceSelectionWithYankResume_frame [simp]:
  "mode (replaceSelectionWithYankResume clip s) = mode s"
  "visualStart (replaceSelectionWithYankResume clip s) = visualStart s"
  by (simp_all add: replaceSelectionWithYankResume_def Let_def split: option.split)

lemma setSelectionWithDirection_frame [simp]:
  "mode (setSelectionWithDirection a b s) = mode s"
  "visualStart (setSelectionWithDirection a b s) = visualStart s"
  by (simp_all add: setSelectionWithDirection_def Let_def split: option.split)

lemma timerFired_frame [simp]:
  "mode (timerFired h s) = mode s"
  "visualStart (timerFired h s) = visualStart s"
  by (simp_all add: timerFired_def Let_def split: option.split)

lemma hostEdit_frame [simp]:
  "mode (hostEdit v a b s) = mode s"
  "visualStart (hostEdit v a b s) = visualStart s"
  by (simp_all add: hostEdit_def Let_def split: option.split)


lemma setMode_frame [simp]:
  "mode (setMode m s) = m"
  "visualStart (setMode m s) = visualStart s"
  by (simp_all add: setMode_def)

lemma clipboardResolved_frame [simp]:
  "mode (clipboardResolved clip s) = mode s"
  "visualStart (clipboardResolved clip s) = visualStart s"
  by (simp_all add: clipboardResolved_def Let_def split: list.split paste_kind.split)

lemma insertLine_frame [simp]:
  "visualStart (insertLineBelow s) = visualStart s"
  "visualStart (insertLineAbove s) = visualStart s"
  "\<not> inVisual s \<Longrightarrow> \<not> inVisual (insertLineBelow s)"
  "\<not> inVisual s \<Longrightarrow> \<not> inVisual (insertLineAbove s)"
  by (simp_all add: insertLineBelow_def insertLineAbove_def inVisual_def Let_def split: option.split)

lemma extendSelection_frame [simp]:
  "mode (extendSelectionLeft s) = mode s" "visualStart (extendSelectionLeft s) = visualStart s"
  "mode (extendSelectionRight s) = mode s" "visualStart (extendSelectionRight s) = visualStart s"
  "mode (extendSelectionUp s) = mode s" "visualStart (extendSelectionUp s) = visualStart s"
  "mode (extendSelectionDown s) = mode s" "visualStart (extendSelectionDown s) = visualStart s"
  "mode (extendSelectionUpLine s) = mode s" "visualStart (extendSelectionUpLine s) = visualStart s"
  "mode (extendSelectionDownLine s) = mode s" "visualStart (extendSelectionDownLine s) = visualStart s"
  by (simp_all add: extendSelectionLeft_def extendSelectionRight_def extendSelectionUp_def
        extendSelectionDown_def extendSelectionUpLine_def extendSelectionDownLine_def Let_def
        split: option.split prod.split)

subsection \<open>The key handlers\<close>

lemma not_inVisual_Normal [simp]: "mode s = Normal \<Longrightarrow> \<not> inVisual s"
  and not_inVisual_Insert [simp]: "mode s = Insert \<Longrightarrow> \<not> inVisual s"
  by (simp_all add: inVisual_def)

lemma wellformed_enter_Visual:
  assumes i: "wellformed s" and t: "textarea s = Some ta"
  shows "wellformed (s\<lparr>visualStart := x, textarea := Some
           (if selectionStart ta < int (length (tvalue ta))
            then setSelectionRange (selectionStart ta) (selectionStart ta + 1) Forward ta
            else if selectionStart ta > 0
            then setSelectionRange (selectionStart ta - 1) (selectionStart ta) Backward ta
            else setSelectionRange (selectionStart ta) (selectionStart ta) NoDirection ta),
           mode := m\<rparr>)"
proof -
  note ti = wellformed_textareaD [OF i t]
  note b = ta_invD [OF ti]
  let ?p = "selectionStart ta" and ?n = "int (length (tvalue ta))"
  define ta1 where "ta1 = (if ?p < ?n then setSelectionRange ?p (?p + 1) Forward ta
            else if ?p > 0 then setSelectionRange (?p - 1) ?p Backward ta
            else setSelectionRange ?p ?p NoDirection ta)"
  have 1: "?p < ?n \<Longrightarrow> ta_inv (setSelectionRange ?p (?p + 1) Forward ta)"
    using b by (intro ta_inv_setSelectionRange [OF ti]) linarith+
  have 2: "?p > 0 \<Longrightarrow> ta_inv (setSelectionRange (?p - 1) ?p Backward ta)"
    using b by (intro ta_inv_setSelectionRange [OF ti]) linarith+
  have 3: "ta_inv (setSelectionRange ?p ?p NoDirection ta)"
    using b by (intro ta_inv_setSelectionRange [OF ti]) linarith+
  have ti1: "ta_inv ta1" using 1 2 3 by (simp add: ta1_def)
  have "wellformed (s\<lparr>visualStart := x, textarea := Some ta1, mode := m\<rparr>)"
    by (rule wellformed_cong [OF i _ _ _ ti1]) simp_all
  then show ?thesis unfolding ta1_def .
qed

lemma wellformed_enter_VisualLine:
  assumes i: "wellformed s" and t: "textarea s = Some ta"
  shows "wellformed (s\<lparr>visualStart := x, textarea := Some
           (setSelectionRange (lineStartFrom (tvalue ta) (selectionStart ta))
              (lineEndFrom (tvalue ta) (selectionStart ta)) NoDirection ta),
           mode := m\<rparr>)"
proof -
  note ti = wellformed_textareaD [OF i t]
  note b = ta_invD [OF ti]
  note l = nextLineEnd_bounds [OF b(1) b(4)]
  have "ta_inv (setSelectionRange (lineStartFrom (tvalue ta) (selectionStart ta))
              (lineEndFrom (tvalue ta) (selectionStart ta)) NoDirection ta)"
    using l by (intro ta_inv_setSelectionRange [OF ti]) simp_all
  then show ?thesis
    by (intro wellformed_cong [OF i]) simp_all
qed

lemma wellformed_normalKey:
  assumes i: "wellformed s" and t: "textarea s = Some ta"
  shows "wellformed (snd (normalKey k c sh ta s))"
  using i wellformed_enter_Visual [OF i t] wellformed_enter_VisualLine [OF i t] t
  by (simp add: normalKey_def Let_def getLineStart_def getLineEnd_def
        wellformed_setMode wellformed_moveCursorToLineStart wellformed_moveCursorRight wellformed_moveCursorToLineEnd
        wellformed_insertLineBelow wellformed_insertLineAbove wellformed_moveCursorLeft wellformed_moveCursorDown
        wellformed_moveCursorUp wellformed_moveCursorToEnd wellformed_deleteCharAtCursor wellformed_undo wellformed_redo
        wellformed_paste wellformed_setPendingKey)

lemma wellformed_handleNormalMode:
  assumes i: "wellformed s"
  shows "wellformed (snd (handleNormalMode k c sh s))"
proof (cases "textarea s")
  case None
  with i show ?thesis by (simp add: handleNormalMode_def)
next
  case (Some ta)
  note nk = wellformed_normalKey [OF i Some]
  note ic = wellformed_clearPendingKey [OF i]
  show ?thesis
    using Some nk ic i
    by (simp add: handleNormalMode_def Let_def wellformed_moveCursorToStart wellformed_deleteCurrentLine
          wellformed_yankCurrentLine split: option.split)
qed

lemma wellformed_handleInsertMode: "wellformed s \<Longrightarrow> wellformed (snd (handleInsertMode k c sh s))"
  by (simp add: handleInsertMode_def wellformed_moveCursorLeft wellformed_setMode wellformed_saveState)

lemma anchor_bounded_fields [simp]:
  "anchor_bounded (s\<lparr>enabled := x1\<rparr>) = anchor_bounded s"
  "anchor_bounded (s\<lparr>mode := x2\<rparr>) = anchor_bounded s"
  "anchor_bounded (s\<lparr>yankBuffer := x3\<rparr>) = anchor_bounded s"
  "anchor_bounded (s\<lparr>pendingKey := x5\<rparr>) = anchor_bounded s"
  "anchor_bounded (s\<lparr>pendingKeyTimeout := x6\<rparr>) = anchor_bounded s"
  "anchor_bounded (s\<lparr>timers := x7\<rparr>) = anchor_bounded s"
  "anchor_bounded (s\<lparr>nextTimer := x8\<rparr>) = anchor_bounded s"
  "anchor_bounded (s\<lparr>clipboardReads := x9\<rparr>) = anchor_bounded s"
  "anchor_bounded (s\<lparr>undoStack := y1\<rparr>) = anchor_bounded s"
  "anchor_bounded (s\<lparr>redoStack := y2\<rparr>) = anchor_bounded s"
  by (simp_all add: anchor_bounded_def split: option.split)

lemma anchor_bounded_clearPendingKey [simp]: "anchor_bounded (clearPendingKey s) = anchor_bounded s"
  by (simp add: anchor_bounded_def split: option.split)

lemma ta_inv_collapse:
  "ta_inv ta \<Longrightarrow> ta_inv (setSelectionRange (selectionStart ta) (selectionStart ta) d ta)"
  by (intro ta_inv_setSelectionRange) (simp_all add: ta_invD)

lemma wellformed_visualKey:
  assumes i: "wellformed s" and t: "textarea s = Some ta" and a: "anchor_bounded s"
  shows "wellformed (snd (visualKey k ta s))"
proof -
  note ti = wellformed_textareaD [OF i t]
  note b = ta_invD [OF ti]
  note ab = anchor_boundedD [OF a t ti]
  let ?n = "int (length (tvalue ta))"
  have le: "lineEndFrom (tvalue ta) ?n = ?n"
    by (rule lineEndFrom_stop) simp
  have G: "wellformed (setSelectionWithDirection (anchorOr s ta) ?n s)"
    using ab by (intro wellformed_setSelectionWithDirection [OF i t]) simp_all
  have y: "wellformed (yankSelection s\<lparr>textarea := Some
              (setSelectionRange (selectionStart ta) (selectionStart ta) NoDirection ta), visualStart := None\<rparr>)"
    by (rule wellformed_cong [OF i _ _ _ ta_inv_collapse [OF ti]]) (simp_all add: yankSelection_def t)
  have ty: "textarea (yankSelection s) = Some ta" using t by (simp add: yankSelection_def)
  show ?thesis
    using i a t G y ty
    by (simp add: visualKey_def Let_def getLineEnd_def le wellformed_setPendingKey wellformed_setMode
          wellformed_deleteSelection wellformed_paste wellformed_extendSelectionLeft wellformed_extendSelectionRight
          wellformed_extendSelectionDownLine wellformed_extendSelectionDown wellformed_extendSelectionUpLine
          wellformed_extendSelectionUp)
qed

lemma wellformed_handleVisualMode:
  assumes i: "wellformed s" and a: "anchor_bounded s"
  shows "wellformed (snd (handleVisualMode k c sh s))"
proof (cases "textarea s")
  case None
  with i show ?thesis by (simp add: handleVisualMode_def)
next
  case (Some ta)
  note ti = wellformed_textareaD [OF i Some]
  note b = ta_invD [OF ti]
  note ab = anchor_boundedD [OF a Some ti]
  let ?s1 = "clearPendingKey s"
  have i1: "wellformed ?s1" using i by (rule wellformed_clearPendingKey)
  have t1: "textarea ?s1 = Some ta" using Some by simp
  have a1: "anchor_bounded ?s1" using a by simp
  have ao: "anchorOr ?s1 ta = anchorOr s ta" by (simp add: anchorOr_def)
  have esc: "wellformed (setMode Normal (s\<lparr>textarea := Some
        (setSelectionRange (selectionStart ta) (selectionStart ta) NoDirection ta), visualStart := None\<rparr>))"
    by (intro wellformed_setMode, rule wellformed_cong [OF i _ _ _ ta_inv_collapse [OF ti]]) simp_all
  have gg: "wellformed (setSelectionWithDirection (anchorOr ?s1 ta) 0 ?s1)"
    unfolding ao using ab by (intro wellformed_setSelectionWithDirection [OF i1 t1]) simp_all
  show ?thesis
    using Some esc gg wellformed_visualKey [OF i Some a] wellformed_visualKey [OF i1 t1 a1]
    by (simp add: handleVisualMode_def Let_def split: option.split)
qed

lemma wellformed_handleKeyDown:
  assumes "engine_inv s"
  shows "wellformed (snd (handleKeyDown ev s))"
  using assms
  by (auto simp: handleKeyDown_def engine_inv_def inVisual_def wellformed_handleNormalMode wellformed_handleInsertMode
        wellformed_handleVisualMode split: VimMode.split)

subsection \<open>Events\<close>

lemma normalKey_stays_out_of_Visual:
  "mode s = Normal \<Longrightarrow> k \<noteq> ''v'' \<Longrightarrow> k \<noteq> ''V'' \<Longrightarrow> \<not> inVisual (snd (normalKey k c sh ta s))"
  by (simp add: normalKey_def inVisual_def Let_def insertLineBelow_def insertLineAbove_def
        split: option.split)

lemma normalKey_v:
  "normalKey ''v'' c sh ta s =
     (True, (s\<lparr>visualStart := Some (selectionStart ta), textarea := Some
           (if selectionStart ta < int (length (tvalue ta))
            then setSelectionRange (selectionStart ta) (selectionStart ta + 1) Forward ta
            else if selectionStart ta > 0
            then setSelectionRange (selectionStart ta - 1) (selectionStart ta) Backward ta
            else setSelectionRange (selectionStart ta) (selectionStart ta) NoDirection ta),
           mode := Visual\<rparr>))"
  by (simp add: normalKey_def Let_def)

lemma normalKey_V:
  "textarea s = Some ta \<Longrightarrow>
   normalKey ''V'' c sh ta s =
     (True, (s\<lparr>visualStart := Some (lineStartFrom (tvalue ta) (selectionStart ta)), textarea := Some
           (setSelectionRange (lineStartFrom (tvalue ta) (selectionStart ta))
              (lineEndFrom (tvalue ta) (selectionStart ta)) NoDirection ta),
           mode := VisualLine\<rparr>))"
  by (simp add: normalKey_def Let_def getLineStart_def getLineEnd_def)

lemma normalKey_enters_Visual:
  assumes "textarea s = Some ta" and "ta_inv ta" and "k = ''v'' \<or> k = ''V''"
  shows "fst (normalKey k c sh ta s) \<and> anchor_bounded (snd (normalKey k c sh ta s))"
proof -
  note b = ta_invD [OF assms(2)]
  note l = nextLineEnd_bounds [OF b(1) b(4)]
  from assms(3) show ?thesis
  proof
    assume "k = ''v''"
    then show ?thesis using b by (simp add: normalKey_v anchor_bounded_def)
  next
    assume "k = ''V''"
    then show ?thesis using l by (simp add: normalKey_V [OF assms(1)] anchor_bounded_def)
  qed
qed

lemma handleNormalMode_visual:
  assumes "mode s = Normal" and "wellformed s" and "inVisual (snd (handleNormalMode k c sh s))"
  shows "fst (handleNormalMode k c sh s) \<and> anchor_bounded (snd (handleNormalMode k c sh s))"
proof (cases "textarea s")
  case None
  with assms show ?thesis by (simp add: handleNormalMode_def)
next
  case (Some ta)
  note ti = wellformed_textareaD [OF assms(2) Some]
  have p: "\<not> inVisual (moveCursorToStart (clearPendingKey s))"
    "\<not> inVisual (deleteCurrentLine (clearPendingKey s))"
    "\<not> inVisual (yankCurrentLine (clearPendingKey s))"
    "\<not> inVisual (clearPendingKey s)"
    using assms(1) by (simp_all add: inVisual_def)
  show ?thesis
  proof (cases "truthy (pendingKey s)")
    case True
    then obtain pk where "pendingKey s = Some pk" by (auto simp: truthy_def split: option.splits)
    with True assms(3) Some p show ?thesis
      by (auto simp: handleNormalMode_def Let_def split: if_splits)
  next
    case False
    then have h: "handleNormalMode k c sh s = normalKey k c sh ta s"
      using Some by (rule handleNormalMode_no_pending)
    show ?thesis
      using assms(3) normalKey_stays_out_of_Visual [OF assms(1), of k c sh ta]
        normalKey_enters_Visual [OF Some ti, of k c sh]
      unfolding h by blast
  qed
qed

lemma handleInsertMode_not_visual:
  "mode s = Insert \<Longrightarrow> \<not> inVisual (snd (handleInsertMode k c sh s))"
  by (simp add: handleInsertMode_def inVisual_def)

lemma visualKey_frame:
  "inVisual (snd (visualKey k ta s)) \<Longrightarrow> visualStart (snd (visualKey k ta s)) = visualStart s"
  by (simp add: visualKey_def Let_def inVisual_def split: if_splits option.splits)

lemma handleVisualMode_frame:
  "inVisual (snd (handleVisualMode k c sh s)) \<Longrightarrow>
   visualStart (snd (handleVisualMode k c sh s)) = visualStart s"
  using visualKey_frame [of k _ s] visualKey_frame [of k _ "clearPendingKey s"]
  by (auto simp: handleVisualMode_def Let_def inVisual_def split: option.splits if_splits)

lemma handleKeyDown_visual:
  assumes "wellformed s" and "inVisual (snd (handleKeyDown ev s))"
  shows "(inVisual s \<and> visualStart (snd (handleKeyDown ev s)) = visualStart s)
       \<or> (fst (handleKeyDown ev s) \<and> anchor_bounded (snd (handleKeyDown ev s)))"
proof (cases "enabled s")
  case False
  with assms show ?thesis by (simp add: handleKeyDown_def)
next
  case True
  show ?thesis
  proof (cases "mode s")
    case Normal
    with True assms handleNormalMode_visual [OF Normal assms(1), of "key ev" "ctrlKey ev" "shiftKey ev"]
    show ?thesis by (simp add: handleKeyDown_def)
  next
    case Insert
    with True assms handleInsertMode_not_visual [OF Insert, of "key ev" "ctrlKey ev" "shiftKey ev"]
    show ?thesis by (simp add: handleKeyDown_def)
  next
    case Visual
    with True assms handleVisualMode_frame [of "key ev" "ctrlKey ev" "shiftKey ev" s]
    show ?thesis by (simp add: handleKeyDown_def inVisual_def)
  next
    case VisualLine
    with True assms handleVisualMode_frame [of "key ev" "ctrlKey ev" "shiftKey ev" s]
    show ?thesis by (simp add: handleKeyDown_def inVisual_def)
  qed
qed

lemma ta_inv_nativeInsert:
  assumes "ta_inv ta"
  shows "ta_inv (nativeInsert t ta)"
proof -
  note b = ta_invD [OF assms]
  have "int (length (slice (tvalue ta) 0 (selectionStart ta))) = selectionStart ta"
    using b by (intro length_slice_prefix) simp_all
  then show ?thesis
    using assms b by (simp add: nativeInsert_def ta_inv_def ta_ok_def)
qed

lemma wellformed_keyDown:
  assumes "engine_inv s"
  shows "wellformed (keyDown ev s)"
proof -
  have i: "wellformed s" using assms by (simp add: engine_inv_def)
  have 1: "wellformed (snd (handleKeyDown ev s))" using assms by (rule wellformed_handleKeyDown)
  have n: "wellformed (x\<lparr>textarea := Some (nativeInsert t ta)\<rparr>)" if "wellformed x" "textarea x = Some ta" for x t ta
    using that by (intro wellformed_textarea_update ta_inv_nativeInsert) (auto dest: wellformed_textareaD)
  show ?thesis
    using i 1 n
    by (auto simp: keyDown_def Let_def split: option.split prod.split)
qed

lemma keyDown_visual:
  assumes "wellformed s" and "inVisual (keyDown ev s)"
  shows "(inVisual s \<and> visualStart (keyDown ev s) = visualStart s) \<or> anchor_bounded (keyDown ev s)"
  using assms handleKeyDown_visual [OF assms(1), of ev]
  by (auto simp: keyDown_def Let_def inVisual_def split: option.splits prod.splits if_splits)

lemma wellformed_hostEdit: "wellformed s \<Longrightarrow> wellformed (hostEdit v a b s)"
  by (auto simp: hostEdit_def wellformed_def ta_inv_def ta_ok_def clampPos_def Let_def split: option.split)

lemma wellformed_setEnabled: "wellformed s \<Longrightarrow> wellformed (setEnabled b s)"
  by (simp add: setEnabled_def Let_def wellformed_saveState wellformed_setMode)

lemma setEnabled_not_visual: "\<not> inVisual (setEnabled b s)"
  by (simp add: setEnabled_def Let_def inVisual_def)

lemma wellformed_step: "engine_inv s \<Longrightarrow> wellformed (step e s)"
  by (cases e) (simp_all add: wellformed_keyDown wellformed_clipboardResolved wellformed_timerFired wellformed_setEnabled
      wellformed_hostEdit engine_inv_def)

lemma step_visual:
  assumes "wellformed s" and "inVisual (step e s)"
  shows "(inVisual s \<and> visualStart (step e s) = visualStart s) \<or> anchor_bounded (step e s)"
proof (cases e)
  case (KeyDown ev)
  with assms keyDown_visual [OF assms(1), of ev] show ?thesis by simp
next
  case (SetEnabled b)
  with assms setEnabled_not_visual [of b s] show ?thesis by simp
qed (use assms in \<open>simp_all add: inVisual_def\<close>)

lemma anchor_bounded_cong:
  "visualStart s' = visualStart s \<Longrightarrow> buffer s' = buffer s \<Longrightarrow> anchor_bounded s \<Longrightarrow> anchor_bounded s'"
  by (auto simp: anchor_bounded_def buffer_def split: option.splits)

lemma engine_inv_step:
  assumes "engine_inv s" and "inVisual s \<and> inVisual (step e s) \<longrightarrow> buffer (step e s) = buffer s"
  shows "engine_inv (step e s)"
proof -
  have i: "wellformed s" and a: "inVisual s \<longrightarrow> anchor_bounded s" using assms(1) by (simp_all add: engine_inv_def)
  have "anchor_bounded (step e s)" if v: "inVisual (step e s)"
    using step_visual [OF i v] assms(2) v a anchor_bounded_cong [of "step e s" s] by blast
  then show ?thesis using wellformed_step [OF assms(1)] by (simp add: engine_inv_def)
qed

lemma engine_inv_run: "engine_inv s \<Longrightarrow> guarded es s \<Longrightarrow> engine_inv (run es s)"
proof (induction es arbitrary: s)
  case Nil
  then show ?case by simp
next
  case (Cons e es)
  from Cons.prems have "engine_inv (step e s)" by (intro engine_inv_step) simp_all
  with Cons show ?case by simp
qed

lemma wellformed_initial: "ta_inv ta \<Longrightarrow> wellformed (initial (Some ta))"
  by (simp add: initial_def wellformed_def)

lemma engine_inv_initial: "ta_inv ta \<Longrightarrow> engine_inv (initial (Some ta))"
  by (simp add: engine_inv_def wellformed_initial) (simp add: initial_def inVisual_def)

subsection \<open>The selection stays within the text\<close>

lemma selection_ok_textarea [simp]:
  "selection_ok (s\<lparr>textarea := Some (setSelectionRange a b d ta)\<rparr>)"
  by (simp add: selection_ok_def)

lemma selection_ok_fields [simp]:
  "selection_ok (s\<lparr>enabled := x1\<rparr>) = selection_ok s"
  "selection_ok (s\<lparr>mode := x2\<rparr>) = selection_ok s"
  "selection_ok (s\<lparr>yankBuffer := x3\<rparr>) = selection_ok s"
  "selection_ok (s\<lparr>visualStart := x4\<rparr>) = selection_ok s"
  "selection_ok (s\<lparr>pendingKey := x5\<rparr>) = selection_ok s"
  "selection_ok (s\<lparr>pendingKeyTimeout := x6\<rparr>) = selection_ok s"
  "selection_ok (s\<lparr>timers := x7\<rparr>) = selection_ok s"
  "selection_ok (s\<lparr>nextTimer := x8\<rparr>) = selection_ok s"
  "selection_ok (s\<lparr>clipboardReads := x9\<rparr>) = selection_ok s"
  "selection_ok (s\<lparr>undoStack := y1\<rparr>) = selection_ok s"
  "selection_ok (s\<lparr>redoStack := y2\<rparr>) = selection_ok s"
  by (simp_all add: selection_ok_def)

lemma selection_ok_updateCursorAppearance: "selection_ok s \<Longrightarrow> selection_ok (updateCursorAppearance m s)"
  by (auto simp add: selection_ok_def updateCursorAppearance_def Let_def split: option.splits)

lemma selection_ok_moveCursorLeft: "selection_ok s \<Longrightarrow> selection_ok (moveCursorLeft s)"
  by (auto simp add: moveCursorLeft_def Let_def split: option.split intro!: selection_ok_updateCursorAppearance)

lemma selection_ok_moveCursorRight: "selection_ok s \<Longrightarrow> selection_ok (moveCursorRight s)"
  by (auto simp add: moveCursorRight_def Let_def split: option.split intro!: selection_ok_updateCursorAppearance)

lemma selection_ok_moveCursorUp: "selection_ok s \<Longrightarrow> selection_ok (moveCursorUp s)"
  by (auto simp add: moveCursorUp_def Let_def split: option.split intro!: selection_ok_updateCursorAppearance)

lemma selection_ok_moveCursorDown: "selection_ok s \<Longrightarrow> selection_ok (moveCursorDown s)"
  by (auto simp add: moveCursorDown_def Let_def split: option.split intro!: selection_ok_updateCursorAppearance)

lemma selection_ok_moveCursorToStart: "selection_ok s \<Longrightarrow> selection_ok (moveCursorToStart s)"
  by (auto simp add: moveCursorToStart_def Let_def split: option.split intro!: selection_ok_updateCursorAppearance)

lemma selection_ok_moveCursorToEnd: "selection_ok s \<Longrightarrow> selection_ok (moveCursorToEnd s)"
  by (auto simp add: moveCursorToEnd_def Let_def split: option.split intro!: selection_ok_updateCursorAppearance)

lemma selection_ok_moveCursorToLineStart: "selection_ok s \<Longrightarrow> selection_ok (moveCursorToLineStart s)"
  by (auto simp add: moveCursorToLineStart_def Let_def split: option.split intro!: selection_ok_updateCursorAppearance)

lemma selection_ok_moveCursorToLineEnd: "selection_ok s \<Longrightarrow> selection_ok (moveCursorToLineEnd s)"
  by (auto simp add: moveCursorToLineEnd_def Let_def split: option.split intro!: selection_ok_updateCursorAppearance)

lemma selection_ok_undo: "selection_ok s \<Longrightarrow> selection_ok (undo s)"
  by (auto simp add: selection_ok_def undo_def Let_def split: option.splits)

lemma selection_ok_redo: "selection_ok s \<Longrightarrow> selection_ok (redo s)"
  by (auto simp add: selection_ok_def redo_def Let_def split: option.splits)

lemma selection_ok_deleteCharAtCursor: "selection_ok s \<Longrightarrow> selection_ok (deleteCharAtCursor s)"
  by (auto simp add: selection_ok_def deleteCharAtCursor_def Let_def split: option.splits)

lemma selection_ok_deleteCurrentLine: "selection_ok s \<Longrightarrow> selection_ok (deleteCurrentLine s)"
  by (auto simp add: selection_ok_def deleteCurrentLine_def Let_def split: option.splits)

lemma selection_ok_yankCurrentLine: "selection_ok s \<Longrightarrow> selection_ok (yankCurrentLine s)"
  by (auto simp add: selection_ok_def yankCurrentLine_def Let_def split: option.splits)

lemma selection_ok_yankSelection: "selection_ok s \<Longrightarrow> selection_ok (yankSelection s)"
  by (auto simp add: selection_ok_def yankSelection_def Let_def split: option.splits)

lemma selection_ok_deleteSelection: "selection_ok s \<Longrightarrow> selection_ok (deleteSelection s)"
  by (auto simp add: selection_ok_def deleteSelection_def Let_def split: option.splits)

lemma selection_ok_pasteAfterCursor: "selection_ok s \<Longrightarrow> selection_ok (pasteAfterCursor s)"
  by (auto simp add: selection_ok_def pasteAfterCursor_def Let_def split: option.splits)

lemma selection_ok_pasteBeforeCursor: "selection_ok s \<Longrightarrow> selection_ok (pasteBeforeCursor s)"
  by (auto simp add: selection_ok_def pasteBeforeCursor_def Let_def split: option.splits)

lemma selection_ok_replaceSelectionWithYank: "selection_ok s \<Longrightarrow> selection_ok (replaceSelectionWithYank s)"
  by (auto simp add: selection_ok_def replaceSelectionWithYank_def Let_def split: option.splits)

lemma selection_ok_pasteAfterCursorResume: "selection_ok s \<Longrightarrow> selection_ok (pasteAfterCursorResume clip s)"
  by (auto simp add: selection_ok_def pasteAfterCursorResume_def Let_def split: option.splits)

lemma selection_ok_pasteBeforeCursorResume: "selection_ok s \<Longrightarrow> selection_ok (pasteBeforeCursorResume clip s)"
  by (auto simp add: selection_ok_def pasteBeforeCursorResume_def Let_def split: option.splits)

lemma selection_ok_replaceSelectionWithYankResume: "selection_ok s \<Longrightarrow> selection_ok (replaceSelectionWithYankResume clip s)"
  by (auto simp add: selection_ok_def replaceSelectionWithYankResume_def Let_def split: option.splits)

lemma selection_ok_setSelectionWithDirection: "selection_ok s \<Longrightarrow> selection_ok (setSelectionWithDirection a b s)"
  by (auto simp add: selection_ok_def setSelectionWithDirection_def Let_def split: option.splits)

lemma selection_ok_timerFired: "selection_ok s \<Longrightarrow> selection_ok (timerFired h s)"
  by (auto simp add: selection_ok_def timerFired_def Let_def split: option.splits)

lemma selection_ok_setPendingKey: "selection_ok s \<Longrightarrow> selection_ok (setPendingKey k s)"
  by (auto simp add: selection_ok_def  Let_def split: option.splits)

lemma selection_ok_clearPendingKey: "selection_ok s \<Longrightarrow> selection_ok (clearPendingKey s)"
  by (auto simp add: selection_ok_def  Let_def split: option.splits)

lemma selection_ok_saveState: "selection_ok s \<Longrightarrow> selection_ok (saveState s)"
  by (auto simp add: selection_ok_def  Let_def split: option.splits)


lemma selection_ok_setMode: "selection_ok s \<Longrightarrow> selection_ok (setMode m s)"
  by (simp add: setMode_def selection_ok_updateCursorAppearance)

lemma selection_ok_clipboardResolved: "selection_ok s \<Longrightarrow> selection_ok (clipboardResolved clip s)"
  by (auto simp: clipboardResolved_def Let_def selection_ok_pasteAfterCursorResume
        selection_ok_pasteBeforeCursorResume selection_ok_replaceSelectionWithYankResume
        split: list.split paste_kind.split)

lemma selection_ok_insertLine:
  "selection_ok s \<Longrightarrow> selection_ok (insertLineBelow s)"
  "selection_ok s \<Longrightarrow> selection_ok (insertLineAbove s)"
  by (simp_all add: insertLineBelow_def insertLineAbove_def Let_def selection_ok_setMode
        selection_ok_saveState split: option.split)

lemma selection_ok_extend:
  "selection_ok s \<Longrightarrow> selection_ok (extendSelectionLeft s)"
  "selection_ok s \<Longrightarrow> selection_ok (extendSelectionRight s)"
  "selection_ok s \<Longrightarrow> selection_ok (extendSelectionUp s)"
  "selection_ok s \<Longrightarrow> selection_ok (extendSelectionDown s)"
  "selection_ok s \<Longrightarrow> selection_ok (extendSelectionUpLine s)"
  "selection_ok s \<Longrightarrow> selection_ok (extendSelectionDownLine s)"
  by (simp_all add: extendSelectionLeft_def extendSelectionRight_def extendSelectionUp_def
        extendSelectionDown_def extendSelectionUpLine_def extendSelectionDownLine_def Let_def
        selection_ok_setSelectionWithDirection split: option.split prod.split)

lemma selection_ok_normalKey:
  "selection_ok s \<Longrightarrow> selection_ok (snd (normalKey k c sh ta s))"
  by (simp add: normalKey_def Let_def selection_ok_setMode selection_ok_moveCursorToLineStart
        selection_ok_moveCursorRight selection_ok_moveCursorToLineEnd selection_ok_insertLine
        selection_ok_moveCursorLeft selection_ok_moveCursorDown selection_ok_moveCursorUp
        selection_ok_moveCursorToEnd selection_ok_deleteCharAtCursor selection_ok_undo
        selection_ok_redo selection_ok_pasteAfterCursor selection_ok_pasteBeforeCursor
        selection_ok_setPendingKey)

lemma selection_ok_handleNormalMode:
  "selection_ok s \<Longrightarrow> selection_ok (snd (handleNormalMode k c sh s))"
  using selection_ok_clearPendingKey [of s]
  by (simp add: handleNormalMode_def Let_def selection_ok_normalKey selection_ok_moveCursorToStart
        selection_ok_deleteCurrentLine selection_ok_yankCurrentLine split: option.split)

lemma selection_ok_handleInsertMode:
  "selection_ok s \<Longrightarrow> selection_ok (snd (handleInsertMode k c sh s))"
  by (simp add: handleInsertMode_def selection_ok_moveCursorLeft selection_ok_setMode
        selection_ok_saveState)

lemma selection_ok_visualKey:
  "selection_ok s \<Longrightarrow> selection_ok (snd (visualKey k ta s))"
  by (simp add: visualKey_def Let_def selection_ok_setPendingKey selection_ok_setSelectionWithDirection
        selection_ok_yankSelection
        selection_ok_setMode selection_ok_deleteSelection selection_ok_replaceSelectionWithYank
        selection_ok_extend split: option.split)

lemma selection_ok_handleVisualMode:
  "selection_ok s \<Longrightarrow> selection_ok (snd (handleVisualMode k c sh s))"
  using selection_ok_clearPendingKey [of s]
  by (simp add: handleVisualMode_def Let_def selection_ok_visualKey selection_ok_setMode
        selection_ok_setSelectionWithDirection split: option.split)

lemma selection_ok_handleKeyDown:
  "selection_ok s \<Longrightarrow> selection_ok (snd (handleKeyDown ev s))"
  by (simp add: handleKeyDown_def selection_ok_handleNormalMode selection_ok_handleInsertMode
        selection_ok_handleVisualMode split: VimMode.split)

lemma ta_ok_nativeInsert: "ta_ok ta \<Longrightarrow> ta_ok (nativeInsert t ta)"
proof -
  assume a: "ta_ok ta"
  then have "int (length (slice (tvalue ta) 0 (selectionStart ta))) = selectionStart ta"
    by (intro length_slice_prefix) (simp_all add: ta_ok_def)
  with a show ?thesis by (simp add: nativeInsert_def ta_ok_def)
qed

lemma selection_ok_keyDown: "selection_ok s \<Longrightarrow> selection_ok (keyDown ev s)"
  using selection_ok_handleKeyDown [of s ev]
  by (auto simp: keyDown_def Let_def selection_ok_def ta_ok_nativeInsert split: option.splits prod.splits)

lemma selection_ok_hostEdit: "selection_ok (hostEdit v a b s)"
  by (simp add: hostEdit_def selection_ok_def ta_ok_def clampPos_def Let_def split: option.split)

lemma selection_ok_setEnabled: "selection_ok s \<Longrightarrow> selection_ok (setEnabled b s)"
  by (simp add: setEnabled_def Let_def selection_ok_saveState selection_ok_setMode)

lemma selection_ok_step: "selection_ok s \<Longrightarrow> selection_ok (step e s)"
  by (cases e) (simp_all add: selection_ok_keyDown selection_ok_clipboardResolved
      selection_ok_timerFired selection_ok_setEnabled selection_ok_hostEdit)

lemma selection_ok_run: "selection_ok s \<Longrightarrow> selection_ok (run es s)"
  by (induction es arbitrary: s) (simp_all add: selection_ok_step)

subsection \<open>C2: the selection and the calls that set it\<close>

lemma selection_ok_initial: "ta_ok ta \<Longrightarrow> selection_ok (initial (Some ta))"
  by (simp add: selection_ok_def initial_def)

text \<open>
  Claim C2, as amended. From a fresh engine on a textarea whose selection lies within
  its text, after every sequence of events (keys through the host's key-down listener,
  clipboard reads that resolve, the timer, enabling and disabling, host edits) the
  selection satisfies \<open>0 \<le> selectionStart \<le> selectionEnd \<le> length of the buffer\<close>.
  Every call the engine has made to \<^verbatim>\<open>setSelectionRange\<close> passed arguments within
  these bounds, the lower not above the upper, provided the text of the buffer was never
  changed while the engine stayed in Visual or Visual-Line mode.
\<close>

theorem selection_within_bounds:
  assumes "ta_ok ta" and "calls ta = []"
  shows "selection_ok (run es (initial (Some ta)))
       \<and> (guarded es (initial (Some ta)) \<longrightarrow>
            list_all inBounds (selectionCalls (run es (initial (Some ta)))))"
proof (intro conjI impI)
  show "selection_ok (run es (initial (Some ta)))"
    using assms(1) by (intro selection_ok_run selection_ok_initial)
next
  have "ta_inv ta" using assms by (simp add: ta_inv_def)
  moreover assume "guarded es (initial (Some ta))"
  ultimately have "engine_inv (run es (initial (Some ta)))"
    by (intro engine_inv_run engine_inv_initial)
  then show "list_all inBounds (selectionCalls (run es (initial (Some ta))))"
    by (auto simp: engine_inv_def wellformed_def ta_inv_def selectionCalls_def split: option.splits)
qed

theorem selection_within_bounds_witness:
  "selection_ok (run visualEditTrace (initial (Some (mkTextarea ''abcd'' 3 3))))
   \<and> guarded visualTrace (initial (Some (mkTextarea ''abcd'' 3 3)))
   \<and> list_all inBounds (selectionCalls (run visualTrace (initial (Some (mkTextarea ''abcd'' 3 3)))))"
proof -
  have 1: "ta_ok (mkTextarea ''abcd'' 3 3)" by (simp add: ta_ok_def mkTextarea_def)
  have 2: "calls (mkTextarea ''abcd'' 3 3) = []" by (simp add: mkTextarea_def)
  have g: "guarded visualTrace (initial (Some (mkTextarea ''abcd'' 3 3)))" by code_simp
  show ?thesis
    using selection_within_bounds [OF 1 2, of visualEditTrace]
      selection_within_bounds [OF 1 2, of visualTrace] g
    by simp
qed

text \<open>
  The part of the claim about the arguments fails as stated. The Visual modes leave
  most keys unhandled, so the host types them: with \<open>abcd\<close> and the anchor at 3, the
  selection extended left to \<open>[0, 3)\<close> and then \<open>x\<close> typed over it, the buffer is
  \<open>xd\<close> while the anchor is still 3, and the next \<open>h\<close> calls
  \<^verbatim>\<open>setSelectionRange(0, 3)\<close> on a text of length 2. A clipboard read that resolves
  late does the same without the host typing anything: the paste of a Visual \<open>p\<close>
  shortens \<open>abcdef\<close> to \<open>Xf\<close> under a new Visual selection anchored at 5, and the
  next \<open>l\<close> calls \<^verbatim>\<open>setSelectionRange(1, 5)\<close>.
\<close>

theorem visual_edit_call_out_of_bounds:
  "buffer (run visualEditTrace (initial (Some (mkTextarea ''abcd'' 3 3)))) = Some ''xd''
   \<and> last (selectionCalls (run visualEditTrace (initial (Some (mkTextarea ''abcd'' 3 3))))) = (0, 3, 2)
   \<and> \<not> list_all inBounds (selectionCalls (run visualEditTrace (initial (Some (mkTextarea ''abcd'' 3 3)))))
   \<and> buffer (run latePasteTrace (initial (Some (mkTextarea ''abcdef'' 5 5)))) = Some ''Xf''
   \<and> last (selectionCalls (run latePasteTrace (initial (Some (mkTextarea ''abcdef'' 5 5))))) = (1, 5, 2)
   \<and> \<not> list_all inBounds (selectionCalls (run latePasteTrace (initial (Some (mkTextarea ''abcdef'' 5 5)))))"
proof -
  let ?s = "run visualEditTrace (initial (Some (mkTextarea ''abcd'' 3 3)))"
  let ?t = "run latePasteTrace (initial (Some (mkTextarea ''abcdef'' 5 5)))"
  have 1: "buffer ?s = Some ''xd''" by code_simp
  have 2: "last (selectionCalls ?s) = (0, 3, 2)" by code_simp
  have 3: "\<not> list_all inBounds (selectionCalls ?s)" by code_simp
  have 4: "buffer ?t = Some ''Xf''" by code_simp
  have 5: "last (selectionCalls ?t) = (1, 5, 2)" by code_simp
  have 6: "\<not> list_all inBounds (selectionCalls ?t)" by code_simp
  show ?thesis by (intro conjI 1 2 3 4 5 6)
qed

subsection \<open>C4: the undo stack is bounded\<close>

lemma stack_invI:
  "stack_inv s \<Longrightarrow> undoStack s' = undoStack s \<Longrightarrow> redoStack s' = redoStack s \<Longrightarrow> stack_inv s'"
  by (simp add: stack_inv_def)

lemma updateCursorAppearance_stacks [simp]:
  "undoStack (updateCursorAppearance m s) = undoStack s"
  "redoStack (updateCursorAppearance m s) = redoStack s"
  by (simp_all add: updateCursorAppearance_def Let_def split: option.split)

lemma setMode_stacks [simp]:
  "undoStack (setMode m s) = undoStack s"
  "redoStack (setMode m s) = redoStack s"
  by (simp_all add: setMode_def updateCursorAppearance_def Let_def split: option.split)

lemma moveCursorLeft_stacks [simp]:
  "undoStack (moveCursorLeft s) = undoStack s"
  "redoStack (moveCursorLeft s) = redoStack s"
  by (simp_all add: moveCursorLeft_def Let_def split: option.split)

lemma moveCursorRight_stacks [simp]:
  "undoStack (moveCursorRight s) = undoStack s"
  "redoStack (moveCursorRight s) = redoStack s"
  by (simp_all add: moveCursorRight_def Let_def split: option.split)

lemma moveCursorUp_stacks [simp]:
  "undoStack (moveCursorUp s) = undoStack s"
  "redoStack (moveCursorUp s) = redoStack s"
  by (simp_all add: moveCursorUp_def Let_def split: option.split)

lemma moveCursorDown_stacks [simp]:
  "undoStack (moveCursorDown s) = undoStack s"
  "redoStack (moveCursorDown s) = redoStack s"
  by (simp_all add: moveCursorDown_def Let_def split: option.split)

lemma moveCursorToStart_stacks [simp]:
  "undoStack (moveCursorToStart s) = undoStack s"
  "redoStack (moveCursorToStart s) = redoStack s"
  by (simp_all add: moveCursorToStart_def Let_def split: option.split)

lemma moveCursorToEnd_stacks [simp]:
  "undoStack (moveCursorToEnd s) = undoStack s"
  "redoStack (moveCursorToEnd s) = redoStack s"
  by (simp_all add: moveCursorToEnd_def Let_def split: option.split)

lemma moveCursorToLineStart_stacks [simp]:
  "undoStack (moveCursorToLineStart s) = undoStack s"
  "redoStack (moveCursorToLineStart s) = redoStack s"
  by (simp_all add: moveCursorToLineStart_def Let_def split: option.split)

lemma moveCursorToLineEnd_stacks [simp]:
  "undoStack (moveCursorToLineEnd s) = undoStack s"
  "redoStack (moveCursorToLineEnd s) = redoStack s"
  by (simp_all add: moveCursorToLineEnd_def Let_def split: option.split)

lemma yankCurrentLine_stacks [simp]:
  "undoStack (yankCurrentLine s) = undoStack s"
  "redoStack (yankCurrentLine s) = redoStack s"
  by (simp_all add: yankCurrentLine_def Let_def split: option.split)

lemma yankSelection_stacks [simp]:
  "undoStack (yankSelection s) = undoStack s"
  "redoStack (yankSelection s) = redoStack s"
  by (simp_all add: yankSelection_def Let_def split: option.split)

lemma pasteAfterCursor_stacks [simp]:
  "undoStack (pasteAfterCursor s) = undoStack s"
  "redoStack (pasteAfterCursor s) = redoStack s"
  by (simp_all add: pasteAfterCursor_def Let_def split: option.split)

lemma pasteBeforeCursor_stacks [simp]:
  "undoStack (pasteBeforeCursor s) = undoStack s"
  "redoStack (pasteBeforeCursor s) = redoStack s"
  by (simp_all add: pasteBeforeCursor_def Let_def split: option.split)

lemma replaceSelectionWithYank_stacks [simp]:
  "undoStack (replaceSelectionWithYank s) = undoStack s"
  "redoStack (replaceSelectionWithYank s) = redoStack s"
  by (simp_all add: replaceSelectionWithYank_def Let_def split: option.split)

lemma setSelectionWithDirection_stacks [simp]:
  "undoStack (setSelectionWithDirection a b s) = undoStack s"
  "redoStack (setSelectionWithDirection a b s) = redoStack s"
  by (simp_all add: setSelectionWithDirection_def Let_def split: option.split)

lemma timerFired_stacks [simp]:
  "undoStack (timerFired h s) = undoStack s"
  "redoStack (timerFired h s) = redoStack s"
  by (simp_all add: timerFired_def Let_def split: option.split)

lemma hostEdit_stacks [simp]:
  "undoStack (hostEdit v a b s) = undoStack s"
  "redoStack (hostEdit v a b s) = redoStack s"
  by (simp_all add: hostEdit_def Let_def split: option.split)


lemma extendSelection_stacks [simp]:
  "undoStack (extendSelectionLeft s) = undoStack s" "redoStack (extendSelectionLeft s) = redoStack s"
  "undoStack (extendSelectionRight s) = undoStack s" "redoStack (extendSelectionRight s) = redoStack s"
  "undoStack (extendSelectionUp s) = undoStack s" "redoStack (extendSelectionUp s) = redoStack s"
  "undoStack (extendSelectionDown s) = undoStack s" "redoStack (extendSelectionDown s) = redoStack s"
  "undoStack (extendSelectionUpLine s) = undoStack s" "redoStack (extendSelectionUpLine s) = redoStack s"
  "undoStack (extendSelectionDownLine s) = undoStack s" "redoStack (extendSelectionDownLine s) = redoStack s"
  by (simp_all add: extendSelectionLeft_def extendSelectionRight_def extendSelectionUp_def
        extendSelectionDown_def extendSelectionUpLine_def extendSelectionDownLine_def Let_def
        split: option.split prod.split)

lemma stack_inv_saveState: "stack_inv s \<Longrightarrow> stack_inv (saveState s)"
  by (cases "undoStack s") (auto simp: saveState_def stack_inv_def Let_def maxUndoStack_def split: option.split)

lemma stack_inv_undo: "stack_inv s \<Longrightarrow> stack_inv (undo s)"
  by (cases "undoStack s" rule: rev_cases) (auto simp: undo_def stack_inv_def Let_def split: option.split)

lemma stack_inv_redo: "stack_inv s \<Longrightarrow> stack_inv (redo s)"
  by (cases "redoStack s" rule: rev_cases) (auto simp: redo_def stack_inv_def Let_def split: option.split)

lemma saveState_users_stacks [simp]:
  "undoStack (deleteCharAtCursor s) = undoStack (saveState s)"
  "redoStack (deleteCharAtCursor s) = redoStack (saveState s)"
  "undoStack (deleteCurrentLine s) = undoStack (saveState s)"
  "redoStack (deleteCurrentLine s) = redoStack (saveState s)"
  "undoStack (deleteSelection s) = undoStack (saveState s)"
  "redoStack (deleteSelection s) = redoStack (saveState s)"
  "undoStack (insertLineBelow s) = undoStack (saveState s)"
  "redoStack (insertLineBelow s) = redoStack (saveState s)"
  "undoStack (insertLineAbove s) = undoStack (saveState s)"
  "redoStack (insertLineAbove s) = redoStack (saveState s)"
  by (simp_all add: deleteCharAtCursor_def deleteCurrentLine_def deleteSelection_def
        insertLineBelow_def insertLineAbove_def Let_def split: option.split)

lemma stack_inv_fields [simp]:
  "stack_inv (s\<lparr>enabled := x1\<rparr>) = stack_inv s"
  "stack_inv (s\<lparr>mode := x2\<rparr>) = stack_inv s"
  "stack_inv (s\<lparr>yankBuffer := x3\<rparr>) = stack_inv s"
  "stack_inv (s\<lparr>visualStart := x4\<rparr>) = stack_inv s"
  "stack_inv (s\<lparr>pendingKey := x5\<rparr>) = stack_inv s"
  "stack_inv (s\<lparr>pendingKeyTimeout := x6\<rparr>) = stack_inv s"
  "stack_inv (s\<lparr>timers := x7\<rparr>) = stack_inv s"
  "stack_inv (s\<lparr>nextTimer := x8\<rparr>) = stack_inv s"
  "stack_inv (s\<lparr>clipboardReads := x9\<rparr>) = stack_inv s"
  "stack_inv (s\<lparr>textarea := x10\<rparr>) = stack_inv s"
  by (simp_all add: stack_inv_def)

lemma stack_inv_via [simp]:
  "stack_inv (updateCursorAppearance m s) = stack_inv s"
  "stack_inv (setMode m s) = stack_inv s"
  "stack_inv (setPendingKey k s) = stack_inv s"
  "stack_inv (clearPendingKey s) = stack_inv s"
  "stack_inv (moveCursorLeft s) = stack_inv s"
  "stack_inv (moveCursorRight s) = stack_inv s"
  "stack_inv (moveCursorUp s) = stack_inv s"
  "stack_inv (moveCursorDown s) = stack_inv s"
  "stack_inv (moveCursorToStart s) = stack_inv s"
  "stack_inv (moveCursorToEnd s) = stack_inv s"
  "stack_inv (moveCursorToLineStart s) = stack_inv s"
  "stack_inv (moveCursorToLineEnd s) = stack_inv s"
  "stack_inv (yankCurrentLine s) = stack_inv s"
  "stack_inv (yankSelection s) = stack_inv s"
  "stack_inv (pasteAfterCursor s) = stack_inv s"
  "stack_inv (pasteBeforeCursor s) = stack_inv s"
  "stack_inv (replaceSelectionWithYank s) = stack_inv s"
  "stack_inv (setSelectionWithDirection a b s) = stack_inv s"
  "stack_inv (timerFired h s) = stack_inv s"
  "stack_inv (hostEdit v a b s) = stack_inv s"
  "stack_inv (extendSelectionLeft s) = stack_inv s"
  "stack_inv (extendSelectionRight s) = stack_inv s"
  "stack_inv (extendSelectionUp s) = stack_inv s"
  "stack_inv (extendSelectionDown s) = stack_inv s"
  "stack_inv (extendSelectionUpLine s) = stack_inv s"
  "stack_inv (extendSelectionDownLine s) = stack_inv s"
  "stack_inv (deleteCharAtCursor s) = stack_inv (saveState s)"
  "stack_inv (deleteCurrentLine s) = stack_inv (saveState s)"
  "stack_inv (deleteSelection s) = stack_inv (saveState s)"
  "stack_inv (insertLineBelow s) = stack_inv (saveState s)"
  "stack_inv (insertLineAbove s) = stack_inv (saveState s)"
  by (simp_all add: stack_inv_def)

lemma stack_inv_resume:
  "stack_inv s \<Longrightarrow> stack_inv (pasteAfterCursorResume clip s)"
  "stack_inv s \<Longrightarrow> stack_inv (pasteBeforeCursorResume clip s)"
  "stack_inv s \<Longrightarrow> stack_inv (replaceSelectionWithYankResume clip s)"
  using stack_inv_saveState [of s]
  by (simp_all add: pasteAfterCursorResume_def pasteBeforeCursorResume_def
        replaceSelectionWithYankResume_def Let_def split: option.split)

lemma stack_inv_clipboardResolved: "stack_inv s \<Longrightarrow> stack_inv (clipboardResolved clip s)"
  by (auto simp: clipboardResolved_def Let_def stack_inv_resume split: list.split paste_kind.split)

lemma stack_inv_normalKey: "stack_inv s \<Longrightarrow> stack_inv (snd (normalKey k c sh ta s))"
  by (simp add: normalKey_def Let_def stack_inv_saveState stack_inv_undo stack_inv_redo)

lemma stack_inv_handleNormalMode: "stack_inv s \<Longrightarrow> stack_inv (snd (handleNormalMode k c sh s))"
  using stack_inv_saveState [of "clearPendingKey s"]
  by (simp add: handleNormalMode_def Let_def stack_inv_normalKey split: option.split)

lemma stack_inv_handleInsertMode: "stack_inv s \<Longrightarrow> stack_inv (snd (handleInsertMode k c sh s))"
  by (simp add: handleInsertMode_def stack_inv_saveState)

lemma stack_inv_visualKey: "stack_inv s \<Longrightarrow> stack_inv (snd (visualKey k ta s))"
  by (simp add: visualKey_def Let_def stack_inv_saveState split: option.split)

lemma stack_inv_handleVisualMode: "stack_inv s \<Longrightarrow> stack_inv (snd (handleVisualMode k c sh s))"
  using stack_inv_visualKey [of "clearPendingKey s" k]
  by (simp add: handleVisualMode_def Let_def stack_inv_visualKey split: option.split)

lemma stack_inv_handleKeyDown: "stack_inv s \<Longrightarrow> stack_inv (snd (handleKeyDown ev s))"
  by (simp add: handleKeyDown_def stack_inv_handleNormalMode stack_inv_handleInsertMode
        stack_inv_handleVisualMode split: VimMode.split)

lemma stack_inv_keyDown: "stack_inv s \<Longrightarrow> stack_inv (keyDown ev s)"
  using stack_inv_handleKeyDown [of s ev]
  by (auto simp: keyDown_def Let_def split: option.split prod.split)

lemma stack_inv_setEnabled: "stack_inv s \<Longrightarrow> stack_inv (setEnabled b s)"
  using stack_inv_saveState [of "setMode Normal (s\<lparr>enabled := True\<rparr>)"]
  by (simp add: setEnabled_def Let_def)

lemma stack_inv_step: "stack_inv s \<Longrightarrow> stack_inv (step e s)"
  by (cases e) (simp_all add: stack_inv_keyDown stack_inv_clipboardResolved stack_inv_setEnabled)

lemma stack_inv_run: "stack_inv s \<Longrightarrow> stack_inv (run es s)"
  by (induction es arbitrary: s) (simp_all add: stack_inv_step)

lemma stack_inv_initial: "stack_inv (initial ta)"
  by (simp add: stack_inv_def initial_def)

text \<open>
  Claim C4. In every state reached from a fresh engine by any sequence of events (all
  calls of \<^verbatim>\<open>saveState\<close>, \<^verbatim>\<open>undo\<close> and \<^verbatim>\<open>redo\<close> happen inside them) the undo
  stack holds at most \<open>maxUndoStack = 100\<close> snapshots: the two stacks together never
  hold more, which each of the three operations preserves. With a textarea,
  \<^verbatim>\<open>saveState\<close> appends the current snapshot, dropping the oldest entry when the stack
  was full, and empties the redo stack; without one it does nothing.
\<close>

theorem undo_stack_bounded:
  "length (undoStack (run es (initial ta))) \<le> maxUndoStack
   \<and> (stack_inv s \<longrightarrow>
         length (undoStack s) \<le> maxUndoStack
         \<and> stack_inv (saveState s) \<and> stack_inv (undo s) \<and> stack_inv (redo s))
   \<and> (case textarea s of
        None \<Rightarrow> saveState s = s
      | Some t \<Rightarrow>
          undoStack (saveState s) =
            (if length (undoStack s) < maxUndoStack then undoStack s else tl (undoStack s))
            @ [\<lparr>snap_text = tvalue t, snap_cursor = selectionStart t\<rparr>]
          \<and> redoStack (saveState s) = [])"
proof -
  have "stack_inv (run es (initial ta))"
    by (intro stack_inv_run stack_inv_initial)
  then have 1: "length (undoStack (run es (initial ta))) \<le> maxUndoStack"
    by (simp add: stack_inv_def)
  have 2: "undoStack (saveState s) =
            (if length (undoStack s) < maxUndoStack then undoStack s else tl (undoStack s))
            @ [\<lparr>snap_text = tvalue t, snap_cursor = selectionStart t\<rparr>]
          \<and> redoStack (saveState s) = []" if "textarea s = Some t" for t
    using that by (cases "undoStack s") (auto simp: saveState_def Let_def maxUndoStack_def)
  have 3: "stack_inv s \<longrightarrow> length (undoStack s) \<le> maxUndoStack
         \<and> stack_inv (saveState s) \<and> stack_inv (undo s) \<and> stack_inv (redo s)"
    using stack_inv_saveState [of s] stack_inv_undo [of s] stack_inv_redo [of s]
    by (auto simp: stack_inv_def)
  show ?thesis
  proof (cases "textarea s")
    case None
    with 1 3 show ?thesis by (simp add: saveState_def)
  next
    case (Some t)
    with 1 2 [OF Some] 3 show ?thesis by simp
  qed
qed

theorem undo_stack_bounded_witness:
  "length (undoStack (run fullTrace (initial (Some (mkTextarea [] 0 0))))) = 100
   \<and> stack_inv (run fullTrace (initial (Some (mkTextarea [] 0 0))))
   \<and> stack_inv (saveState (run fullTrace (initial (Some (mkTextarea [] 0 0)))))
   \<and> length (undoStack (saveState (run fullTrace (initial (Some (mkTextarea [] 0 0)))))) = 100
   \<and> redoStack (saveState (run fullTrace (initial (Some (mkTextarea [] 0 0))))) = []"
proof -
  let ?s = "run fullTrace (initial (Some (mkTextarea [] 0 0)))"
  have 1: "length (undoStack ?s) = 100" by code_simp
  have 2: "textarea ?s = Some (mkTextarea [] 0 0)" by code_simp
  have 3: "undoStack ?s \<noteq> []" using 1 by auto
  have 4: "stack_inv ?s" by code_simp
  show ?thesis
    using undo_stack_bounded [of fullTrace "Some (mkTextarea [] 0 0)" ?s] 1 2 3 4
    by (simp add: maxUndoStack_def)
qed

subsection \<open>C8: entering Normal mode applies the block cursor\<close>

lemma blockShaped_updateCursorAppearance:
  assumes "selection_ok s"
  shows "blockShaped (updateCursorAppearance Normal s)"
proof (cases "textarea s")
  case None
  then show ?thesis by (simp add: updateCursorAppearance_def blockShaped_def)
next
  case (Some ta)
  then have ok: "ta_ok ta" using assms by (simp add: selection_ok_def)
  let ?pos = "selectionStart ta" and ?n = "int (length (tvalue ta))"
  have b: "0 \<le> ?pos" "?pos \<le> selectionEnd ta" "selectionEnd ta \<le> ?n"
    using ok by (simp_all add: ta_ok_def)
  consider (a) "?pos < ?n" | (b) "\<not> ?pos < ?n" "?n > 0" | (c) "\<not> ?pos < ?n" "\<not> ?n > 0"
    by blast
  then show ?thesis
  proof cases
    case a
    with b(1) have "tvalue ta \<noteq> []" by auto
    with a b show ?thesis
      unfolding updateCursorAppearance_Normal [OF Some ok] by (simp add: Let_def blockShaped_def)
  next
    case b
    with \<open>?pos \<le> selectionEnd ta\<close> \<open>selectionEnd ta \<le> ?n\<close> have "?pos = ?n" "1 \<le> ?pos"
      by linarith+
    with b show ?thesis
      unfolding updateCursorAppearance_Normal [OF Some ok] by (simp add: Let_def blockShaped_def)
  next
    case c
    with b have "?pos = 0" "selectionEnd ta = 0" "tvalue ta = []" by auto
    with c Some show ?thesis
      unfolding updateCursorAppearance_Normal [OF Some ok] by (simp add: Let_def blockShaped_def)
  qed
qed

lemma blockShaped_setMode: "selection_ok s \<Longrightarrow> blockShaped (setMode Normal s)"
  by (simp add: setMode_def blockShaped_updateCursorAppearance)

lemma blockShaped_moveCursorLeft:
  assumes "mode s = Normal"
  shows "blockShaped (moveCursorLeft s)"
proof (cases "textarea s")
  case None
  then show ?thesis by (simp add: moveCursorLeft_def blockShaped_def)
next
  case (Some ta)
  with assms show ?thesis
    by (simp add: moveCursorLeft_def Let_def blockShaped_updateCursorAppearance)
qed

lemma blockShaped_saveState [simp]: "blockShaped (saveState s) = blockShaped s"
  by (simp add: blockShaped_def)

lemma visualKey_to_Normal:
  assumes "selection_ok s" and "mode s \<noteq> Normal" and "mode (snd (visualKey k ta s)) = Normal"
  shows "blockShaped (snd (visualKey k ta s))"
  using assms
  by (auto simp: visualKey_def Let_def selection_ok_yankSelection selection_ok_deleteSelection
        selection_ok_replaceSelectionWithYank
      split: if_splits option.splits intro!: blockShaped_setMode)

lemma handleKeyDown_to_Normal:
  assumes "selection_ok s" and "mode s \<noteq> Normal" and "mode (snd (handleKeyDown ev s)) = Normal"
  shows "blockShaped (snd (handleKeyDown ev s))"
proof (cases "enabled s")
  case False
  with assms show ?thesis by (simp add: handleKeyDown_def)
next
  case True
  show ?thesis
  proof (cases "mode s = Insert")
    case True
    with assms \<open>enabled s\<close> show ?thesis
      by (auto simp: handleKeyDown_def handleInsertMode_def split: if_splits
          intro!: blockShaped_moveCursorLeft)
  next
    case False
    with assms(2) have v: "mode s = Visual \<or> mode s = VisualLine" by (cases "mode s") simp_all
    have h: "handleKeyDown ev s = handleVisualMode (key ev) (ctrlKey ev) (shiftKey ev) s"
      using v \<open>enabled s\<close> by (auto simp: handleKeyDown_def)
    have m1: "mode (clearPendingKey s) \<noteq> Normal" using assms(2) by simp
    have s1: "selection_ok (clearPendingKey s)" using assms(1) by (rule selection_ok_clearPendingKey)
    show ?thesis
      using assms visualKey_to_Normal [OF assms(1,2)] visualKey_to_Normal [OF s1 m1]
      unfolding h
      by (auto simp: handleVisualMode_def Let_def split: option.splits if_splits
          intro!: blockShaped_setMode)
  qed
qed

lemma blockShaped_setEnabled: "selection_ok s \<Longrightarrow> blockShaped (setEnabled True s)"
  by (simp add: setEnabled_def Let_def blockShaped_setMode)

text \<open>
  \<^verbatim>\<open>setMode\<close> is the only place that assigns the mode. Setting the mode to Normal on a
  textarea whose caret is at \<open>pos\<close> leaves the text alone and selects \<open>[pos, pos + 1)\<close>
  when \<open>pos\<close> is before the end of the buffer, the last character \<open>[pos - 1, pos)\<close> when
  \<open>pos\<close> is the end of a non-empty buffer, and keeps the zero-width caret on an empty
  buffer. The selection is a block cursor after enabling the engine and after every key
  that takes the engine from another mode to Normal.
\<close>

lemma setMode_Normal_applies_block_cursor:
  assumes "textarea s = Some ta" and "ta_ok ta"
  shows "mode (setMode Normal s) = Normal
       \<and> buffer (setMode Normal s) = Some (tvalue ta)
       \<and> selection (setMode Normal s) =
           Some (let pos = selectionStart ta; n = int (length (tvalue ta)) in
                 if pos < n then (pos, pos + 1)
                 else if n > 0 then (pos - 1, pos)
                 else (0, 0))
       \<and> blockShaped (setEnabled True s)
       \<and> (mode s \<noteq> Normal \<and> mode (snd (handleKeyDown ev s)) = Normal
            \<longrightarrow> blockShaped (snd (handleKeyDown ev s)))"
proof -
  have ok: "selection_ok s" using assms by (simp add: selection_ok_def)
  show ?thesis
    using setMode_Normal_selection [OF assms] blockShaped_setEnabled [OF ok]
      handleKeyDown_to_Normal [OF ok, of ev]
    by simp
qed

lemma setMode_Normal_applies_block_cursor_example:
  "selection (setMode Normal (initial (Some (mkTextarea ''abc'' 1 1)))) = Some (1, 2)
   \<and> selection (setMode Normal (initial (Some (mkTextarea ''abc'' 3 3)))) = Some (2, 3)
   \<and> selection (setMode Normal (initial (Some (mkTextarea [] 0 0)))) = Some (0, 0)"
proof -
  have t: "\<And>v p. textarea (initial (Some (mkTextarea v p p))) = Some (mkTextarea v p p)"
    by (simp add: initial_def)
  have 1: "ta_ok (mkTextarea ''abc'' 1 1)" by (simp add: ta_ok_def mkTextarea_def)
  have 2: "ta_ok (mkTextarea ''abc'' 3 3)" by (simp add: ta_ok_def mkTextarea_def)
  have 3: "ta_ok (mkTextarea [] 0 0)" by (simp add: ta_ok_def mkTextarea_def)
  show ?thesis
    using setMode_Normal_applies_block_cursor [OF t 1] setMode_Normal_applies_block_cursor [OF t 2]
      setMode_Normal_applies_block_cursor [OF t 3]
    by (simp add: mkTextarea_def)
qed

text \<open>
  Escape in Insert mode does not stop there: after \<^verbatim>\<open>setMode('normal')\<close> it calls
  \<^verbatim>\<open>moveCursorLeft()\<close>, which reads the selection start that \<^verbatim>\<open>setMode\<close> has just set.
\<close>

lemma setMode_Normal_textarea:
  assumes "textarea s = Some ta" and "ta_ok ta"
  shows "\<exists>ta1. textarea (setMode Normal s) = Some ta1 \<and> ta_ok ta1 \<and> tvalue ta1 = tvalue ta
           \<and> mode (setMode Normal s) = Normal
           \<and> selectionStart ta1 =
               (if selectionStart ta < int (length (tvalue ta)) then selectionStart ta
                else if int (length (tvalue ta)) > 0 then selectionStart ta - 1
                else selectionStart ta)"
proof -
  let ?s = "s\<lparr>mode := Normal\<rparr>"
  have t: "textarea ?s = Some ta" using assms by simp
  let ?pos = "selectionStart ta" and ?n = "int (length (tvalue ta))"
  have b: "0 \<le> ?pos" "?pos \<le> selectionEnd ta" "selectionEnd ta \<le> ?n"
    using assms(2) by (simp_all add: ta_ok_def)
  consider (a) "?pos < ?n" | (b) "\<not> ?pos < ?n" "?n > 0" | (c) "\<not> ?pos < ?n" "\<not> ?n > 0"
    by blast
  then show ?thesis
  proof cases
    case a
    with b show ?thesis
      unfolding setMode_def updateCursorAppearance_Normal [OF t assms(2)]
      by (simp add: Let_def ta_ok_def)
  next
    case b
    with \<open>?pos \<le> selectionEnd ta\<close> \<open>selectionEnd ta \<le> ?n\<close> have "?pos = ?n" "1 \<le> ?pos"
      by linarith+
    with b show ?thesis
      unfolding setMode_def updateCursorAppearance_Normal [OF t assms(2)]
      by (simp add: Let_def ta_ok_def)
  next
    case c
    with assms show ?thesis
      unfolding setMode_def updateCursorAppearance_Normal [OF t assms(2)]
      by (simp add: Let_def)
  qed
qed

lemma moveCursorLeft_Normal_selection:
  assumes "mode s = Normal" and "textarea s = Some ta" and "ta_ok ta"
  shows "mode (moveCursorLeft s) = Normal
       \<and> buffer (moveCursorLeft s) = Some (tvalue ta)
       \<and> selection (moveCursorLeft s) =
           Some (let p = max 0 (selectionStart ta - 1) in
                 if p < int (length (tvalue ta)) then (p, p + 1) else (0, 0))"
proof -
  let ?n = "int (length (tvalue ta))"
  define p where "p = max 0 (selectionStart ta - 1)"
  have b: "0 \<le> p" "p \<le> ?n" using assms(3) unfolding p_def ta_ok_def by linarith+
  define ta2 where "ta2 = ta\<lparr>selectionStart := p, selectionEnd := p, selectionDirection := NoDirection,
        calls := calls ta @ [(p, p, ?n)]\<rparr>"
  have r: "setSelectionRange p p NoDirection ta = ta2"
    unfolding ta2_def using b by (intro setSelectionRange_in) simp_all
  have ok2: "ta_ok ta2" using b by (simp add: ta2_def ta_ok_def)
  let ?s2 = "s\<lparr>textarea := Some ta2\<rparr>"
  have t2: "textarea ?s2 = Some ta2" by simp
  have m: "moveCursorLeft s = updateCursorAppearance Normal ?s2"
    using assms(1,2) r by (simp add: moveCursorLeft_def Let_def p_def)
  have z: "\<not> p < ?n \<Longrightarrow> p = 0" using b assms(3) unfolding p_def ta_ok_def by linarith
  show ?thesis
    unfolding m updateCursorAppearance_Normal [OF t2 ok2]
    using assms(1) b z
    by (auto simp: Let_def buffer_def selection_def ta2_def p_def [symmetric])
qed

text \<open>
  Escape in Insert mode, for every text and caret: the block cursor is applied one
  position to the left of where \<^verbatim>\<open>setMode\<close> has put it.
\<close>

lemma Escape_in_Insert_selection:
  assumes "enabled s" and "mode s = Insert" and "textarea s = Some ta" and "ta_ok ta"
    and "key ev = ''Escape''"
  shows "fst (handleKeyDown ev s)
       \<and> mode (snd (handleKeyDown ev s)) = Normal
       \<and> buffer (snd (handleKeyDown ev s)) = Some (tvalue ta)
       \<and> selection (snd (handleKeyDown ev s)) =
           Some (let pos = selectionStart ta; n = int (length (tvalue ta));
                     p1 = (if pos < n then pos else if n > 0 then pos - 1 else pos);
                     p2 = max 0 (p1 - 1)
                 in if p2 < n then (p2, p2 + 1) else (0, 0))"
proof -
  have h: "handleKeyDown ev s = (True, moveCursorLeft (setMode Normal (saveState s)))"
    using assms(1,2,5) by (simp add: handleKeyDown_def handleInsertMode_def)
  have t: "textarea (saveState s) = Some ta" using assms(3) by (simp add: saveState_Some)
  from setMode_Normal_textarea [OF t assms(4)] obtain ta1 where
    1: "textarea (setMode Normal (saveState s)) = Some ta1" "ta_ok ta1" "tvalue ta1 = tvalue ta"
       "mode (setMode Normal (saveState s)) = Normal"
       "selectionStart ta1 =
               (if selectionStart ta < int (length (tvalue ta)) then selectionStart ta
                else if int (length (tvalue ta)) > 0 then selectionStart ta - 1
                else selectionStart ta)"
    by blast
  show ?thesis
    unfolding h using moveCursorLeft_Normal_selection [OF 1(4) 1(1) 1(2)] 1(3,5)
    by (simp add: Let_def)
qed

text \<open>
  With the caret at the end of a text of at least two characters, Escape in Insert mode
  therefore selects the character before the last one.
\<close>

lemma Escape_in_Insert_selection_at_end:
  assumes "enabled s" and "mode s = Insert" and "textarea s = Some ta" and "ta_ok ta"
    and "key ev = ''Escape''"
    and "selectionStart ta = int (length (tvalue ta))" and "2 \<le> length (tvalue ta)"
  shows "selection (snd (handleKeyDown ev s)) =
           Some (int (length (tvalue ta)) - 2, int (length (tvalue ta)) - 1)"
proof -
  define n where "n = int (length (tvalue ta))"
  have n: "2 \<le> n" using assms(7) by (simp add: n_def)
  then have "\<not> n < n" "0 < n" "max 0 (n - 1 - 1) = n - 2" "n - 2 < n" by linarith+
  then show ?thesis
    using Escape_in_Insert_selection [OF assms(1-5)] assms(6)
    unfolding n_def [symmetric] Let_def by simp
qed

text \<open>
  With the caret before the end, the character selected is the one just typed: after
  \<open>X\<close> was typed into \<open>abc\<close> at offset 1, Escape puts the block cursor on \<open>X\<close>.
\<close>

lemma Escape_in_Insert_before_end:
  "mode insertedExample = Insert
   \<and> buffer insertedExample = Some ''aXbc''
   \<and> selection insertedExample = Some (2, 2)
   \<and> mode (snd (handleKeyDown (plain ''Escape'') insertedExample)) = Normal
   \<and> selection (snd (handleKeyDown (plain ''Escape'') insertedExample)) = Some (1, 2)"
  by code_simp

text \<open>
  Claim C8 says that every transition into Normal mode with the cursor at the end of a
  non-empty buffer selects the last character. Escape in Insert mode does not: after
  \<open>abc\<close> was typed into an empty buffer the caret is at offset 3, the end of the buffer;
  \<^verbatim>\<open>setMode('normal')\<close> selects the last character \<open>[2, 3)\<close>, and \<^verbatim>\<open>moveCursorLeft()\<close>,
  called "to stay on the last inserted character", then steps back from there, so that
  the key ends on \<open>[1, 2)\<close>, the character \<open>b\<close>, and not on the last character \<open>c\<close>.
\<close>

theorem Escape_in_Insert_at_end_of_buffer:
  "enabled typedExample
   \<and> mode typedExample = Insert
   \<and> buffer typedExample = Some ''abc''
   \<and> selection typedExample = Some (3, 3)
   \<and> selection (setMode Normal (saveState typedExample)) = Some (2, 3)
   \<and> fst (handleKeyDown (plain ''Escape'') typedExample)
   \<and> mode (snd (handleKeyDown (plain ''Escape'') typedExample)) = Normal
   \<and> buffer (snd (handleKeyDown (plain ''Escape'') typedExample)) = Some ''abc''
   \<and> selection (snd (handleKeyDown (plain ''Escape'') typedExample)) = Some (1, 2)"
  by code_simp

end
